(* ===== verification/Stpl_Prelude.thy ===== *)
theory Stpl_Prelude
  imports Complex_Main "HOL-Library.Finite_Map"
begin

text \<open>
  Shared vocabulary of the development: the exceptions the Python sources can
  raise (as values of a datatype), the result type of a fallible call, the
  lemma collections the component theories add to, and the facts about list
  slices and integer intervals that the partitioning proofs share.
\<close>

section \<open>Lemma collections\<close>

named_theorems py_defs "definitions of the modelled Python built-ins"
named_theorems stpl_defs "definitions of the modelled operations of the tool"
named_theorems stpl_inv "invariant preservation facts"

section \<open>Exceptions and results\<close>

text \<open>
  Every exception class that a modelled line can raise. A call that may raise
  returns \<open>py_error + 'a\<close>, with \<open>Inl\<close> for the exception.
\<close>

datatype py_error =
    ValueError
  | ZeroDivisionError
  | IndexError
  | FileNotFoundError
  | FileExistsError
  | NotADirectoryError
  | IsADirectoryError
  | PermissionError
  | PdfReadError
  | CalledProcessError
  | OSError
  | KeyError
  | OverflowError

type_synonym 'a result = "py_error + 'a"

definition is_ok :: "'a result \<Rightarrow> bool" where
  "is_ok r = (case r of Inl _ \<Rightarrow> False | Inr _ \<Rightarrow> True)"

lemma is_ok_simps [simp]: "is_ok (Inr x)" "\<not> is_ok (Inl e)"
  by (simp_all add: is_ok_def)

lemma is_ok_iff: "is_ok r \<longleftrightarrow> (\<exists>x. r = Inr x)"
  by (cases r) simp_all

text \<open>
  \<open>traverse f xs\<close> runs a fallible function over a list left to right and
  stops at the first exception, as a Python loop body that raises does.
\<close>

fun traverse :: "('a \<Rightarrow> 'b result) \<Rightarrow> 'a list \<Rightarrow> 'b list result" where
  "traverse f [] = Inr []"
| "traverse f (x # xs) =
     (case f x of
        Inl e \<Rightarrow> Inl e
      | Inr y \<Rightarrow> (case traverse f xs of Inl e \<Rightarrow> Inl e | Inr ys \<Rightarrow> Inr (y # ys)))"

lemma traverse_all_ok:
  "(\<And>x. x \<in> set xs \<Longrightarrow> f x = Inr (g x)) \<Longrightarrow> traverse f xs = Inr (map g xs)"
  by (induction xs) simp_all

lemma traverse_ok_iff: "is_ok (traverse f xs) \<longleftrightarrow> list_all (\<lambda>x. is_ok (f x)) xs"
  by (induction xs) (auto simp: is_ok_def split: sum.splits)

lemma traverse_Inr_length: "traverse f xs = Inr ys \<Longrightarrow> length ys = length xs"
  by (induction xs arbitrary: ys) (auto split: sum.splits)

lemma traverse_Inr_nth:
  "traverse f xs = Inr ys \<Longrightarrow> i < length xs \<Longrightarrow> f (xs ! i) = Inr (ys ! i)"
proof (induction xs arbitrary: ys i)
  case Nil
  then show ?case by simp
next
  case (Cons x xs)
  then show ?case by (cases i) (auto split: sum.splits)
qed

section \<open>Slices of lists\<close>

text \<open>
  \<open>slice xs lo hi\<close> is Python's \<open>xs[lo:hi]\<close> for \<open>0 \<le> lo\<close>: the elements at
  the positions \<open>lo, \<dots>, hi - 1\<close> that exist.
\<close>

definition slice :: "'a list \<Rightarrow> nat \<Rightarrow> nat \<Rightarrow> 'a list" where
  "slice xs lo hi = take (hi - lo) (drop lo xs)"

lemma slice_Nil [simp]: "slice [] lo hi = []"
  by (simp add: slice_def)

lemma slice_empty [simp]: "hi \<le> lo \<Longrightarrow> slice xs lo hi = []"
  by (simp add: slice_def)

lemma slice_whole [simp]: "slice xs 0 (length xs) = xs"
  by (simp add: slice_def)

lemma length_slice [simp]: "length (slice xs lo hi) = min hi (length xs) - lo"
  by (simp add: slice_def)

lemma slice_append:
  "a \<le> b \<Longrightarrow> b \<le> c \<Longrightarrow> slice xs a b @ slice xs b c = slice xs a c"
proof -
  assume ab: "a \<le> b" and bc: "b \<le> c"
  have "take (c - a) (drop a xs) =
        take (b - a) (drop a xs) @ take (c - a - (b - a)) (drop (b - a) (drop a xs))"
    using take_add [of "b - a" "c - a - (b - a)" "drop a xs"] ab bc by simp
  with ab bc show ?thesis by (simp add: slice_def)
qed

lemma slice_beyond: "length xs \<le> hi \<Longrightarrow> slice xs lo hi = drop lo xs"
  by (simp add: slice_def)

lemma slice_map_nth:
  "hi \<le> length xs \<Longrightarrow> slice xs lo hi = map (\<lambda>i. xs ! i) [lo..<hi]"
  by (auto simp: slice_def list_eq_iff_nth_eq)

lemma slice_upt: "hi \<le> n \<Longrightarrow> slice [0..<n] lo hi = [lo..<hi]"
  by (auto simp: slice_def list_eq_iff_nth_eq)

lemma slice_drop: "slice (drop n xs) a b = slice xs (a + n) (b + n)"
  by (simp add: slice_def add.commute)

lemma slice_min_length: "slice xs a (min b (length xs)) = slice xs a b"
  by (simp add: slice_def min_def)

lemma slice_0_take: "slice xs 0 k = take k xs"
  by (simp add: slice_def)

section \<open>Enumerated lists\<close>

text \<open>
  \<open>enumerate 0 xs\<close> is Python's \<open>enumerate(xs)\<close>. It can be cut at any
  index: the part before, the element there, the part after.
\<close>

lemma enumerate_split:
  assumes "k < length xs"
  shows "enumerate 0 xs = enumerate 0 (take k xs) @ (k, xs ! k) # enumerate (Suc k) (drop (Suc k) xs)"
proof -
  have "enumerate 0 (take k xs @ xs ! k # drop (Suc k) xs) =
        enumerate 0 (take k xs) @ enumerate (0 + length (take k xs)) (xs ! k # drop (Suc k) xs)"
    by (rule enumerate_append_eq)
  moreover have "take k xs @ xs ! k # drop (Suc k) xs = xs"
    using assms by (simp add: id_take_nth_drop [symmetric])
  moreover have "length (take k xs) = k" using assms by simp
  ultimately show ?thesis by (simp only: add_0 enumerate_simps)
qed

lemma map_zip_snd: "length xs = length ys \<Longrightarrow> map (\<lambda>r. f (snd r)) (zip xs ys) = map f ys"
  by (induction xs ys rule: list_induct2) simp_all

section \<open>Ceiling division on integers\<close>

text \<open>
  \<open>(a + b - 1) div b\<close> is the number of blocks of size \<open>b\<close> that cover \<open>a\<close>
  units; HOL's \<open>div\<close> on \<open>int\<close> rounds down, as Python's \<open>//\<close> does.
\<close>

lemma ceil_div_alt:
  fixes a b :: int
  assumes "0 < b"
  shows "(a + b - 1) div b = (a - 1) div b + 1"
proof -
  have "(a - 1 + b) div b = (a - 1) div b + 1"
    by (rule div_add_self2) (use assms in simp)
  moreover have "a + b - 1 = a - 1 + b" by simp
  ultimately show ?thesis by (simp only:)
qed

lemma ceil_div_pos:
  fixes a b :: int
  assumes "0 < b" and "0 < a"
  shows "0 < (a + b - 1) div b"
proof -
  have "0 \<le> (a - 1) div b" using assms by (simp add: pos_imp_zdiv_nonneg_iff)
  with ceil_div_alt [OF assms(1)] show ?thesis by simp
qed

lemma ceil_div_zero:
  fixes b :: int
  assumes "0 < b"
  shows "(0 + b - 1) div b = 0"
  using assms by (simp add: div_pos_pos_trivial)

lemma ceil_div_bounds:
  fixes a b :: int
  assumes "0 < b"
  shows "((a + b - 1) div b - 1) * b < a" and "a \<le> (a + b - 1) div b * b"
proof -
  define q where "q = (a - 1) div b"
  define r where "r = (a - 1) mod b"
  have eq: "a - 1 = q * b + r" by (simp add: q_def r_def)
  have m: "0 \<le> r" "r < b" using assms by (simp_all add: r_def)
  have c: "(a + b - 1) div b = q + 1" by (simp add: ceil_div_alt [OF assms] q_def)
  from eq m show "((a + b - 1) div b - 1) * b < a"
    unfolding c by simp
  from eq m show "a \<le> (a + b - 1) div b * b"
    unfolding c by (simp add: algebra_simps)
qed

lemma ceil_div_cases:
  fixes a b :: int
  assumes "0 < b"
  shows "(a + b - 1) div b = a div b + (if a mod b = 0 then 0 else 1)"
proof -
  define q where "q = a div b"
  define r where "r = a mod b"
  have a: "a = q * b + r" by (simp add: q_def r_def)
  have r: "0 \<le> r" "r < b" using assms by (simp_all add: r_def)
  have am: "a mod b = r" by (simp add: r_def)
  show ?thesis
  proof (cases "r = 0")
    case True
    have "(q * b + (b - 1)) div b = q + (b - 1) div b"
      using assms by (simp add: div_mult_self3 del: div_mult_self4)
    also have "(b - 1) div b = 0" using assms by (simp add: div_pos_pos_trivial)
    finally have "(q * b + (b - 1)) div b = q" by simp
    moreover have "a + b - 1 = q * b + (b - 1)" using a True by simp
    ultimately have "(a + b - 1) div b = q" by (simp only:)
    with True am show ?thesis by (simp add: q_def)
  next
    case False
    have "a + b - 1 = (q + 1) * b + (r - 1)" using a by (simp add: algebra_simps)
    moreover have "((q + 1) * b + (r - 1)) div b = q + 1 + (r - 1) div b"
      using assms by (simp add: div_mult_self3 del: div_mult_self4)
    moreover have "(r - 1) div b = 0" using r False by (simp add: div_pos_pos_trivial)
    ultimately have "(a + b - 1) div b = q + 1" by (simp only: add_0_right)
    with False am show ?thesis by (simp add: q_def)
  qed
qed

end
