(* ===== verification/Py_Builtins.thy ===== *)
theory Py_Builtins
  imports Stpl_Prelude "HOL-Library.Log_Nat"
begin

text \<open>
  The Python built-ins the sources call, as executable HOL functions:
  \<open>range\<close> with a step, list indexing with negative indices, \<open>str\<close> of an
  integer, the format specification \<open>03d\<close>, the division of two integers
  into a float, \<open>strip\<close>, \<open>lower\<close> and \<open>split\<close>. They are not code of the
  repository; they are modelled from the language reference, and the facts
  proved here are the ones the components rely on: the length and the elements
  of a range, that decimal rendering can be read back (so that different
  numbers give different strings), and that the rounded quotient is the
  nearest double.
\<close>

section \<open>range\<close>

text \<open>
  \<open>range(lo, hi, step)\<close> raises \<open>ValueError\<close> for a zero step. Otherwise it
  holds \<open>lo + k * step\<close> for \<open>k\<close> below the length CPython computes for it.
\<close>

definition range_len :: "int \<Rightarrow> int \<Rightarrow> int \<Rightarrow> nat" where
  "range_len lo hi step =
     (if 0 < step \<and> lo < hi then nat ((hi - lo - 1) div step + 1)
      else if step < 0 \<and> hi < lo then nat ((lo - hi - 1) div (- step) + 1)
      else 0)"

definition py_range :: "int \<Rightarrow> int \<Rightarrow> int \<Rightarrow> int list result" where
  "py_range lo hi step =
     (if step = 0 then Inl ValueError
      else Inr (map (\<lambda>k. lo + int k * step) [0..<range_len lo hi step]))"

definition py_range1 :: "int \<Rightarrow> int list" where
  "py_range1 n = map int [0..<nat n]"

lemmas range_defs [py_defs] = range_len_def py_range_def py_range1_def

lemma py_range_zero_step [simp]: "py_range lo hi 0 = Inl ValueError"
  by (simp add: py_range_def)

lemma py_range_neg_step_empty [simp]:
  "step < 0 \<Longrightarrow> lo \<le> hi \<Longrightarrow> py_range lo hi step = Inr []"
  by (simp add: py_range_def range_len_def)

lemma range_len_ceil:
  assumes "0 < step" and "0 \<le> n"
  shows "range_len 0 n step = nat ((n + step - 1) div step)"
proof (cases "n = 0")
  case True
  with assms show ?thesis by (simp add: range_len_def div_pos_pos_trivial)
next
  case False
  with assms have "0 < n" by simp
  with assms show ?thesis by (simp add: range_len_def ceil_div_alt)
qed

lemma py_range_pos:
  assumes "0 < step"
  shows "py_range 0 n step = Inr (map (\<lambda>k. int k * step) [0..<range_len 0 n step])"
  using assms by (simp add: py_range_def)

lemma range_len_bound:
  assumes "0 < step" and "k < range_len 0 n step"
  shows "int k * step < n"
proof -
  from assms have n: "0 < n" by (simp add: range_len_def split: if_splits)
  with assms have "int k \<le> (n - 1) div step"
    by (simp add: range_len_def)
  then have "int k * step \<le> (n - 1) div step * step"
    using assms(1) by (simp add: mult_right_mono)
  also have "\<dots> \<le> n - 1"
  proof -
    have "(n - 1) div step * step + (n - 1) mod step = n - 1" by simp
    moreover have "0 \<le> (n - 1) mod step" using assms(1) by simp
    ultimately show ?thesis by linarith
  qed
  finally show ?thesis by simp
qed

lemma range_len_last:
  assumes "0 < step" and "0 < n"
  shows "n \<le> int (range_len 0 n step) * step"
proof -
  have "int (range_len 0 n step) = (n + step - 1) div step"
    using assms ceil_div_pos [of step n] by (simp add: range_len_ceil)
  with ceil_div_bounds(2) [OF assms(1), of n] show ?thesis by simp
qed

lemma range_len_pos_iff:
  assumes "0 < step"
  shows "0 < range_len 0 n step \<longleftrightarrow> 0 < n"
  using assms by (auto simp: range_len_def pos_imp_zdiv_nonneg_iff intro: add_nonneg_pos)

section \<open>Indexing\<close>

text \<open>
  \<open>xs[i]\<close>: a negative index counts from the end; an index outside the list
  raises \<open>IndexError\<close>.
\<close>

definition py_index :: "'a list \<Rightarrow> int \<Rightarrow> 'a result" where
  "py_index xs i =
     (if - int (length xs) \<le> i \<and> i < int (length xs)
      then Inr (xs ! nat (if i < 0 then i + int (length xs) else i))
      else Inl IndexError)"

lemma py_index_nat [simp]:
  "py_index xs (int k) = (if k < length xs then Inr (xs ! k) else Inl IndexError)"
  by (simp add: py_index_def)

lemma py_index_in_range:
  "0 \<le> i \<Longrightarrow> i < int (length xs) \<Longrightarrow> py_index xs i = Inr (xs ! nat i)"
  by (simp add: py_index_def)

lemma py_index_too_big: "int (length xs) \<le> i \<Longrightarrow> py_index xs i = Inl IndexError"
  by (simp add: py_index_def)

lemma py_index_in_set: "py_index xs i = Inr x \<Longrightarrow> x \<in> set xs"
  by (auto simp: py_index_def split: if_splits)

section \<open>Decimal rendering: str and the format 03d\<close>

definition digit_char :: "nat \<Rightarrow> char" where
  "digit_char d = ''0123456789'' ! d"

definition is_digit :: "char \<Rightarrow> bool" where
  "is_digit c \<longleftrightarrow> c \<in> set ''0123456789''"

definition digit_val :: "char \<Rightarrow> nat" where
  "digit_val c = length (takeWhile (\<lambda>d. d \<noteq> c) ''0123456789'')"

fun str_nat :: "nat \<Rightarrow> string" where
  "str_nat n = (if n < 10 then [digit_char n] else str_nat (n div 10) @ [digit_char (n mod 10)])"

declare str_nat.simps [simp del]

definition str_int :: "int \<Rightarrow> string" where
  "str_int i = (if i < 0 then CHR ''-'' # str_nat (nat (- i)) else str_nat (nat i))"

text \<open>
  \<open>format(i, '03d')\<close>: the sign first, then zeros up to a total width of 3,
  then the digits; a number of more than three characters is not cut.
\<close>

definition format_03d :: "int \<Rightarrow> string" where
  "format_03d i =
     (let ds = str_nat (nat \<bar>i\<bar>);
          sign = (if i < 0 then ''-'' else '''')
      in sign @ replicate (3 - length sign - length ds) CHR ''0'' @ ds)"

definition read_nat :: "string \<Rightarrow> nat" where
  "read_nat s = foldl (\<lambda>acc c. 10 * acc + digit_val c) 0 s"

lemma digit_char_cases:
  "(d::nat) < 10 \<Longrightarrow> d = 0 \<or> d = 1 \<or> d = 2 \<or> d = 3 \<or> d = 4 \<or> d = 5 \<or> d = 6 \<or> d = 7 \<or> d = 8 \<or> d = 9"
  by arith

lemma is_digit_digit_char [simp]: "d < 10 \<Longrightarrow> is_digit (digit_char d)"
  by (drule digit_char_cases) (auto simp: is_digit_def digit_char_def)

lemma digit_val_digit_char [simp]: "d < 10 \<Longrightarrow> digit_val (digit_char d) = d"
  by (drule digit_char_cases) (auto simp: digit_val_def digit_char_def)

lemma is_digit_0 [simp]: "is_digit CHR ''0''"
  by (simp add: is_digit_def)

lemma digit_val_0 [simp]: "digit_val CHR ''0'' = 0"
  by (simp add: digit_val_def)

lemma not_digit_simps [simp]:
  "\<not> is_digit CHR ''.''" "\<not> is_digit CHR ''_''" "\<not> is_digit CHR ''-''" "\<not> is_digit CHR ''/''"
  by (simp_all add: is_digit_def)

lemma str_nat_small: "n < 10 \<Longrightarrow> str_nat n = [digit_char n]"
  by (subst str_nat.simps) simp

lemma str_nat_digits: "\<forall>c \<in> set (str_nat n). is_digit c"
proof (induction n rule: str_nat.induct)
  case (1 n)
  then show ?case by (subst str_nat.simps) auto
qed

lemma str_nat_nonempty [simp]: "str_nat n \<noteq> []"
  by (subst str_nat.simps) simp

lemma read_nat_snoc [simp]: "read_nat (s @ [c]) = 10 * read_nat s + digit_val c"
  by (simp add: read_nat_def)

lemma read_nat_str_nat [simp]: "read_nat (str_nat n) = n"
proof (induction n rule: str_nat.induct)
  case (1 n)
  show ?case
  proof (cases "n < 10")
    case True
    then show ?thesis by (subst str_nat.simps) (simp add: read_nat_def)
  next
    case False
    with "1.IH" show ?thesis by (subst str_nat.simps) simp
  qed
qed

lemma str_nat_inj: "str_nat m = str_nat n \<longleftrightarrow> m = n"
  by (metis read_nat_str_nat)

lemma read_nat_zeros [simp]: "read_nat (replicate k CHR ''0'' @ s) = read_nat s"
proof -
  have "foldl (\<lambda>acc c. 10 * acc + digit_val c) 0 (replicate k CHR ''0'') = 0"
    by (induction k) simp_all
  then show ?thesis by (simp add: read_nat_def)
qed

lemma format_03d_nat:
  "format_03d (int n) = replicate (3 - length (str_nat n)) CHR ''0'' @ str_nat n"
  by (simp add: format_03d_def Let_def)

lemma read_nat_format_03d [simp]: "read_nat (format_03d (int n)) = n"
  by (simp add: format_03d_nat)

lemma format_03d_inj: "format_03d (int m) = format_03d (int n) \<longleftrightarrow> m = n"
  by (metis read_nat_format_03d)

lemma format_03d_digits: "\<forall>c \<in> set (format_03d (int n)). is_digit c"
  using str_nat_digits [of n] by (auto simp: format_03d_nat)

lemma format_03d_width: "3 \<le> length (format_03d (int n))"
  by (simp add: format_03d_nat)

lemma str_int_nat [simp]: "str_int (int n) = str_nat n"
  by (simp add: str_int_def)

lemma str_int_inj: "str_int i = str_int j \<longleftrightarrow> i = j"
proof
  assume eq: "str_int i = str_int j"
  have nd: "\<And>n. hd (str_nat n) \<noteq> CHR ''-''"
    using str_nat_digits str_nat_nonempty
    by (metis hd_in_set not_digit_simps(3))
  show "i = j"
  proof (cases "i < 0"; cases "j < 0")
    assume "i < 0" "j < 0"
    with eq have "nat (- i) = nat (- j)" by (simp add: str_int_def str_nat_inj)
    with \<open>i < 0\<close> \<open>j < 0\<close> show ?thesis by simp
  next
    assume "i < 0" "\<not> j < 0"
    with eq have "str_nat (nat j) = CHR ''-'' # str_nat (nat (- i))"
      by (simp add: str_int_def)
    then have "hd (str_nat (nat j)) = CHR ''-''" by simp
    with nd show ?thesis by blast
  next
    assume "\<not> i < 0" "j < 0"
    with eq have "str_nat (nat i) = CHR ''-'' # str_nat (nat (- j))"
      by (simp add: str_int_def)
    then have "hd (str_nat (nat i)) = CHR ''-''" by simp
    with nd show ?thesis by blast
  next
    assume "\<not> i < 0" "\<not> j < 0"
    with eq have "nat i = nat j" by (simp add: str_int_def str_nat_inj)
    with \<open>\<not> i < 0\<close> \<open>\<not> j < 0\<close> show ?thesis by simp
  qed
qed simp

text \<open>
  A run of digits followed by a character that is no digit can be cut off
  again: this is how a generated file name is read back.
\<close>

lemma takeWhile_digits:
  assumes "\<forall>c \<in> set ds. is_digit c" and "rest = [] \<or> \<not> is_digit (hd rest)"
  shows "takeWhile is_digit (ds @ rest) = ds"
proof -
  have "takeWhile is_digit rest = []"
    using assms(2) by (cases rest) auto
  with assms(1) show ?thesis by (simp add: takeWhile_append2)
qed

section \<open>Float division: file sizes in megabytes\<close>

text \<open>
  \<open>size_bytes / (1024 * 1024)\<close> divides two integers and gives a float: the
  double precision number nearest to the quotient, the one with the even
  mantissa when two are equally near, and \<open>OverflowError\<close> when that number
  is \<open>2 ^ 1024\<close> or more. A float is modelled by the rational number it
  stands for. The divisor is \<open>2 ^ 20\<close>, so the quotient is rounded by
  rounding the dividend to 53 significant bits: \<open>round53 n\<close> rounds \<open>n\<close> to
  a multiple of the unit \<open>2 ^ (floorlog 2 n - 53)\<close>, where \<open>floorlog 2 n\<close> is
  the number of bits of \<open>n\<close> (\<open>int.bit_length\<close>). No size is small enough
  for a subnormal quotient.
\<close>

text \<open>
  What the division \<open>a / b\<close> of two integers raises: \<open>ZeroDivisionError\<close> for
  the divisor 0, and \<open>OverflowError\<close> when the quotient is not below the
  middle between the largest double, \<open>2 ^ 1024 - 2 ^ 971\<close>, and \<open>2 ^ 1024\<close>.
\<close>

definition truediv_error :: "int \<Rightarrow> int \<Rightarrow> py_error option" where
  "truediv_error a b =
     (if b = 0 then Some ZeroDivisionError
      else if (2 ^ 1024 - 2 ^ 970) * \<bar>b\<bar> \<le> \<bar>a\<bar> then Some OverflowError
      else None)"

definition round_half_even :: "nat \<Rightarrow> nat \<Rightarrow> nat" where
  "round_half_even d n =
     (let q = n div d; r = n mod d
      in (if d < 2 * r \<or> (2 * r = d \<and> odd q) then q + 1 else q) * d)"

definition round53 :: "nat \<Rightarrow> nat" where
  "round53 n = round_half_even (2 ^ (floorlog 2 n - 53)) n"

definition megabytes :: "nat \<Rightarrow> rat result" where
  "megabytes size_bytes =
     (case truediv_error (int size_bytes) (1024 * 1024) of
        Some e \<Rightarrow> Inl e
      | None \<Rightarrow> Inr (of_nat (round53 size_bytes) / (1024 * 1024)))"

text \<open>
  The reference notion: the natural numbers that are the numerator of a
  double over a power of two, a mantissa of at most 53 bits times a power of
  two.
\<close>

definition representable :: "nat \<Rightarrow> bool" where
  "representable v \<longleftrightarrow> (\<exists>m e. m < 2 ^ 53 \<and> v = m * 2 ^ e)"

subsection \<open>Exceptions of the division\<close>

text \<open>A quotient of at most 1 is in range.\<close>

lemma truediv_error_fraction: "0 < b \<Longrightarrow> \<bar>a\<bar> \<le> b \<Longrightarrow> truediv_error a b = None"
  by (simp add: truediv_error_def)

subsection \<open>Rounding to a multiple\<close>

lemma round_half_even_cases:
  obtains (down) "round_half_even d n = n div d * d" and "2 * (n mod d) \<le> d"
  | (up) "round_half_even d n = n div d * d + d" and "d \<le> 2 * (n mod d)"
proof (cases "d < 2 * (n mod d) \<or> (2 * (n mod d) = d \<and> odd (n div d))")
  case True
  then have "round_half_even d n = n div d * d + d" "d \<le> 2 * (n mod d)"
    by (auto simp: round_half_even_def Let_def)
  then show ?thesis by (rule up)
next
  case False
  then have "round_half_even d n = n div d * d" "2 * (n mod d) \<le> d"
    by (auto simp: round_half_even_def Let_def)
  then show ?thesis by (rule down)
qed

lemma round_half_even_one [simp]: "round_half_even (Suc 0) n = n"
  by (simp add: round_half_even_def)

lemma round_half_even_dvd: "d dvd round_half_even d n"
  by (simp add: round_half_even_def Let_def)

lemma int_div_mod: "int n = int (n div d) * int d + int (n mod d)"
  by (simp flip: of_nat_add of_nat_mult)

lemma round_half_even_error:
  "0 < d \<Longrightarrow> 2 * \<bar>int (round_half_even d n) - int n\<bar> \<le> int d"
  using int_div_mod [of n d] mod_less_divisor [of d n]
  by (cases rule: round_half_even_cases [of d n]) simp_all

lemma round_half_even_rem:
  "0 < d \<Longrightarrow> \<bar>int (round_half_even d n) - int n\<bar> \<le> int (n mod d)"
  using int_div_mod [of n d] mod_less_divisor [of d n]
  by (cases rule: round_half_even_cases [of d n]) simp_all

text \<open>No multiple of \<open>d\<close> is nearer to \<open>n\<close>.\<close>

lemma round_half_even_nearest:
  assumes "0 < d" and "d dvd v"
  shows "\<bar>int (round_half_even d n) - int n\<bar> \<le> \<bar>int v - int n\<bar>"
proof -
  from assms(2) obtain c where v: "v = c * d" by (auto simp: dvd_def mult.commute)
  note n = int_div_mod [of n d]
  have r: "n mod d < d" using assms(1) by simp
  consider "c \<le> n div d" | "n div d + 1 \<le> c" by linarith
  then show ?thesis
  proof cases
    case 1
    then have "int c * int d \<le> int (n div d) * int d" by (simp add: mult_right_mono)
    then have "int (n mod d) \<le> \<bar>int v - int n\<bar>" using n unfolding v by simp
    with round_half_even_rem [OF assms(1), of n] show ?thesis by linarith
  next
    case 2
    then have "(n div d + 1) * d \<le> c * d" by (rule mult_le_mono1)
    then have "int (n div d) * int d + int d \<le> int c * int d"
      by (simp flip: of_nat_add of_nat_mult)
    then have *: "int d - int (n mod d) \<le> \<bar>int v - int n\<bar>" using n unfolding v
      by simp
    show ?thesis
    proof (cases rule: round_half_even_cases [of d n])
      case down
      with * n r show ?thesis by simp
    next
      case up
      with * n r show ?thesis by simp
    qed
  qed
qed

subsection \<open>Rounding to 53 bits\<close>

lemma round53_small: "n < 2 ^ 53 \<Longrightarrow> round53 n = n"
  using floorlog_le_iff [of 2 n 53] by (simp add: round53_def)

text \<open>From \<open>2 ^ 53\<close> on, the quotient by the unit has exactly 53 bits.\<close>

lemma mantissa_bounds:
  assumes "2 ^ 53 \<le> n" and "d = 2 ^ (floorlog 2 n - 53)"
  shows "2 ^ 52 \<le> n div d" and "n div d < 2 ^ 53"
proof -
  define k where "k = floorlog 2 n - 53"
  have n0: "0 < n" using assms(1) by (simp add: Suc_le_eq [symmetric] less_le_trans [of 0 "2 ^ 53"])
  from floorlog_bounds [where b = 2 and x = n] n0
  have b: "2 ^ (floorlog 2 n - 1) \<le> n" "n < 2 ^ floorlog 2 n"
    by simp_all
  have "53 < floorlog 2 n"
    using floorlog_ge_SucI [where b = 2 and w = 53 and x = n] assms(1) by simp
  then have f: "floorlog 2 n = k + 53" by (simp add: k_def)
  have d: "d = 2 ^ k" by (simp add: assms(2) k_def)
  have "2 ^ (52 + k) \<le> n" using b(1) by (simp add: f)
  then have "2 ^ 52 * 2 ^ k \<le> n" by (simp only: power_add)
  then show "2 ^ 52 \<le> n div d"
    unfolding d by (simp only: less_eq_div_iff_mult_less_eq zero_less_power zero_less_numeral)
  have "n < 2 ^ (53 + k)" using b(2) by (simp add: f add.commute)
  then have "n < 2 ^ 53 * 2 ^ k" by (simp only: power_add)
  then show "n div d < 2 ^ 53"
    unfolding d by (simp only: div_less_iff_less_mult zero_less_power zero_less_numeral)
qed

lemma two_power_53: "(2::nat) ^ 53 * 2 ^ e = 2 ^ 52 * 2 ^ Suc e"
  by simp

lemma round53_cases:
  obtains (exact) "n < 2 ^ 53" and "round53 n = n"
  | (rounded) k where "2 ^ 53 \<le> n" and "round53 n = round_half_even (2 ^ k) n"
      and "2 ^ 52 \<le> n div 2 ^ k" and "n div 2 ^ k < 2 ^ 53"
proof (cases "n < 2 ^ 53")
  case True
  then show ?thesis by (auto intro: exact simp: round53_small)
next
  case False
  then have "2 ^ 53 \<le> n" by simp
  moreover have "round53 n = round_half_even (2 ^ (floorlog 2 n - 53)) n"
    by (simp add: round53_def)
  moreover note mantissa_bounds [OF \<open>2 ^ 53 \<le> n\<close> refl]
  ultimately show ?thesis by (rule rounded)
qed

text \<open>The relative error is at most \<open>2 ^ -53\<close>.\<close>

lemma round53_error: "\<bar>int (round53 n) - int n\<bar> * 2 ^ 53 \<le> int n"
proof (cases rule: round53_cases [of n])
  case exact
  then show ?thesis by simp
next
  case (rounded k)
  have "2 * \<bar>int (round53 n) - int n\<bar> \<le> int (2 ^ k)"
    unfolding rounded(2) by (rule round_half_even_error) simp
  then have "2 * \<bar>int (round53 n) - int n\<bar> * 2 ^ 52 \<le> int (2 ^ k) * 2 ^ 52"
    by (rule mult_right_mono) simp
  also have "\<dots> = int (2 ^ 52 * 2 ^ k)" by simp
  also have "\<dots> \<le> int (n div 2 ^ k * 2 ^ k)"
    using rounded(3) by (simp only: of_nat_le_iff mult_le_mono1)
  also have "\<dots> \<le> int n" by (simp only: of_nat_le_iff div_times_less_eq_dividend)
  finally show ?thesis by (simp only: mult.assoc mult.commute [of 2] power_Suc [symmetric, where n = 52]) simp
qed

lemma round53_representable: "representable (round53 n)"
proof (cases rule: round53_cases [of n])
  case exact
  then show ?thesis unfolding representable_def by (intro exI [of _ n] exI [of _ 0]) simp
next
  case (rounded k)
  show ?thesis
  proof (cases rule: round_half_even_cases [of "2 ^ k" n])
    case down
    with rounded(4) show ?thesis unfolding representable_def rounded(2)
      by (intro exI [of _ "n div 2 ^ k"] exI [of _ k] conjI)
  next
    case up
    show ?thesis
    proof (cases "n div 2 ^ k + 1 < 2 ^ 53")
      case True
      moreover have "round_half_even (2 ^ k) n = (n div 2 ^ k + 1) * 2 ^ k"
        unfolding up(1) by (simp only: add_mult_distrib mult_1)
      ultimately show ?thesis unfolding representable_def rounded(2)
        by (intro exI [of _ "n div 2 ^ k + 1"] exI [of _ k] conjI)
    next
      case False
      with rounded(4) have "n div 2 ^ k + 1 = 2 ^ 53" by linarith
      then have "round53 n = 2 ^ 53 * 2 ^ k"
        unfolding rounded(2) up(1) by (metis add_mult_distrib mult_1)
      also have "\<dots> = 2 ^ 52 * 2 ^ Suc k" by (rule two_power_53)
      finally have "round53 n = 2 ^ 52 * 2 ^ Suc k" .
      moreover have "(2::nat) ^ 52 < 2 ^ 53" by simp
      ultimately show ?thesis unfolding representable_def by blast
    qed
  qed
qed

text \<open>
  \<open>round53\<close> is rounding to nearest: no representable number is nearer to
  \<open>n\<close> than \<open>round53 n\<close>.
\<close>

lemma round53_closest:
  assumes "representable v"
  shows "\<bar>int (round53 n) - int n\<bar> \<le> \<bar>int v - int n\<bar>"
proof (cases rule: round53_cases [of n])
  case exact
  then show ?thesis by simp
next
  case (rounded k)
  from assms obtain m e where m: "m < 2 ^ 53" and v: "v = m * 2 ^ e"
    by (auto simp: representable_def)
  show ?thesis
  proof (cases "k \<le> e")
    case True
    then have "(2::nat) ^ k dvd v" by (simp add: v le_imp_power_dvd)
    then show ?thesis unfolding rounded(2) by (intro round_half_even_nearest) simp_all
  next
    case False
    then have "Suc e \<le> k" by simp
    have "v \<le> 2 ^ 53 * 2 ^ e" unfolding v using m by (intro mult_le_mono1) simp
    also have "\<dots> = 2 ^ 52 * 2 ^ Suc e" by (rule two_power_53)
    also have "\<dots> \<le> 2 ^ 52 * 2 ^ k"
      using \<open>Suc e \<le> k\<close> by (intro mult_le_mono2 power_increasing) simp_all
    also have "\<dots> \<le> n div 2 ^ k * 2 ^ k" using rounded(3) by (rule mult_le_mono1)
    finally have "int v \<le> int (n div 2 ^ k) * int (2 ^ k)"
      by (simp only: of_nat_le_iff flip: of_nat_mult)
    with int_div_mod [of n "2 ^ k"] have "int (n mod 2 ^ k) \<le> \<bar>int v - int n\<bar>" by linarith
    moreover have "\<bar>int (round53 n) - int n\<bar> \<le> int (n mod 2 ^ k)"
      unfolding rounded(2) by (rule round_half_even_rem) simp
    ultimately show ?thesis by (rule order_trans [rotated])
  qed
qed

text \<open>The first size that is not kept: \<open>2 ^ 53 + 1\<close> bytes lose the last one.\<close>

lemma round53_example: "round53 (2 ^ 53 + 1) = 2 ^ 53"
proof -
  have "floorlog 2 (2 ^ 53 + 1) = 54"
    using floorlog_le_iff [of 2 "2 ^ 53 + 1" 54] floorlog_ge_SucI [of 2 53 "2 ^ 53 + 1"] by simp
  then show ?thesis by (simp add: round53_def round_half_even_def)
qed

subsection \<open>The quotient\<close>

lemma megabytes_returns:
  assumes "n < 2 ^ 1043"
  shows "megabytes n = Inr (of_nat (round53 n) / 1048576)"
proof -
  have "int n < 2 ^ 1043" using assms by (simp only: flip: of_nat_less_iff [where 'a = int]) simp
  then have "truediv_error (int n) (1024 * 1024) = None" by (simp add: truediv_error_def)
  then show ?thesis by (simp add: megabytes_def)
qed

lemma megabytes_small: "n < 2 ^ 53 \<Longrightarrow> megabytes n = Inr (of_nat n / 1048576)"
  using megabytes_returns [of n] less_trans [of n "2 ^ 53" "2 ^ 1043"]
  by (simp add: round53_small)

lemma megabytes_error:
  assumes "megabytes n = Inr x"
  shows "\<bar>x * 1048576 - of_nat n\<bar> * 2 ^ 53 \<le> of_nat n"
proof -
  from assms have "x * 1048576 = of_int (int (round53 n))"
    by (auto simp: megabytes_def split: option.splits)
  then have "\<bar>x * 1048576 - of_nat n\<bar> * 2 ^ 53 = of_int (\<bar>int (round53 n) - int n\<bar> * 2 ^ 53)"
    by simp
  also have "\<dots> \<le> of_int (int n)" using round53_error [of n] by (simp only: of_int_le_iff)
  finally show ?thesis by simp
qed

text \<open>
  The value is a finite double whenever the division does not raise: the
  largest double is representable and nearer than anything from \<open>2 ^ 1024\<close>
  on.
\<close>

lemma largest_double:
  "representable ((2 ^ 53 - 1) * 2 ^ 991)"
  "int ((2 ^ 53 - 1) * 2 ^ 991) = 2 ^ 1044 - 2 * 2 ^ 990"
proof -
  show "representable ((2 ^ 53 - 1) * 2 ^ 991)"
    unfolding representable_def by (intro exI [of _ "2 ^ 53 - 1"] exI [of _ 991] conjI refl) simp
  have "(2::int) ^ 991 = 2 * 2 ^ 990" by (simp flip: power_Suc)
  then show "int ((2 ^ 53 - 1) * 2 ^ 991) = 2 ^ 1044 - 2 * 2 ^ 990"
    by (simp add: of_nat_diff algebra_simps flip: power_add)
qed

lemma nearer_below:
  fixes r n A h :: int
  assumes "\<bar>r - n\<bar> \<le> \<bar>A - 2 * h - n\<bar>" and "n < A - h" and "0 < h"
  shows "r < A"
  using assms by linarith

lemma megabytes_finite:
  assumes "megabytes n = Inr x"
  shows "x < 2 ^ 1024"
proof -
  have "(2 ^ 1024 - 2 ^ 970) * 2 ^ 20 = (2::int) ^ 1044 - 2 ^ 990"
    by (simp add: algebra_simps flip: power_add)
  with assms have n: "int n < 2 ^ 1044 - 2 ^ 990" and x: "x * 2 ^ 20 = of_nat (round53 n)"
    by (auto simp: megabytes_def truediv_error_def split: option.splits if_splits)
  from round53_closest [OF largest_double(1), of n]
  have "\<bar>int (round53 n) - int n\<bar> \<le> \<bar>2 ^ 1044 - 2 * 2 ^ 990 - int n\<bar>"
    by (simp only: largest_double(2))
  from this n have "int (round53 n) < 2 ^ 1044" by (rule nearer_below) simp
  then have "round53 n < 2 ^ 1044" by (simp only: flip: of_nat_less_iff [where 'a = int]) simp
  then have "(of_nat (round53 n) :: rat) < of_nat (2 ^ 1044)" by (simp only: of_nat_less_iff)
  also have "(of_nat (2 ^ 1044) :: rat) = 2 ^ 1024 * 2 ^ 20" by (simp flip: power_add)
  finally show ?thesis
    unfolding x [symmetric]
    by (simp only: mult_less_cancel_right_pos zero_less_power zero_less_numeral)
qed

lemma megabytes_overflow: "megabytes (2 ^ 1044) = Inl OverflowError"
  by (simp add: megabytes_def truediv_error_def)

section \<open>Strings: strip and lower\<close>

text \<open>
  Characters are code points below 256. \<open>str.strip()\<close> removes the white
  space of that range from both ends; \<open>str.lower()\<close> maps the capital letters
  of that range to their small letters.
\<close>

definition is_space :: "char \<Rightarrow> bool" where
  "is_space c \<longleftrightarrow> (of_char c :: nat) \<in> set [9, 10, 11, 12, 13, 28, 29, 30, 31, 32, 133, 160]"

definition py_strip :: "string \<Rightarrow> string" where
  "py_strip s = rev (dropWhile is_space (rev (dropWhile is_space s)))"

definition lower_char :: "char \<Rightarrow> char" where
  "lower_char c =
     (let n = of_char c :: nat
      in if (65 \<le> n \<and> n \<le> 90) \<or> (192 \<le> n \<and> n \<le> 222 \<and> n \<noteq> 215) then char_of (n + 32) else c)"

definition py_lower :: "string \<Rightarrow> string" where
  "py_lower s = map lower_char s"

text \<open>
  \<open>s.split()\<close> cuts at runs of white space and returns no empty word;
  \<open>s.startswith(p)\<close>; \<open>p in s\<close> for strings.
\<close>

function words :: "string \<Rightarrow> string list" where
  "words s =
     (let t = dropWhile is_space s
      in if t = [] then []
         else takeWhile (\<lambda>c. \<not> is_space c) t # words (dropWhile (\<lambda>c. \<not> is_space c) t))"
  by pat_completeness auto

termination words
proof (relation "measure length")
  show "wf (measure length)" by simp
next
  fix s t :: string
  assume t: "t = dropWhile is_space s" and ne: "t \<noteq> []"
  then have "\<not> is_space (hd t)" by (metis hd_dropWhile)
  with ne have "length (dropWhile (\<lambda>c. \<not> is_space c) t) < length t"
    by (cases t) (simp_all add: le_imp_less_Suc length_dropWhile_le)
  also have "length t \<le> length s" using t by (simp add: length_dropWhile_le)
  finally show "(dropWhile (\<lambda>c. \<not> is_space c) t, s) \<in> measure length" by simp
qed

declare words.simps [simp del]

definition startswith :: "string \<Rightarrow> string \<Rightarrow> bool" where
  "startswith s p \<longleftrightarrow> take (length p) s = p"

fun contains :: "string \<Rightarrow> string \<Rightarrow> bool" where
  "contains [] p = (p = [])"
| "contains (x # xs) p = (startswith (x # xs) p \<or> contains xs p)"

lemmas str_defs [py_defs] = is_space_def py_strip_def lower_char_def py_lower_def

lemma py_strip_no_space:
  assumes "s \<noteq> []" and "\<not> is_space (hd s)" and "\<not> is_space (last s)"
  shows "py_strip s = s"
proof -
  from assms(1,2) have "dropWhile is_space s = s" by (cases s) simp_all
  moreover from assms(1,3) have "dropWhile is_space (rev s) = rev s"
    by (cases s rule: rev_cases) simp_all
  ultimately show ?thesis by (simp add: py_strip_def)
qed

text \<open>
  The words of a string: a word followed by white space is split off, and no
  word is empty or contains white space.
\<close>

lemma words_Nil [simp]: "words [] = []"
  by (simp add: words.simps)

lemma words_space [simp]: "is_space c \<Longrightarrow> words (c # s) = words s"
  by (subst (1 2) words.simps) simp

lemma words_word:
  assumes "w \<noteq> []" and "\<forall>c \<in> set w. \<not> is_space c" and "is_space c0"
  shows "words (w @ c0 # r) = w # words r"
proof -
  have d: "dropWhile is_space (w @ c0 # r) = w @ c0 # r"
    using assms(1,2) by (cases w) simp_all
  have t: "takeWhile (\<lambda>c. \<not> is_space c) (w @ c0 # r) = w"
    using assms(2,3) by (simp add: takeWhile_append2 [of w "\<lambda>c. \<not> is_space c"] takeWhile_tail)
  have e: "dropWhile (\<lambda>c. \<not> is_space c) (w @ c0 # r) = c0 # r"
    using assms(2,3) by (simp add: dropWhile_append2)
  show ?thesis
    by (subst words.simps) (simp add: d t e Let_def assms(3))
qed

lemma words_last:
  assumes "w \<noteq> []" and "\<forall>c \<in> set w. \<not> is_space c"
  shows "words w = [w]"
proof -
  have d: "dropWhile is_space w = w" using assms by (cases w) simp_all
  have t: "takeWhile (\<lambda>c. \<not> is_space c) w = w" using assms(2) by simp
  have e: "dropWhile (\<lambda>c. \<not> is_space c) w = []" using assms(2) by simp
  show ?thesis using assms(1) by (subst words.simps) (simp add: d t e Let_def)
qed

lemma words_no_space: "u \<in> set (words s) \<Longrightarrow> u \<noteq> [] \<and> (\<forall>c \<in> set u. \<not> is_space c)"
proof (induction s arbitrary: u rule: words.induct)
  case (1 s)
  let ?t = "dropWhile is_space s"
  show ?case
  proof (cases "?t = []")
    case True
    with "1.prems" show ?thesis by (subst (asm) words.simps) simp
  next
    case False
    then have hd: "\<not> is_space (hd ?t)" by (metis hd_dropWhile)
    have "words s = takeWhile (\<lambda>c. \<not> is_space c) ?t # words (dropWhile (\<lambda>c. \<not> is_space c) ?t)"
      using False by (subst words.simps) (simp add: Let_def)
    with "1.prems"
    consider "u = takeWhile (\<lambda>c. \<not> is_space c) ?t"
      | "u \<in> set (words (dropWhile (\<lambda>c. \<not> is_space c) ?t))"
      by auto
    then show ?thesis
    proof cases
      case 1
      with False hd show ?thesis
        by (cases ?t) (auto dest: set_takeWhileD)
    next
      case 2
      with "1.IH" [OF refl False] show ?thesis by blast
    qed
  qed
qed

text \<open>Rendered numbers contain no path separator.\<close>

lemma format_03d_no_slash: "CHR ''/'' \<notin> set (format_03d (int n))"
  using format_03d_digits [of n] by auto

lemma str_nat_no_slash: "CHR ''/'' \<notin> set (str_nat n)"
  using str_nat_digits [of n] by auto

lemma str_int_no_slash: "CHR ''/'' \<notin> set (str_int c)"
  by (simp add: str_int_def str_nat_no_slash)

lemma str_int_nonempty [simp]: "str_int c \<noteq> []"
  by (simp add: str_int_def)

end
