(* ===== verification/Py_Pathlib.thy ===== *)
theory Py_Pathlib
  imports Py_Builtins
begin

text \<open>
  The part of \<open>pathlib\<close> (POSIX flavour) that the tool uses: parsing a string
  into a path, \<open>parent\<close>, \<open>name\<close>, \<open>stem\<close>, \<open>suffix\<close>, the operator \<open>/\<close> and
  \<open>str\<close>. A path is its list of components and whether it starts at the
  root. The operations are lexical, as in \<open>pathlib\<close>: nothing here looks at a
  file system. A leading double slash, which POSIX leaves to the
  implementation, is read as a single one.
\<close>

section \<open>Splitting and joining strings\<close>

fun split_on :: "char \<Rightarrow> string \<Rightarrow> string list" where
  "split_on c [] = [[]]"
| "split_on c (x # xs) =
     (if x = c then [] # split_on c xs
      else (case split_on c xs of [] \<Rightarrow> [[x]] | w # ws \<Rightarrow> (x # w) # ws))"

fun join_with :: "char \<Rightarrow> string list \<Rightarrow> string" where
  "join_with c [] = []"
| "join_with c [w] = w"
| "join_with c (w # v # ws) = w @ c # join_with c (v # ws)"

lemma join_with_Cons_hd: "w \<noteq> [] \<Longrightarrow> hd (join_with c (w # ws)) = hd w"
  by (cases ws) simp_all

lemma join_with_Cons_ne: "w \<noteq> [] \<Longrightarrow> join_with c (w # ws) \<noteq> []"
  by (cases ws) simp_all

lemma split_on_nonempty [simp]: "split_on c s \<noteq> []"
  by (induction s) (auto split: list.splits)

lemma split_on_no_sep: "c \<notin> set s \<Longrightarrow> split_on c s = [s]"
  by (induction s) auto

lemma split_on_append_sep:
  "c \<notin> set w \<Longrightarrow> split_on c (w @ c # s) = w # split_on c s"
  by (induction w) (auto split: list.splits)

lemma split_on_join:
  "ws \<noteq> [] \<Longrightarrow> \<forall>w \<in> set ws. c \<notin> set w \<Longrightarrow> split_on c (join_with c ws) = ws"
proof (induction c ws rule: join_with.induct)
  case (1 c)
  then show ?case by simp
next
  case (2 c w)
  then show ?case by (simp add: split_on_no_sep)
next
  case (3 c w v ws)
  then show ?case by (simp add: split_on_append_sep)
qed

lemma split_on_terminated:
  "\<forall>w \<in> set ws. c \<notin> set w \<Longrightarrow> split_on c (concat (map (\<lambda>w. w @ [c]) ws)) = ws @ [[]]"
  by (induction ws) (simp_all add: split_on_append_sep)

lemma split_on_parts_no_sep: "w \<in> set (split_on c s) \<Longrightarrow> c \<notin> set w"
proof (induction s arbitrary: w)
  case Nil
  then show ?case by simp
next
  case (Cons x xs)
  then show ?case
    by (cases "split_on c xs") (auto split: if_splits)
qed

section \<open>Paths\<close>

datatype path = PurePath (anchored: bool) (parts: "string list")

definition Path :: "string \<Rightarrow> path" where
  "Path s = PurePath (s \<noteq> [] \<and> hd s = CHR ''/'')
              (filter (\<lambda>w. w \<noteq> [] \<and> w \<noteq> ''.'') (split_on CHR ''/'' s))"

definition name :: "path \<Rightarrow> string" where
  "name p = (if parts p = [] then [] else last (parts p))"

definition parent :: "path \<Rightarrow> path" where
  "parent p = PurePath (anchored p) (butlast (parts p))"

definition joinpath :: "path \<Rightarrow> path \<Rightarrow> path" where
  "joinpath p q = (if anchored q then q else PurePath (anchored p) (parts p @ parts q))"

definition join_str :: "path \<Rightarrow> string \<Rightarrow> path" where
  "join_str p s = joinpath p (Path s)"

definition path_str :: "path \<Rightarrow> string" where
  "path_str p =
     (if anchored p then CHR ''/'' # join_with CHR ''/'' (parts p)
      else if parts p = [] then ''.''
      else join_with CHR ''/'' (parts p))"

text \<open>
  \<open>suffix\<close> and \<open>stem\<close> cut a name at its last dot, unless that dot is the
  first or the last character of the name.
\<close>

definition rfind :: "char \<Rightarrow> string \<Rightarrow> nat option" where
  "rfind c s =
     (let n = length (takeWhile (\<lambda>x. x \<noteq> c) (rev s))
      in if n = length s then None else Some (length s - 1 - n))"

definition suffix_of :: "string \<Rightarrow> string" where
  "suffix_of nm =
     (case rfind CHR ''.'' nm of
        None \<Rightarrow> []
      | Some i \<Rightarrow> if 0 < i \<and> i < length nm - 1 then drop i nm else [])"

definition stem_of :: "string \<Rightarrow> string" where
  "stem_of nm =
     (case rfind CHR ''.'' nm of
        None \<Rightarrow> nm
      | Some i \<Rightarrow> if 0 < i \<and> i < length nm - 1 then take i nm else nm)"

definition suffix :: "path \<Rightarrow> string" where
  "suffix p = suffix_of (name p)"

definition stem :: "path \<Rightarrow> string" where
  "stem p = stem_of (name p)"

lemmas path_defs [py_defs] =
  Path_def name_def parent_def joinpath_def join_str_def path_str_def
  rfind_def suffix_of_def stem_of_def suffix_def stem_def

subsection \<open>Well-formed paths\<close>

definition simple_name :: "string \<Rightarrow> bool" where
  "simple_name w \<longleftrightarrow> w \<noteq> [] \<and> w \<noteq> ''.'' \<and> CHR ''/'' \<notin> set w"

definition wf_path :: "path \<Rightarrow> bool" where
  "wf_path p \<longleftrightarrow> list_all simple_name (parts p)"

lemma wf_path_Path [simp]: "wf_path (Path s)"
  by (auto simp: wf_path_def Path_def list_all_iff simple_name_def
      dest: split_on_parts_no_sep)

lemma wf_path_parent [simp]: "wf_path p \<Longrightarrow> wf_path (parent p)"
  by (auto simp: wf_path_def parent_def list_all_iff dest: in_set_butlastD)

lemma wf_path_joinpath [simp]: "wf_path p \<Longrightarrow> wf_path q \<Longrightarrow> wf_path (joinpath p q)"
  by (auto simp: wf_path_def joinpath_def)

lemma wf_path_join_str [simp]: "wf_path p \<Longrightarrow> wf_path (join_str p s)"
  by (simp add: join_str_def)

lemma Path_simple: "simple_name w \<Longrightarrow> Path w = PurePath False [w]"
  by (cases w) (auto simp: Path_def simple_name_def split_on_no_sep)

lemma join_str_simple:
  "simple_name w \<Longrightarrow> join_str p w = PurePath (anchored p) (parts p @ [w])"
  by (simp add: join_str_def Path_simple joinpath_def)

lemma name_join_str [simp]: "simple_name w \<Longrightarrow> name (join_str p w) = w"
  by (simp add: join_str_simple name_def)

lemma parent_join_str [simp]: "simple_name w \<Longrightarrow> parent (join_str p w) = p"
  by (simp add: join_str_simple parent_def)

lemma join_str_inj:
  "simple_name v \<Longrightarrow> simple_name w \<Longrightarrow> join_str p v = join_str p w \<longleftrightarrow> v = w"
  by (simp add: join_str_simple)

lemma simple_name_stem_of_no_slash:
  "CHR ''/'' \<notin> set nm \<Longrightarrow> CHR ''/'' \<notin> set (stem_of nm)"
  by (auto simp: stem_of_def split: option.splits dest: in_set_takeD)

lemma suffix_of_no_slash: "CHR ''/'' \<notin> set nm \<Longrightarrow> CHR ''/'' \<notin> set (suffix_of nm)"
  by (auto simp: suffix_of_def split: option.splits dest: in_set_dropD)

lemma name_no_slash: "wf_path p \<Longrightarrow> CHR ''/'' \<notin> set (name p)"
  by (cases "parts p" rule: rev_cases) (auto simp: name_def wf_path_def simple_name_def)

lemma stem_no_slash: "wf_path p \<Longrightarrow> CHR ''/'' \<notin> set (stem p)"
  by (simp add: stem_def simple_name_stem_of_no_slash name_no_slash)

subsection \<open>Stem and suffix\<close>

lemma stem_suffix_name: "stem_of nm @ suffix_of nm = nm"
  by (simp add: stem_of_def suffix_of_def split: option.splits)

lemma rfind_append_ext:
  assumes "c \<notin> set e"
  shows "rfind c (s @ c # e) = Some (length s)"
proof -
  have "takeWhile (\<lambda>x. x \<noteq> c) (rev e @ c # rev s) = rev e"
    using assms by (simp add: takeWhile_append)
  then show ?thesis by (simp add: rfind_def)
qed

lemma suffix_of_ext:
  assumes "CHR ''.'' \<notin> set e" and "e \<noteq> []" and "s \<noteq> []"
  shows "suffix_of (s @ CHR ''.'' # e) = CHR ''.'' # e"
    and "stem_of (s @ CHR ''.'' # e) = s"
  using assms by (simp_all add: suffix_of_def stem_of_def rfind_append_ext)

subsection \<open>Printing a path and reading it back\<close>

lemma Path_path_str:
  assumes "wf_path p"
  shows "Path (path_str p) = p"
proof (cases p)
  case (PurePath a ws)
  have ns: "\<forall>w \<in> set ws. CHR ''/'' \<notin> set w"
    and ok: "filter (\<lambda>w. w \<noteq> [] \<and> w \<noteq> ''.'') ws = ws"
    using assms PurePath by (auto simp: wf_path_def list_all_iff simple_name_def)
  show ?thesis
  proof (cases ws)
    case Nil
    with PurePath show ?thesis by (simp add: path_str_def Path_def)
  next
    case (Cons w ws')
    with assms PurePath have "w \<noteq> []" and "CHR ''/'' \<notin> set w"
      by (simp_all add: wf_path_def simple_name_def)
    then have w: "w \<noteq> []" "hd w \<noteq> CHR ''/''"
      by (metis hd_in_set)+
    have sp: "split_on CHR ''/'' (join_with CHR ''/'' ws) = ws"
      using ns Cons by (simp add: split_on_join)
    have hd: "hd (join_with CHR ''/'' ws) \<noteq> CHR ''/''" "join_with CHR ''/'' ws \<noteq> []"
      using w Cons by (simp_all add: join_with_Cons_hd join_with_Cons_ne)
    show ?thesis
    proof (cases a)
      case True
      with PurePath sp ok show ?thesis by (simp add: path_str_def Path_def)
    next
      case False
      with PurePath sp ok hd Cons show ?thesis by (simp add: path_str_def Path_def)
    qed
  qed
qed

lemma path_str_inj:
  "wf_path p \<Longrightarrow> wf_path q \<Longrightarrow> path_str p = path_str q \<longleftrightarrow> p = q"
  by (metis Path_path_str)

end
