(* ===== verification/File_System.thy ===== *)
theory File_System
  imports Py_Pathlib "HOL-Library.Word"
begin

text \<open>
  The world the tool runs in, as far as the modelled code can observe it: a
  finite name space of directories and files, the documents stored in PDF
  files, and the paths at which the operating system refuses to create or
  modify an entry. The operations are the system calls behind the library
  functions the sources use (\<open>Path.exists\<close>, \<open>Path.is_file\<close>,
  \<open>open(path, 'wb')\<close>, \<open>Path.mkdir(parents=True, exist_ok=True)\<close>,
  \<open>Path.unlink\<close>, \<open>PdfReader(path)\<close>); each returns the exception it raises as
  a value. Symbolic links, the current directory of relative paths (the empty
  relative path always names an existing directory) and concurrent writers
  are outside the model.
\<close>

section \<open>Documents and nodes\<close>

type_synonym page = nat

record pdf_doc =
  pages :: "page list"
  encrypted :: bool
  needs_password :: bool
  metadata :: "(string \<times> string) list option"

datatype node = Dir | PdfFile pdf_doc | OtherFile

record world =
  fsys :: "(path, node) fmap"
  denied :: "path fset"

text \<open>
  A writer that received the pages \<open>ps\<close> produces an unencrypted document
  holding exactly these pages.
\<close>

definition written_pdf :: "page list \<Rightarrow> pdf_doc" where
  "written_pdf ps = \<lparr>pages = ps, encrypted = False, needs_password = False, metadata = None\<rparr>"

text \<open>
  Reading the page list of a document that was not decrypted raises; the
  library tries the empty password by itself, so only a document that needs a
  real password does so.
\<close>

definition reader_pages :: "pdf_doc \<Rightarrow> page list result" where
  "reader_pages d = (if needs_password d then Inl PdfReadError else Inr (pages d))"

text \<open>
  The document information of a document that was not decrypted cannot be
  read either.
\<close>

definition reader_metadata :: "pdf_doc \<Rightarrow> (string \<times> string) list option result" where
  "reader_metadata d = (if needs_password d then Inl PdfReadError else Inr (metadata d))"

section \<open>Looking at the name space\<close>

definition lookup_node :: "world \<Rightarrow> path \<Rightarrow> node option" where
  "lookup_node w p = (if parts p = [] then Some Dir else fmlookup (fsys w) p)"

definition path_exists :: "world \<Rightarrow> path \<Rightarrow> bool" where
  "path_exists w p \<longleftrightarrow> lookup_node w p \<noteq> None"

definition is_dir :: "world \<Rightarrow> path \<Rightarrow> bool" where
  "is_dir w p \<longleftrightarrow> lookup_node w p = Some Dir"

definition is_file :: "world \<Rightarrow> path \<Rightarrow> bool" where
  "is_file w p \<longleftrightarrow> (case lookup_node w p of None \<Rightarrow> False | Some Dir \<Rightarrow> False | Some _ \<Rightarrow> True)"

definition pdf_reader :: "world \<Rightarrow> path \<Rightarrow> pdf_doc result" where
  "pdf_reader w p =
     (case lookup_node w p of
        None \<Rightarrow> Inl FileNotFoundError
      | Some Dir \<Rightarrow> Inl IsADirectoryError
      | Some OtherFile \<Rightarrow> Inl PdfReadError
      | Some (PdfFile d) \<Rightarrow> Inr d)"

text \<open>
  \<open>Path.stat().st_size\<close>. The size of an entry is a field of 64 bits that
  the system fills in; Python reads it as an integer, which is never negative
  for a file. The number of bytes of an entry is a function of its path and
  of what it holds; the model leaves this function open and passes it to the
  two methods that ask for a size.
\<close>

type_synonym size_fn = "path \<Rightarrow> node \<Rightarrow> 64 word"

definition st_size :: "size_fn \<Rightarrow> world \<Rightarrow> path \<Rightarrow> nat result" where
  "st_size sz w p =
     (case lookup_node w p of
        None \<Rightarrow> Inl FileNotFoundError
      | Some nd \<Rightarrow> Inr (unat (sz p nd)))"

text \<open>A size function for the examples.\<close>

definition ex_sizes :: size_fn where
  "ex_sizes p nd =
     (case nd of Dir \<Rightarrow> 4096 | PdfFile d \<Rightarrow> 2048 * of_nat (length (pages d)) | OtherFile \<Rightarrow> 0)"

definition existing :: "world \<Rightarrow> path set" where
  "existing w = {p. path_exists w p}"

section \<open>Changing the name space\<close>

text \<open>
  \<open>open(p, 'wb')\<close> followed by writing a document and closing the file. The
  file is created or replaced only if its parent is a directory, it is not a
  directory itself and the system does not refuse.
\<close>

definition open_wb :: "world \<Rightarrow> path \<Rightarrow> pdf_doc \<Rightarrow> world result" where
  "open_wb w p d =
     (if is_dir w p then Inl IsADirectoryError
      else if \<not> path_exists w (parent p) then Inl FileNotFoundError
      else if \<not> is_dir w (parent p) then Inl NotADirectoryError
      else if p |\<in>| denied w then Inl PermissionError
      else Inr (w\<lparr>fsys := fmupd p (PdfFile d) (fsys w)\<rparr>))"

definition unlink :: "world \<Rightarrow> path \<Rightarrow> world result" where
  "unlink w p =
     (if \<not> path_exists w p then Inl FileNotFoundError
      else if is_dir w p then Inl IsADirectoryError
      else if p |\<in>| denied w then Inl PermissionError
      else Inr (w\<lparr>fsys := fmdrop p (fsys w)\<rparr>))"

text \<open>
  \<open>mkdir(parents=True, exist_ok=True)\<close> walks the ancestors of the path from
  the top and creates the missing ones. It stops with an exception at an
  ancestor that is a file or that the system refuses to create; the
  directories made before that stay.
\<close>

definition make_dir :: "world \<Rightarrow> path \<Rightarrow> world" where
  "make_dir w q = w\<lparr>fsys := fmupd q Dir (fsys w)\<rparr>"

definition ancestors_and_self :: "path \<Rightarrow> path list" where
  "ancestors_and_self p = map (\<lambda>k. PurePath (anchored p) (take k (parts p))) [1..<Suc (length (parts p))]"

fun mkdir_chain :: "path \<Rightarrow> path list \<Rightarrow> world \<Rightarrow> py_error option \<times> world" where
  "mkdir_chain p [] w = (None, w)"
| "mkdir_chain p (q # qs) w =
     (case lookup_node w q of
        Some Dir \<Rightarrow> mkdir_chain p qs w
      | Some _ \<Rightarrow> (Some (if q = p then FileExistsError else NotADirectoryError), w)
      | None \<Rightarrow>
          if q |\<in>| denied w then (Some PermissionError, w)
          else mkdir_chain p qs (make_dir w q))"

definition mkdir_parents :: "world \<Rightarrow> path \<Rightarrow> py_error option \<times> world" where
  "mkdir_parents w p = mkdir_chain p (ancestors_and_self p) w"

lemmas fs_defs [py_defs] =
  lookup_node_def path_exists_def is_dir_def is_file_def pdf_reader_def
  open_wb_def unlink_def make_dir_def mkdir_parents_def ancestors_and_self_def written_pdf_def
  reader_pages_def

section \<open>Facts about single operations\<close>

text \<open>A size of 64 bits is far below the overflow threshold of the division.\<close>

lemma megabytes_unat:
  fixes x :: "64 word"
  shows "megabytes (unat x) = Inr (of_nat (round53 (unat x)) / 1048576)"
proof (rule megabytes_returns)
  have "unat x < 2 ^ 64" using unsigned_less [of x] by simp
  also have "(2::nat) ^ 64 < 2 ^ 1043" by (rule power_strict_increasing) simp_all
  finally show "unat x < 2 ^ 1043" .
qed

lemma megabytes_st_size:
  "st_size sz w p = Inr n \<Longrightarrow> megabytes n = Inr (of_nat (round53 n) / 1048576)"
  by (auto simp: st_size_def megabytes_unat split: option.splits)

lemma is_dir_exists: "is_dir w p \<Longrightarrow> path_exists w p"
  by (simp add: is_dir_def path_exists_def)

lemma is_file_exists: "is_file w p \<Longrightarrow> path_exists w p"
  by (auto simp: is_file_def path_exists_def split: option.splits)

lemma is_file_not_dir: "is_file w p \<Longrightarrow> \<not> is_dir w p"
  by (auto simp: is_file_def is_dir_def split: option.splits node.splits)

lemma existing_finite_nonroot: "finite {p \<in> existing w. parts p \<noteq> []}"
proof -
  have "{p \<in> existing w. parts p \<noteq> []} \<subseteq> fmdom' (fsys w)"
    by (auto simp: existing_def path_exists_def lookup_node_def fmdom'I)
  then show ?thesis by (rule finite_subset) simp
qed

lemma open_wb_denied_unchanged: "open_wb w p d = Inr w' \<Longrightarrow> denied w' = denied w"
  by (auto simp: open_wb_def split: if_splits)

lemma open_wb_lookup:
  assumes "open_wb w p d = Inr w'"
  shows "lookup_node w' q = (if q = p then Some (PdfFile d) else lookup_node w q)"
proof -
  from assms have "parts p \<noteq> []"
    by (auto simp: open_wb_def is_dir_def lookup_node_def split: if_splits)
  with assms show ?thesis
    by (auto simp: open_wb_def lookup_node_def split: if_splits)
qed

lemma open_wb_reads_back:
  "open_wb w p d = Inr w' \<Longrightarrow> pdf_reader w' p = Inr d"
  by (simp add: pdf_reader_def open_wb_lookup)

lemma open_wb_other:
  "open_wb w p d = Inr w' \<Longrightarrow> q \<noteq> p \<Longrightarrow> lookup_node w' q = lookup_node w q"
  by (simp add: open_wb_lookup)

lemma open_wb_exists:
  "open_wb w p d = Inr w' \<Longrightarrow> path_exists w' q \<longleftrightarrow> q = p \<or> path_exists w q"
  by (simp add: path_exists_def open_wb_lookup)

lemma open_wb_is_dir:
  "open_wb w p d = Inr w' \<Longrightarrow> is_dir w' q \<longleftrightarrow> is_dir w q"
  by (auto simp: is_dir_def open_wb_lookup) (auto simp: open_wb_def is_dir_def split: if_splits)

lemma open_wb_ok_iff:
  "is_ok (open_wb w p d) \<longleftrightarrow> \<not> is_dir w p \<and> is_dir w (parent p) \<and> p |\<notin>| denied w"
  by (auto simp: open_wb_def is_dir_exists)

lemma path_exists_dom: "parts p \<noteq> [] \<Longrightarrow> path_exists w p \<longleftrightarrow> p \<in> fmdom' (fsys w)"
  by (metis fmlookup_dom'_iff not_None_eq lookup_node_def path_exists_def)

section \<open>Making directories\<close>

lemma lookup_node_fmupd:
  "parts q \<noteq> [] \<Longrightarrow>
   lookup_node (w\<lparr>fsys := fmupd q nd (fsys w)\<rparr>) r = (if r = q then Some nd else lookup_node w r)"
  by (auto simp: lookup_node_def)

lemma lookup_node_None_parts: "lookup_node w q = None \<Longrightarrow> parts q \<noteq> []"
  by (auto simp: lookup_node_def split: if_splits)

lemma mkdir_chain_Cons_cases:
  obtains (skip) "lookup_node w q = Some Dir" "mkdir_chain p (q # qs) w = mkdir_chain p qs w"
  | (stop) e where "mkdir_chain p (q # qs) w = (Some e, w)"
  | (make) "lookup_node w q = None" "q |\<notin>| denied w"
      "mkdir_chain p (q # qs) w = mkdir_chain p qs (make_dir w q)"
proof (cases "lookup_node w q")
  case None
  then show ?thesis
    using stop [of PermissionError] make by (cases "q |\<in>| denied w") (simp_all add: make_dir_def)
next
  case (Some nd)
  then show ?thesis
    using skip stop [of "if q = p then FileExistsError else NotADirectoryError"]
    by (cases nd) simp_all
qed

lemma lookup_make_dir:
  "lookup_node w q = None \<Longrightarrow>
   lookup_node (make_dir w q) r = (if r = q then Some Dir else lookup_node w r)"
  by (simp add: make_dir_def lookup_node_fmupd lookup_node_None_parts)

lemma denied_make_dir [simp]: "denied (make_dir w q) = denied w"
  by (simp add: make_dir_def)

lemma mkdir_chain_denied [simp]: "denied (snd (mkdir_chain p qs w)) = denied w"
proof (induction qs arbitrary: w)
  case Nil
  then show ?case by simp
next
  case (Cons q qs)
  show ?case by (cases rule: mkdir_chain_Cons_cases [where w = w and q = q and p = p and qs = qs]) (simp_all add: Cons)
qed

lemma mkdir_chain_keeps:
  "lookup_node w r = Some nd \<Longrightarrow> lookup_node (snd (mkdir_chain p qs w)) r = Some nd"
proof (induction qs arbitrary: w)
  case Nil
  then show ?case by simp
next
  case (Cons q qs)
  show ?case
  proof (cases rule: mkdir_chain_Cons_cases [where w = w and q = q and p = p and qs = qs])
    case make
    with Cons.prems have "lookup_node (make_dir w q) r = Some nd"
      by (auto simp: lookup_make_dir)
    with make Cons.IH show ?thesis by simp
  qed (simp_all add: Cons)
qed

lemma mkdir_chain_other:
  "r \<notin> set qs \<Longrightarrow> lookup_node (snd (mkdir_chain p qs w)) r = lookup_node w r"
proof (induction qs arbitrary: w)
  case Nil
  then show ?case by simp
next
  case (Cons q qs)
  show ?case
  proof (cases rule: mkdir_chain_Cons_cases [where w = w and q = q and p = p and qs = qs])
    case make
    with Cons show ?thesis by (simp add: lookup_make_dir)
  qed (use Cons in simp_all)
qed

lemma mkdir_chain_new_dirs:
  "lookup_node (snd (mkdir_chain p qs w)) r = lookup_node w r
   \<or> lookup_node w r = None \<and> lookup_node (snd (mkdir_chain p qs w)) r = Some Dir"
proof (induction qs arbitrary: w)
  case Nil
  then show ?case by simp
next
  case (Cons q qs)
  show ?case
  proof (cases rule: mkdir_chain_Cons_cases [where w = w and q = q and p = p and qs = qs])
    case make
    show ?thesis
    proof (cases "r = q")
      case True
      with make have "lookup_node (make_dir w q) r = Some Dir" by (simp add: lookup_make_dir)
      then have "lookup_node (snd (mkdir_chain p qs (make_dir w q))) r = Some Dir"
        by (rule mkdir_chain_keeps)
      with make True show ?thesis by simp
    next
      case False
      with make Cons.IH [of "make_dir w q"] show ?thesis by (simp add: lookup_make_dir)
    qed
  qed (use Cons in simp_all)
qed

lemma mkdir_chain_success:
  "fst (mkdir_chain p qs w) = None \<Longrightarrow> q \<in> set qs \<Longrightarrow> is_dir (snd (mkdir_chain p qs w)) q"
proof (induction qs arbitrary: w)
  case Nil
  then show ?case by simp
next
  case (Cons q' qs)
  show ?case
  proof (cases rule: mkdir_chain_Cons_cases [where w = w and q = "q'" and p = p and qs = qs])
    case skip
    with Cons show ?thesis by (auto simp: is_dir_def mkdir_chain_keeps)
  next
    case (stop e)
    with Cons.prems show ?thesis by simp
  next
    case make
    then have "lookup_node (make_dir w q') q' = Some Dir" by (simp add: lookup_make_dir)
    with make Cons show ?thesis by (auto simp: is_dir_def mkdir_chain_keeps)
  qed
qed

lemma self_in_ancestors: "parts p \<noteq> [] \<Longrightarrow> p \<in> set (ancestors_and_self p)"
proof -
  assume "parts p \<noteq> []"
  then have "length (parts p) \<in> {1..<Suc (length (parts p))}"
    by (cases "parts p") simp_all
  moreover have "PurePath (anchored p) (take (length (parts p)) (parts p)) = p" by simp
  ultimately show ?thesis
    unfolding ancestors_and_self_def set_map set_upt by (metis imageI)
qed

lemma is_dir_empty [simp]: "is_dir w (PurePath a [])"
  by (simp add: is_dir_def lookup_node_def)

lemma mkdir_parents_is_dir:
  assumes "fst (mkdir_parents w p) = None"
  shows "is_dir (snd (mkdir_parents w p)) p"
proof (cases "parts p = []")
  case True
  then show ?thesis by (simp add: is_dir_def lookup_node_def)
next
  case False
  with assms show ?thesis
    unfolding mkdir_parents_def by (intro mkdir_chain_success self_in_ancestors)
qed

section \<open>Removing a file\<close>

lemma unlink_ok_iff: "is_ok (unlink w p) \<longleftrightarrow> is_file w p \<and> p |\<notin>| denied w"
  by (auto simp: unlink_def is_file_def is_dir_def path_exists_def split: option.splits node.splits)

lemma unlink_lookup:
  assumes "unlink w p = Inr w'"
  shows "lookup_node w' q = (if q = p then None else lookup_node w q)"
proof -
  from assms have "parts p \<noteq> []"
    by (auto simp: unlink_def is_dir_def lookup_node_def split: if_splits)
  with assms show ?thesis
    by (auto simp: unlink_def lookup_node_def split: if_splits)
qed

lemma unlink_denied: "unlink w p = Inr w' \<Longrightarrow> denied w' = denied w"
  by (auto simp: unlink_def split: if_splits)

section \<open>Well-formed name spaces\<close>

text \<open>
  Every entry lies in a directory: its parent is the root, the current
  directory or an entry that is a directory.
\<close>

definition fs_wf :: "world \<Rightarrow> bool" where
  "fs_wf w \<longleftrightarrow> (\<forall>p \<in> fmdom' (fsys w). parts p \<noteq> [] \<longrightarrow> is_dir w (parent p))"

lemma fs_wf_empty [simp]: "fs_wf \<lparr>fsys = fmempty, denied = ds\<rparr>"
  by (simp add: fs_wf_def)

lemma fs_wf_open_wb [stpl_inv]:
  assumes "fs_wf w" and "open_wb w p d = Inr w'"
  shows "fs_wf w'"
  unfolding fs_wf_def
proof (intro ballI impI)
  fix q
  assume q: "q \<in> fmdom' (fsys w')" and ne: "parts q \<noteq> []"
  from assms(2) have par: "is_dir w (parent p)" and w': "fsys w' = fmupd p (PdfFile d) (fsys w)"
    by (auto simp: open_wb_def is_dir_exists split: if_splits)
  show "is_dir w' (parent q)"
  proof (cases "q = p")
    case True
    with par assms(2) show ?thesis by (simp add: open_wb_is_dir)
  next
    case False
    with q w' have "q \<in> fmdom' (fsys w)" by simp
    with assms(1) ne have "is_dir w (parent q)" by (simp add: fs_wf_def)
    with assms(2) show ?thesis by (simp add: open_wb_is_dir)
  qed
qed

text \<open>
  The ancestors of a path form a chain: each is the parent of the next. Along
  a chain that starts at a directory, making the missing directories keeps
  every entry inside a directory.
\<close>

fun chain_from :: "path \<Rightarrow> path list \<Rightarrow> bool" where
  "chain_from a [] = True"
| "chain_from a (q # qs) = (parent q = a \<and> chain_from q qs)"

lemma fs_wf_make_dir:
  assumes "fs_wf w" and "lookup_node w q = None" and "is_dir w (parent q)"
  shows "fs_wf (make_dir w q)"
  unfolding fs_wf_def
proof (intro ballI impI)
  fix r assume r: "r \<in> fmdom' (fsys (make_dir w q))" and ne: "parts r \<noteq> []"
  have "is_dir w (parent r)"
  proof (cases "r = q")
    case True
    with assms(3) show ?thesis by simp
  next
    case False
    with r have "r \<in> fmdom' (fsys w)" by (simp add: make_dir_def)
    with assms(1) ne show ?thesis by (simp add: fs_wf_def)
  qed
  moreover from this assms(2) have "parent r \<noteq> q" by (auto simp: is_dir_def)
  ultimately show "is_dir (make_dir w q) (parent r)"
    using assms(2) by (simp add: is_dir_def lookup_make_dir)
qed

lemma fs_wf_mkdir_chain:
  assumes "fs_wf w" and "is_dir w a" and "chain_from a qs"
  shows "fs_wf (snd (mkdir_chain p qs w))"
  using assms
proof (induction qs arbitrary: w a)
  case Nil
  then show ?case by simp
next
  case (Cons q qs)
  from Cons.prems(3) have par: "parent q = a" and ch: "chain_from q qs" by simp_all
  show ?case
  proof (cases rule: mkdir_chain_Cons_cases [where w = w and q = q and p = p and qs = qs])
    case skip
    with Cons.IH [OF Cons.prems(1) _ ch] show ?thesis by (simp add: is_dir_def)
  next
    case (stop e)
    with Cons.prems(1) show ?thesis by simp
  next
    case make
    from Cons.prems(1,2) make(1) par have "fs_wf (make_dir w q)"
      by (intro fs_wf_make_dir) simp_all
    moreover from make(1) have "is_dir (make_dir w q) q" by (simp add: is_dir_def lookup_make_dir)
    ultimately show ?thesis using make(3) ch by (simp add: Cons.IH)
  qed
qed

lemma chain_from_ancestors_aux:
  "chain_from (PurePath a (take k ws)) (map (\<lambda>j. PurePath a (take j ws)) [Suc k..<Suc (length ws)])"
proof (induction "length ws - k" arbitrary: k)
  case 0
  then show ?case by simp
next
  case (Suc n)
  then have k: "k < length ws" by simp
  then have "[Suc k..<Suc (length ws)] = Suc k # [Suc (Suc k)..<Suc (length ws)]"
    by (simp add: upt_conv_Cons)
  moreover have "butlast (take (Suc k) ws) = take k ws"
    using k by (simp add: butlast_take)
  moreover have "chain_from (PurePath a (take (Suc k) ws))
      (map (\<lambda>j. PurePath a (take j ws)) [Suc (Suc k)..<Suc (length ws)])"
    using Suc(2) by (intro Suc(1)) simp
  ultimately show ?case by (simp add: parent_def)
qed

lemma chain_from_ancestors: "chain_from (PurePath (anchored p) []) (ancestors_and_self p)"
  using chain_from_ancestors_aux [of "anchored p" 0 "parts p"]
  by (simp add: ancestors_and_self_def)

lemma fs_wf_mkdir_parents [stpl_inv]: "fs_wf w \<Longrightarrow> fs_wf (snd (mkdir_parents w p))"
  unfolding mkdir_parents_def
  by (rule fs_wf_mkdir_chain [OF _ _ chain_from_ancestors]) simp_all

lemma fs_wf_unlink [stpl_inv]:
  assumes "fs_wf w" and "unlink w p = Inr w'"
  shows "fs_wf w'"
  unfolding fs_wf_def
proof (intro ballI impI)
  fix q assume q: "q \<in> fmdom' (fsys w')" and ne: "parts q \<noteq> []"
  from assms(2) have nd: "\<not> is_dir w p" and w': "fsys w' = fmdrop p (fsys w)"
    by (auto simp: unlink_def split: if_splits)
  from q w' have "q \<in> fmdom' (fsys w)" by simp
  with assms(1) ne have d: "is_dir w (parent q)" by (simp add: fs_wf_def)
  with nd have "parent q \<noteq> p" by auto
  with d assms(2) show "is_dir w' (parent q)" by (simp add: is_dir_def unlink_lookup)
qed

end
