(* ===== verification/Partition_Spec.thy ===== *)
theory Partition_Spec
  imports Py_Builtins
begin

text \<open>
  What a partition of \<open>tot\<close> pages into files of at most \<open>cap\<close> pages is,
  independent of how the tool computes it: a list of inclusive, 1-indexed
  page ranges that follow each other without gap or overlap from page 1 to
  page \<open>tot\<close>, all of size \<open>cap\<close> except possibly the last, which holds
  between 1 and \<open>cap\<close> pages; their number is \<open>tot\<close> divided by \<open>cap\<close>,
  rounded up. \<open>plan_range\<close> is the \<open>k\<close>-th range in closed form and
  \<open>chunks\<close> the corresponding split of a list; the component theories show
  that the code computes exactly these.
\<close>

section \<open>Ranges and plans\<close>

definition plan_range :: "int \<Rightarrow> int \<Rightarrow> nat \<Rightarrow> int \<times> int" where
  "plan_range cap tot k = (int k * cap + 1, min ((int k + 1) * cap) tot)"

fun contiguous_from :: "int \<Rightarrow> (int \<times> int) list \<Rightarrow> bool" where
  "contiguous_from s [] = True"
| "contiguous_from s ((a, b) # rs) = (a = s \<and> a \<le> b \<and> contiguous_from (b + 1) rs)"

definition range_size :: "int \<times> int \<Rightarrow> int" where
  "range_size r = snd r - fst r + 1"

definition is_partition_plan :: "int \<Rightarrow> int \<Rightarrow> (int \<times> int) list \<Rightarrow> bool" where
  "is_partition_plan tot cap rs \<longleftrightarrow>
     contiguous_from 1 rs \<and>
     (if rs = [] then tot = 0 else snd (last rs) = tot) \<and>
     list_all (\<lambda>r. range_size r = cap) (butlast rs) \<and>
     list_all (\<lambda>r. 1 \<le> range_size r \<and> range_size r \<le> cap) rs \<and>
     int (length rs) = (tot + cap - 1) div cap"

lemma contiguous_from_upt:
  assumes "i < n \<Longrightarrow> fst (f i) = s"
    and "\<And>k. i \<le> k \<Longrightarrow> k < n \<Longrightarrow> fst (f k) \<le> snd (f k)"
    and "\<And>k. i \<le> k \<Longrightarrow> Suc k < n \<Longrightarrow> snd (f k) + 1 = fst (f (Suc k))"
  shows "contiguous_from s (map f [i..<n])"
  using assms
proof (induction "n - i" arbitrary: i s)
  case 0
  then show ?case by simp
next
  case (Suc d)
  then have lt: "i < n" by simp
  have step: "contiguous_from (snd (f i) + 1) (map f [Suc i..<n])"
  proof (rule Suc.hyps(1))
    show "d = n - Suc i" using Suc.hyps(2) by simp
    show "Suc i < n \<Longrightarrow> fst (f (Suc i)) = snd (f i) + 1" using Suc.prems(3) [of i] by simp
    show "\<And>k. Suc i \<le> k \<Longrightarrow> k < n \<Longrightarrow> fst (f k) \<le> snd (f k)" using Suc.prems(2) by simp
    show "\<And>k. Suc i \<le> k \<Longrightarrow> Suc k < n \<Longrightarrow> snd (f k) + 1 = fst (f (Suc k))"
      using Suc.prems(3) by simp
  qed
  from lt have "[i..<n] = i # [Suc i..<n]" by (simp add: upt_conv_Cons)
  with step Suc.prems(1) Suc.prems(2) [of i] lt show ?case
    by (cases "f i") simp
qed

lemma contiguous_from_last_ge:
  "contiguous_from s rs \<Longrightarrow> rs \<noteq> [] \<Longrightarrow> s \<le> snd (last rs)"
proof (induction s rs rule: contiguous_from.induct)
  case (1 s)
  then show ?case by simp
next
  case (2 s a b rs)
  then show ?case by (cases "rs = []") auto
qed

lemma contiguous_from_concat:
  "contiguous_from s rs \<Longrightarrow> rs \<noteq> [] \<Longrightarrow>
     concat (map (\<lambda>(a, b). [a..b]) rs) = [s..snd (last rs)]"
proof (induction s rs rule: contiguous_from.induct)
  case (1 s)
  then show ?case by simp
next
  case (2 s a b rs)
  show ?case
  proof (cases "rs = []")
    case True
    with 2 show ?thesis by simp
  next
    case False
    with 2 have IH: "concat (map (\<lambda>(a, b). [a..b]) rs) = [b + 1..snd (last rs)]" by simp
    from 2(2) False have "b + 1 \<le> snd (last rs)"
      by (simp add: contiguous_from_last_ge)
    with 2(2) have "[s..snd (last rs)] = [s..b] @ [b + 1..snd (last rs)]"
      by (intro upto_split2) simp_all
    with 2(2) IH False show ?thesis by simp
  qed
qed

lemma plan_contiguous:
  assumes "0 < cap"
  shows "contiguous_from 1 (map (plan_range cap tot) [0..<range_len 0 tot cap])"
proof (rule contiguous_from_upt)
  show "fst (plan_range cap tot 0) = 1" by (simp add: plan_range_def)
next
  fix k assume "k < range_len 0 tot cap"
  with assms have "int k * cap < tot" by (rule range_len_bound)
  with assms show "fst (plan_range cap tot k) \<le> snd (plan_range cap tot k)"
    by (simp add: plan_range_def algebra_simps)
next
  fix k assume "Suc k < range_len 0 tot cap"
  with assms have "int (Suc k) * cap < tot" by (rule range_len_bound)
  then show "snd (plan_range cap tot k) + 1 = fst (plan_range cap tot (Suc k))"
    by (simp add: plan_range_def algebra_simps)
qed

lemma plan_last:
  assumes "0 < cap" and "0 < tot"
  shows "snd (last (map (plan_range cap tot) [0..<range_len 0 tot cap])) = tot"
proof -
  let ?n = "range_len 0 tot cap"
  from assms have n: "0 < ?n" by (simp add: range_len_pos_iff)
  then have "last (map (plan_range cap tot) [0..<?n]) = plan_range cap tot (?n - 1)"
    by (simp add: last_map last_upt)
  moreover have "tot \<le> int ?n * cap" using assms by (rule range_len_last)
  ultimately show ?thesis using n by (simp add: plan_range_def of_nat_diff algebra_simps)
qed

lemma plan_sizes:
  assumes "0 < cap" and "k < range_len 0 tot cap"
  shows "1 \<le> range_size (plan_range cap tot k)" "range_size (plan_range cap tot k) \<le> cap"
    and "Suc k < range_len 0 tot cap \<Longrightarrow> range_size (plan_range cap tot k) = cap"
proof -
  from assms have "int k * cap < tot" by (rule range_len_bound)
  with assms show "1 \<le> range_size (plan_range cap tot k)" "range_size (plan_range cap tot k) \<le> cap"
    by (simp_all add: plan_range_def range_size_def algebra_simps)
  assume "Suc k < range_len 0 tot cap"
  with assms(1) have "int (Suc k) * cap < tot" by (rule range_len_bound)
  then show "range_size (plan_range cap tot k) = cap"
    by (simp add: plan_range_def range_size_def algebra_simps)
qed

lemma plan_is_partition:
  assumes "0 < cap" and "0 \<le> tot"
  shows "is_partition_plan tot cap (map (plan_range cap tot) [0..<range_len 0 tot cap])"
proof -
  let ?n = "range_len 0 tot cap"
  let ?rs = "map (plan_range cap tot) [0..<?n]"
  have empty: "?rs = [] \<longleftrightarrow> tot = 0"
    using assms range_len_pos_iff [OF assms(1), of tot] by auto
  have "butlast ?rs = map (plan_range cap tot) [0..<?n - 1]"
    by (simp add: butlast_conv_take take_map)
  then have "list_all (\<lambda>r. range_size r = cap) (butlast ?rs)"
    using plan_sizes(3) [OF assms(1)] by (auto simp: list_all_iff)
  moreover have "list_all (\<lambda>r. 1 \<le> range_size r \<and> range_size r \<le> cap) ?rs"
    using plan_sizes(1,2) [OF assms(1)] by (auto simp: list_all_iff)
  moreover have "int (length ?rs) = (tot + cap - 1) div cap"
  proof (cases "tot = 0")
    case True
    with assms show ?thesis by (simp add: range_len_ceil div_pos_pos_trivial)
  next
    case False
    with assms have "0 < tot" by simp
    with assms show ?thesis using ceil_div_pos [of cap tot] by (simp add: range_len_ceil)
  qed
  moreover have "if ?rs = [] then tot = 0 else snd (last ?rs) = tot"
    using empty assms plan_last [of cap tot] by (auto split: if_splits)
  ultimately show ?thesis
    using plan_contiguous [OF assms(1), of tot] unfolding is_partition_plan_def by blast
qed

lemma partition_plan_cover:
  assumes "is_partition_plan tot cap rs"
  shows "concat (map (\<lambda>(a, b). [a..b]) rs) = [1..tot]"
proof (cases "rs = []")
  case True
  with assms show ?thesis by (simp add: is_partition_plan_def)
next
  case False
  with assms have "contiguous_from 1 rs" and "snd (last rs) = tot"
    by (simp_all add: is_partition_plan_def)
  with False contiguous_from_concat [of 1 rs] show ?thesis by simp
qed

section \<open>Chunks of a list\<close>

text \<open>
  \<open>chunks n xs\<close> cuts \<open>xs\<close> into consecutive pieces of \<open>n\<close> elements, the
  last one shorter if the length is no multiple of \<open>n\<close>. \<open>range_pages xs r\<close>
  are the elements at the (1-indexed, inclusive) positions of the range \<open>r\<close>.
  The pieces are the pages of the ranges of the plan.
\<close>

fun chunks :: "nat \<Rightarrow> 'a list \<Rightarrow> 'a list list" where
  "chunks n xs = (if n = 0 \<or> xs = [] then [] else take n xs # chunks n (drop n xs))"

declare chunks.simps [simp del]

lemma chunks_Nil [simp]: "chunks n [] = []"
  by (simp add: chunks.simps)

lemma chunks_zero [simp]: "chunks 0 xs = []"
  by (simp add: chunks.simps)

lemma chunks_step:
  "0 < n \<Longrightarrow> xs \<noteq> [] \<Longrightarrow> chunks n xs = take n xs # chunks n (drop n xs)"
  by (subst chunks.simps) simp

lemma concat_chunks: "0 < n \<Longrightarrow> concat (chunks n xs) = xs"
proof (induction n xs rule: chunks.induct)
  case (1 n xs)
  then show ?case by (cases "xs = []") (simp_all add: chunks_step)
qed

lemma ceil_div_nat_step:
  fixes n :: nat
  assumes "0 < n" and "0 < m"
  shows "(m + n - 1) div n = Suc ((m - n + n - 1) div n)"
proof (cases "n \<le> m")
  case True
  then have "m + n - 1 = (m - n + n - 1) + n" using assms by simp
  then show ?thesis using assms by (simp only: div_add_self2)
next
  case False
  with assms have "(m + n - 1) div n = 1"
    by (simp add: div_eq_dividend_iff Suc_le_eq div_nat_eqI)
  with False assms show ?thesis by simp
qed

lemma chunks_closed:
  "0 < n \<Longrightarrow>
     chunks n xs = map (\<lambda>k. slice xs (k * n) (Suc k * n)) [0..<(length xs + n - 1) div n]"
proof (induction n xs rule: chunks.induct)
  case (1 n xs)
  show ?case
  proof (cases "xs = []")
    case True
    with 1(2) show ?thesis by simp
  next
    case False
    let ?m = "(length xs - n + n - 1) div n"
    from False 1 have IH: "chunks n (drop n xs) =
        map (\<lambda>k. slice (drop n xs) (k * n) (Suc k * n)) [0..<?m]" by simp
    have m: "(length xs + n - 1) div n = Suc ?m"
      using 1(2) False by (intro ceil_div_nat_step) simp_all
    have "chunks n xs = take n xs # chunks n (drop n xs)"
      using 1(2) False by (rule chunks_step)
    also have "\<dots> = slice xs 0 n # map (\<lambda>k. slice (drop n xs) (k * n) (Suc k * n)) [0..<?m]"
      by (simp only: IH slice_0_take)
    also have "\<dots> = slice xs (0 * n) (Suc 0 * n)
                   # map ((\<lambda>k. slice xs (k * n) (Suc k * n)) \<circ> Suc) [0..<?m]"
      by (simp add: slice_drop add_ac)
    also have "\<dots> = map (\<lambda>k. slice xs (k * n) (Suc k * n)) (0 # map Suc [0..<?m])"
      by (simp only: list.map map_map)
    also have "0 # map Suc [0..<?m] = [0..<Suc ?m]"
      by (simp only: map_Suc_upt upt_conv_Cons [of 0 "Suc ?m"])
    finally show ?thesis by (simp only: m)
  qed
qed

definition range_pages :: "'a list \<Rightarrow> int \<times> int \<Rightarrow> 'a list" where
  "range_pages xs r = slice xs (nat (fst r - 1)) (nat (snd r))"

lemma range_len_nat:
  assumes "0 < n"
  shows "range_len 0 (int m) (int n) = (m + n - 1) div n"
proof -
  have "(int m + int n - 1) = int (m + n - 1)" using assms by (simp add: of_nat_diff)
  then have "(int m + int n - 1) div int n = int ((m + n - 1) div n)"
    by (simp only: zdiv_int)
  with assms show ?thesis by (simp add: range_len_ceil)
qed

lemma range_pages_plan:
  "range_pages xs (plan_range (int n) (int (length xs)) k) = slice xs (k * n) (Suc k * n)"
proof -
  have "(int k + 1) * int n = int (Suc k * n)"
    by (simp add: algebra_simps)
  then have "min ((int k + 1) * int n) (int (length xs)) = int (min (Suc k * n) (length xs))"
    by (simp only: of_nat_min)
  then have "nat (min ((int k + 1) * int n) (int (length xs))) = min (Suc k * n) (length xs)"
    by (simp only: nat_int)
  moreover have "nat (int k * int n + 1 - 1) = k * n"
    by (simp add: nat_mult_distrib)
  ultimately show ?thesis
    by (simp only: range_pages_def plan_range_def fst_conv snd_conv slice_min_length)
qed

lemma plan_pages_chunks:
  assumes "0 < n"
  shows "map (range_pages xs)
           (map (plan_range (int n) (int (length xs))) [0..<range_len 0 (int (length xs)) (int n)])
         = chunks n xs"
  using assms by (simp add: chunks_closed range_len_nat range_pages_plan del: mult_Suc)

end
