(* ===== verification/Pdf_Splitter.thy ===== *)
theory Pdf_Splitter
  imports File_System Partition_Spec
begin

text \<open>
  The class \<open>PDFSplitter\<close> of \<open>src/pdf_splitter.py\<close>: its three fields as a
  record, one definition per method, and the loop of \<open>split_pdf\<close> as a
  recursion over the enumerated page ranges. A method that only reads returns
  its value; a method that assigns fields returns the new object; a method
  that writes files takes and returns the world. An exception that the Python
  code catches becomes the branch the \<open>except\<close> clause takes; one that it
  does not catch is an \<open>Inl\<close> result. Text printed to the console is not part
  of the model, except for \<open>preview_split\<close>, whose printed lines are its only
  result. The dictionary of \<open>get_pdf_info\<close> is an association list. A
  progress callback is a function on the world that may raise.
\<close>

section \<open>State\<close>

record splitter =
  input_file :: path
  reader :: "pdf_doc option"
  total_pages :: int

text \<open>
  A progress callback is any callable: it may change the name space, and it
  may raise, which the first component of its result records.
\<close>

type_synonym callback = "int \<Rightarrow> int \<Rightarrow> string \<Rightarrow> world \<Rightarrow> py_error option \<times> world"

record split_info =
  info_total_pages :: int
  info_pages_per_split :: int
  num_splits :: int
  last_split_pages :: int
  ranges :: "(int \<times> int) list"

section \<open>Methods\<close>

definition PDFSplitter :: "string \<Rightarrow> splitter" where
  "PDFSplitter input = \<lparr>input_file = Path input, reader = None, total_pages = 0\<rparr>"

text \<open>
  \<open>load_pdf\<close> assigns \<open>reader\<close> before it asks for the number of pages, so a
  document whose page list cannot be read leaves the new reader in place with
  the old page count.
\<close>

definition load_pdf :: "splitter \<Rightarrow> world \<Rightarrow> bool \<times> splitter" where
  "load_pdf self w =
     (case pdf_reader w (Path (path_str (input_file self))) of
        Inl e \<Rightarrow> (False, self)
      | Inr d \<Rightarrow>
          (let self1 = self\<lparr>reader := Some d\<rparr> in
           case reader_pages d of
             Inl e \<Rightarrow> (False, self1)
           | Inr ps \<Rightarrow>
               (let self2 = self1\<lparr>total_pages := int (length ps)\<rparr> in
                if total_pages self2 = 0 then (False, self2) else (True, self2))))"

definition get_total_pages :: "splitter \<Rightarrow> int" where
  "get_total_pages self = total_pages self"

definition is_encrypted :: "splitter \<Rightarrow> bool" where
  "is_encrypted self = (case reader self of Some d \<Rightarrow> encrypted d | None \<Rightarrow> False)"

text \<open>
  The dictionary of \<open>get_pdf_info\<close> is a list of keys with their values in
  the order of insertion. The four entries of the document information are
  added when it can be read and is not empty; \<open>info.update\<close> appends them,
  since none of their keys is present before.
\<close>

datatype info_value = IntValue int | BoolValue bool | FloatValue rat | StrValue string

type_synonym pdf_info = "(string \<times> info_value) list"

definition metadata_entries :: "(string \<times> string) list \<Rightarrow> pdf_info" where
  "metadata_entries md =
     map (\<lambda>(key, field).
            (key, StrValue (case map_of md field of Some v \<Rightarrow> v | None \<Rightarrow> ''Unknown'')))
       [(''title'', ''/Title''), (''author'', ''/Author''), (''creator'', ''/Creator''),
        (''subject'', ''/Subject'')]"

definition get_pdf_info :: "splitter \<Rightarrow> size_fn \<Rightarrow> world \<Rightarrow> pdf_info result" where
  "get_pdf_info self sz w =
     (case reader self of
        None \<Rightarrow> Inr []
      | Some rd \<Rightarrow>
          (case st_size sz w (input_file self) of
             Inl e \<Rightarrow> Inl e
           | Inr size_bytes \<Rightarrow>
               (case megabytes size_bytes of
                  Inl e \<Rightarrow> Inl e
                | Inr mb \<Rightarrow>
                    (let info = [(''total_pages'', IntValue (total_pages self)),
                                 (''encrypted'', BoolValue (is_encrypted self)),
                                 (''file_size_mb'', FloatValue mb)]
                     in Inr (case reader_metadata rd of
                               Inl e \<Rightarrow> info
                             | Inr None \<Rightarrow> info
                             | Inr (Some md) \<Rightarrow>
                                 if md \<noteq> [] then info @ metadata_entries md else info)))))"

definition validate_split_parameters :: "splitter \<Rightarrow> int \<Rightarrow> bool \<times> string" where
  "validate_split_parameters self pages_per_split =
     (if pages_per_split \<le> 0 then (False, ''Pages per split must be greater than 0'')
      else if pages_per_split \<ge> total_pages self then
        (False, ''Pages per split ('' @ str_int pages_per_split
                @ '') should be less than total pages ('' @ str_int (total_pages self) @ '')'')
      else (True, ''''))"

definition get_page_ranges :: "splitter \<Rightarrow> int \<Rightarrow> (int \<times> int) list result" where
  "get_page_ranges self pages_per_split =
     (case py_range 0 (total_pages self) pages_per_split of
        Inl e \<Rightarrow> Inl e
      | Inr starts \<Rightarrow>
          Inr (map (\<lambda>start.
                 (let end = min (start + pages_per_split - 1) (total_pages self - 1)
                  in (start + 1, end + 1))) starts))"

definition calculate_split_info :: "splitter \<Rightarrow> int \<Rightarrow> split_info result" where
  "calculate_split_info self pages_per_split =
     (if pages_per_split = 0 then Inl ZeroDivisionError
      else
        (let n = (total_pages self + pages_per_split - 1) div pages_per_split;
             l = total_pages self mod pages_per_split;
             l' = (if l = 0 then pages_per_split else l)
         in case get_page_ranges self pages_per_split of
              Inl e \<Rightarrow> Inl e
            | Inr rs \<Rightarrow>
                Inr \<lparr>info_total_pages = total_pages self,
                     info_pages_per_split = pages_per_split,
                     num_splits = n, last_split_pages = l', ranges = rs\<rparr>))"

text \<open>
  \<open>self.reader.pages[page_num]\<close> for \<open>page_num\<close> in
  \<open>range(start_page - 1, end_page)\<close>: each access evaluates the page list of the
  reader again, so an empty range never touches it.
\<close>

definition page_at :: "pdf_doc \<Rightarrow> int \<Rightarrow> page result" where
  "page_at rd i = (case reader_pages rd of Inl e \<Rightarrow> Inl e | Inr ps \<Rightarrow> py_index ps i)"

definition page_numbers :: "int \<Rightarrow> int \<Rightarrow> int list" where
  "page_numbers start_page end_page =
     map (\<lambda>k. start_page - 1 + int k) [0..<nat (end_page - (start_page - 1))]"

definition add_pages :: "pdf_doc \<Rightarrow> int \<Rightarrow> int \<Rightarrow> page list result" where
  "add_pages rd start_page end_page = traverse (page_at rd) (page_numbers start_page end_page)"

text \<open>
  \<open>if progress_callback: progress_callback(current, total, message)\<close>.
\<close>

definition notify ::
  "callback option \<Rightarrow> int \<Rightarrow> int \<Rightarrow> string \<Rightarrow> world \<Rightarrow> py_error option \<times> world" where
  "notify progress_callback current tot message w =
     (case progress_callback of
        None \<Rightarrow> (None, w)
      | Some progress \<Rightarrow> progress current tot message w)"

text \<open>
  The body of the loop of \<open>split_pdf\<close>, once per range, in order. The first
  exception ends the loop; what was written before it stays written.
\<close>

fun split_loop ::
  "pdf_doc \<Rightarrow> callback option \<Rightarrow> int \<Rightarrow> path list \<Rightarrow> (nat \<times> int \<times> int) list \<Rightarrow> world
     \<Rightarrow> py_error option \<times> world" where
  "split_loop rd cb n output_files [] w = (None, w)"
| "split_loop rd cb n output_files ((i, start_page, end_page) # rest) w =
     (case notify cb (int i + 1) n (''Creating part '' @ str_int (int i + 1)) w of
        (Some e, w1) \<Rightarrow> (Some e, w1)
      | (None, w1) \<Rightarrow>
          (case add_pages rd start_page end_page of
             Inl e \<Rightarrow> (Some e, w1)
           | Inr ps \<Rightarrow>
               (case py_index output_files (int i) of
                  Inl e \<Rightarrow> (Some e, w1)
                | Inr output_file \<Rightarrow>
                    (case open_wb w1 output_file (written_pdf ps) of
                       Inl e \<Rightarrow> (Some e, w1)
                     | Inr w2 \<Rightarrow> split_loop rd cb n output_files rest w2))))"

definition split_pdf ::
  "splitter \<Rightarrow> int \<Rightarrow> path list \<Rightarrow> callback option \<Rightarrow> world \<Rightarrow> bool \<times> world" where
  "split_pdf self pages_per_split output_files progress_callback w =
     (case reader self of
        None \<Rightarrow> (False, w)
      | Some rd \<Rightarrow>
          (case get_page_ranges self pages_per_split of
             Inl e \<Rightarrow> (False, w)
           | Inr rs \<Rightarrow>
               (case split_loop rd progress_callback (int (length rs)) output_files
                       (enumerate 0 rs) w of
                  (Some e, w') \<Rightarrow> (False, w')
                | (None, w') \<Rightarrow> (True, w'))))"

definition extract_page_range ::
  "splitter \<Rightarrow> int \<Rightarrow> int \<Rightarrow> path \<Rightarrow> world \<Rightarrow> bool \<times> world" where
  "extract_page_range self start_page end_page output_file w =
     (case reader self of
        None \<Rightarrow> (False, w)
      | Some rd \<Rightarrow>
          if start_page < 1 \<or> end_page > total_pages self \<or> start_page > end_page
          then (False, w)
          else
            (case add_pages rd start_page end_page of
               Inl e \<Rightarrow> (False, w)
             | Inr ps \<Rightarrow>
                 (case open_wb w output_file (written_pdf ps) of
                    Inl e \<Rightarrow> (False, w)
                  | Inr w' \<Rightarrow> (True, w'))))"

text \<open>
  \<open>preview_split\<close> prints the plan. The model returns the printed lines;
  \<open>ZeroDivisionError\<close> escapes, as in the source, where nothing catches it.
\<close>

definition preview_line :: "nat \<times> int \<times> int \<Rightarrow> string" where
  "preview_line = (\<lambda>(i, start, end).
     ''  Part '' @ format_03d (int i + 1) @ '': pages '' @ str_int start @ ''-'' @ str_int end
     @ '' ('' @ str_int (end - start + 1) @ '' pages)'')"

definition preview_split :: "splitter \<Rightarrow> int \<Rightarrow> string list result" where
  "preview_split self pages_per_split =
     (case reader self of
        None \<Rightarrow> Inr [''Error: PDF not loaded. Call load_pdf() first.'']
      | Some rd \<Rightarrow>
          (case calculate_split_info self pages_per_split of
             Inl e \<Rightarrow> Inl e
           | Inr si \<Rightarrow>
               Inr ([[], ''--- Split Preview ---'',
                     ''Input file: '' @ path_str (input_file self),
                     ''Total pages: '' @ str_int (info_total_pages si),
                     ''Pages per split: '' @ str_int (info_pages_per_split si),
                     ''Number of output files: '' @ str_int (num_splits si),
                     ''Last file will have: '' @ str_int (last_split_pages si) @ '' pages'',
                     [], ''Page ranges:'']
                    @ map preview_line (enumerate 0 (ranges si))
                    @ [''--- End Preview ---'', []])))"

lemmas splitter_defs [stpl_defs] =
  PDFSplitter_def load_pdf_def get_total_pages_def is_encrypted_def metadata_entries_def
  get_pdf_info_def
  validate_split_parameters_def get_page_ranges_def calculate_split_info_def
  page_at_def page_numbers_def add_pages_def notify_def split_pdf_def extract_page_range_def
  preview_line_def preview_split_def

section \<open>The progress callback\<close>

text \<open>
  A callback that only reports: it does not raise and leaves the files and
  the permissions as they are. A call of such a callback changes nothing.
\<close>

definition cb_frame :: "callback option \<Rightarrow> bool" where
  "cb_frame cb \<longleftrightarrow>
     (case cb of None \<Rightarrow> True
      | Some f \<Rightarrow> \<forall>a b m w. fst (f a b m w) = None
                     \<and> fsys (snd (f a b m w)) = fsys w \<and> denied (snd (f a b m w)) = denied w)"

lemma notify_frame [simp]: "cb_frame cb \<Longrightarrow> notify cb a b m w = (None, w)"
  by (auto simp: cb_frame_def notify_def prod_eq_iff split: option.splits)

text \<open>
  The loops report the total \<open>n\<close> of their list and a position between 1 and
  \<open>n\<close>. Two callbacks that agree on these calls are the same to such a loop.
\<close>

definition cb_agree :: "int \<Rightarrow> callback option \<Rightarrow> callback option \<Rightarrow> bool" where
  "cb_agree n cb cb' \<longleftrightarrow>
     (\<forall>a m w. 0 < a \<and> a \<le> n \<longrightarrow> notify cb a n m w = notify cb' a n m w)"

lemma split_loop_cong:
  assumes "cb_agree n cb cb'"
  shows "list_all (\<lambda>job. int (fst job) < n) jobs
           \<Longrightarrow> split_loop rd cb n outs jobs w = split_loop rd cb' n outs jobs w"
proof (induction jobs arbitrary: w)
  case Nil
  show ?case by simp
next
  case (Cons job jobs)
  obtain i a b where job: "job = (i, a, b)" by (cases job) auto
  with Cons.prems assms have "notify cb (int i + 1) n m w = notify cb' (int i + 1) n m w" for m
    by (simp add: cb_agree_def)
  with Cons job show ?case
    by (simp split: prod.splits option.splits sum.splits)
qed

lemma enumerate_below: "list_all (\<lambda>job. int (fst job) < int (length xs)) (enumerate 0 xs)"
  by (auto simp: list_all_iff in_set_enumerate_eq)

lemma split_pdf_cong:
  assumes "\<And>n. cb_agree n cb cb'"
  shows "split_pdf self pps outs cb w = split_pdf self pps outs cb' w"
  using split_loop_cong [OF assms enumerate_below]
  by (simp add: split_pdf_def split: option.splits sum.splits)

section \<open>Loaded objects and a running example\<close>

text \<open>
  \<open>loaded self rd\<close>: the object holds the readable document \<open>rd\<close> and its
  page count. This is the state after a successful \<open>load_pdf\<close>.
\<close>

definition loaded :: "splitter \<Rightarrow> pdf_doc \<Rightarrow> bool" where
  "loaded self rd \<longleftrightarrow>
     reader self = Some rd \<and> \<not> needs_password rd \<and> total_pages self = int (length (pages rd))"

definition ex_doc :: pdf_doc where
  "ex_doc = \<lparr>pages = [10, 11, 12, 13, 14], encrypted = False, needs_password = False, metadata = None\<rparr>"

definition ex_splitter :: splitter where
  "ex_splitter = \<lparr>input_file = PurePath False [''doc.pdf''], reader = Some ex_doc, total_pages = 5\<rparr>"

definition ex_world :: world where
  "ex_world = \<lparr>fsys = fmupd (PurePath False [''doc.pdf'']) (PdfFile ex_doc) fmempty, denied = {||}\<rparr>"

definition ex_outs :: "path list" where
  "ex_outs = [PurePath False [''a.pdf''], PurePath False [''b.pdf''], PurePath False [''c.pdf'']]"

section \<open>The page ranges\<close>

lemma get_page_ranges_pos:
  assumes "0 < pps"
  shows "get_page_ranges self pps =
           Inr (map (plan_range pps (total_pages self)) [0..<range_len 0 (total_pages self) pps])"
  using assms
  by (simp add: get_page_ranges_def py_range_pos plan_range_def Let_def algebra_simps min_def)

lemma get_page_ranges_zero [simp]: "get_page_ranges self 0 = Inl ValueError"
  by (simp add: get_page_ranges_def)

lemma get_page_ranges_neg: "pps < 0 \<Longrightarrow> 0 \<le> total_pages self \<Longrightarrow> get_page_ranges self pps = Inr []"
  by (simp add: get_page_ranges_def)

text \<open>
  C1. For a positive page count per file and a non-negative total,
  \<open>_get_page_ranges\<close> returns a partition plan of the document: the ranges
  start at page 1, follow each other without gap or overlap, end at the last
  page, all hold \<open>pages_per_split\<close> pages except possibly the last (which
  holds between 1 and \<open>pages_per_split\<close>), and there are
  \<open>(total + pages_per_split - 1) // pages_per_split\<close> of them.
\<close>

theorem page_ranges_partition:
  assumes "0 < pps" and "0 \<le> total_pages self"
  shows "\<exists>rs. get_page_ranges self pps = Inr rs \<and> is_partition_plan (total_pages self) pps rs"
  using assms by (simp add: get_page_ranges_pos plan_is_partition)

theorem page_ranges_partition_witness:
  "get_page_ranges \<lparr>input_file = Path ''doc.pdf'', reader = None, total_pages = 20\<rparr> 8
     = Inr [(1, 8), (9, 16), (17, 20)]
   \<and> is_partition_plan 20 8 [(1, 8), (9, 16), (17, 20)]"
proof -
  let ?s = "\<lparr>input_file = Path ''doc.pdf'', reader = None, total_pages = 20\<rparr>"
  have run: "get_page_ranges ?s 8 = Inr [(1, 8), (9, 16), (17, 20)]"
    by (simp add: get_page_ranges_def py_range_def range_len_def upt_rec)
  from page_ranges_partition [of 8 ?s] run show ?thesis by simp
qed

text \<open>
  C15. The page numbers of the ranges, read in order, are exactly
  \<open>1, 2, \<dots>, total\<close>: every page is in one range and in one only.
\<close>

theorem page_ranges_cover:
  assumes "0 < pps" and "0 \<le> total_pages self" and "get_page_ranges self pps = Inr rs"
  shows "concat (map (\<lambda>(a, b). [a..b]) rs) = [1..total_pages self]"
proof -
  from assms have p: "is_partition_plan (total_pages self) pps rs"
    by (auto simp: get_page_ranges_pos plan_is_partition)
  then show ?thesis by (rule partition_plan_cover)
qed

theorem page_ranges_cover_witness:
  "get_page_ranges \<lparr>input_file = Path ''doc.pdf'', reader = None, total_pages = 9\<rparr> 3
     = Inr [(1, 3), (4, 6), (7, 9)]
   \<and> concat (map (\<lambda>(a, b). [a..b]) [(1, 3), (4, 6), (7, 9)]) = [1..9]"
proof -
  let ?s = "\<lparr>input_file = Path ''doc.pdf'', reader = None, total_pages = 9\<rparr>"
  have run: "get_page_ranges ?s 3 = Inr [(1, 3), (4, 6), (7, 9)]"
    by (simp add: get_page_ranges_def py_range_def range_len_def upt_rec)
  from page_ranges_cover [of 3 ?s, OF _ _ run] run show ?thesis by simp
qed

section \<open>Validation and the summary of the plan\<close>

lemma validate_split_parameters_iff:
  "fst (validate_split_parameters self pps) \<longleftrightarrow> 0 < pps \<and> pps < total_pages self"
  by (auto simp: validate_split_parameters_def)

lemma two_parts:
  fixes tot pps :: int
  assumes "0 < pps" and "pps < tot"
  shows "2 \<le> range_len 0 tot pps"
proof -
  have "2 * pps \<le> tot + pps - 1" using assms by simp
  then have "(2 * pps) div pps \<le> (tot + pps - 1) div pps"
    using assms(1) by (intro zdiv_mono1) simp_all
  then have "2 \<le> (tot + pps - 1) div pps" using assms(1) by simp
  with assms show ?thesis by (simp add: range_len_ceil)
qed

text \<open>
  C22. Parameters that \<open>validate_split_parameters\<close> accepts give a real
  split: \<open>_get_page_ranges\<close> then returns a partition plan of the document
  with at least two ranges.
\<close>

theorem validated_split_two_parts:
  assumes "fst (validate_split_parameters self pps)"
  shows "\<exists>rs. get_page_ranges self pps = Inr rs
           \<and> is_partition_plan (total_pages self) pps rs \<and> 2 \<le> length rs"
proof -
  from assms have p: "0 < pps" "pps < total_pages self"
    by (simp_all add: validate_split_parameters_iff)
  then show ?thesis
    by (simp add: get_page_ranges_pos plan_is_partition two_parts)
qed

theorem validated_split_two_parts_witness:
  "\<exists>rs. get_page_ranges ex_splitter 2 = Inr rs
         \<and> is_partition_plan (total_pages ex_splitter) 2 rs \<and> 2 \<le> length rs"
  using validated_split_two_parts [of ex_splitter 2]
  by (simp add: validate_split_parameters_def ex_splitter_def)

lemma last_plan_range_size:
  fixes tot pps :: int
  assumes "0 < pps" and "0 < tot" and "n = range_len 0 tot pps"
  shows "range_size (plan_range pps tot (n - 1)) = (if tot mod pps = 0 then pps else tot mod pps)"
proof -
  have n: "int n = tot div pps + (if tot mod pps = 0 then 0 else 1)" "0 < n"
    using assms ceil_div_cases [OF assms(1), of tot] ceil_div_pos [OF assms(1,2)]
    by (simp_all add: range_len_ceil)
  then have k: "int (n - 1) = int n - 1" by simp
  have d: "tot = tot div pps * pps + tot mod pps" by simp
  have m: "0 \<le> tot mod pps" "tot mod pps < pps" using assms(1) by simp_all
  show ?thesis
  proof (cases "tot mod pps = 0")
    case True
    with d have "tot = tot div pps * pps" by simp
    with True n k show ?thesis
      by (simp add: range_size_def plan_range_def algebra_simps)
  next
    case False
    with n k have e: "int (n - 1) = tot div pps" by simp
    have "(tot div pps + 1) * pps = tot div pps * pps + pps" by (simp add: algebra_simps)
    with d m have "min ((tot div pps + 1) * pps) tot = tot" by linarith
    with False e show ?thesis
      by (simp add: range_size_def plan_range_def minus_div_mult_eq_mod)
  qed
qed

text \<open>
  C29. For a positive \<open>pages_per_split\<close> and a document with pages, the
  summary that \<open>calculate_split_info\<close> returns agrees with its own list of
  ranges: \<open>num_splits\<close> is the number of ranges, \<open>last_split_pages\<close> the
  size of the last range, and the ranges are a partition plan of the document.
\<close>

theorem calculate_split_info_consistent:
  assumes "0 < pps" and "0 < total_pages self"
  shows "\<exists>si. calculate_split_info self pps = Inr si
           \<and> is_partition_plan (total_pages self) pps (ranges si)
           \<and> num_splits si = int (length (ranges si))
           \<and> last_split_pages si = range_size (last (ranges si))
           \<and> info_total_pages si = total_pages self \<and> info_pages_per_split si = pps"
proof -
  let ?tot = "total_pages self"
  let ?n = "range_len 0 ?tot pps"
  let ?rs = "map (plan_range pps ?tot) [0..<?n]"
  have n: "0 < ?n" using assms by (simp add: range_len_pos_iff)
  then have "last ?rs = plan_range pps ?tot (?n - 1)"
    by (simp add: last_map last_upt)
  moreover have "range_size (plan_range pps ?tot (?n - 1))
      = (if ?tot mod pps = 0 then pps else ?tot mod pps)"
    by (rule last_plan_range_size [OF assms refl])
  ultimately have "range_size (last ?rs) = (if ?tot mod pps = 0 then pps else ?tot mod pps)"
    by (simp only:)
  moreover have "int ?n = (?tot + pps - 1) div pps"
    using assms ceil_div_pos [of pps ?tot] by (simp add: range_len_ceil)
  ultimately show ?thesis
    using assms
    by (simp add: calculate_split_info_def get_page_ranges_pos plan_is_partition Let_def)
qed

theorem calculate_split_info_consistent_witness:
  "\<exists>si. calculate_split_info ex_splitter 2 = Inr si
         \<and> is_partition_plan (total_pages ex_splitter) 2 (ranges si)
         \<and> num_splits si = int (length (ranges si))
         \<and> last_split_pages si = range_size (last (ranges si))
         \<and> info_total_pages si = total_pages ex_splitter \<and> info_pages_per_split si = 2"
  using calculate_split_info_consistent [of 2 ex_splitter] by (simp add: ex_splitter_def)

text \<open>
  For a document without pages the summary is not consistent in this sense:
  there is no range, yet the last file is announced with \<open>pages_per_split\<close>
  pages.
\<close>

lemma calculate_split_info_empty:
  assumes "0 < pps" and "total_pages self = 0"
  shows "calculate_split_info self pps =
           Inr \<lparr>info_total_pages = 0, info_pages_per_split = pps, num_splits = 0,
                last_split_pages = pps, ranges = []\<rparr>"
  using assms
  by (simp add: calculate_split_info_def get_page_ranges_pos range_len_def Let_def div_pos_pos_trivial)

text \<open>
  C18. The ranges implement cutting a list into blocks: for every list with
  \<open>total_pages\<close> elements, the slices of the list along the ranges of
  \<open>_get_page_ranges\<close> are the list cut into consecutive blocks of
  \<open>pages_per_split\<close> elements.
\<close>

theorem page_ranges_refine_chunks:
  assumes "0 < pps" and "total_pages self = int (length xs)"
    and "get_page_ranges self pps = Inr rs"
  shows "map (range_pages xs) rs = chunks (nat pps) xs"
  using assms plan_pages_chunks [of "nat pps" xs] by (auto simp: get_page_ranges_pos)

theorem page_ranges_refine_chunks_witness:
  "map (range_pages (pages ex_doc)) [(1, 2), (3, 4), (5, 5)] = chunks (nat 2) (pages ex_doc)"
proof -
  have "get_page_ranges ex_splitter 2 = Inr [(1, 2), (3, 4), (5, 5)]"
    by (simp add: ex_splitter_def get_page_ranges_def py_range_def range_len_def upt_rec)
  with page_ranges_refine_chunks [of 2 ex_splitter "pages ex_doc"] show ?thesis
    by (simp add: ex_splitter_def ex_doc_def)
qed

section \<open>Loading\<close>

lemma load_pdf_cases:
  obtains (unreadable) e where "pdf_reader w (Path (path_str (input_file self))) = Inl e"
      "load_pdf self w = (False, self)"
  | (locked) d e where "pdf_reader w (Path (path_str (input_file self))) = Inr d"
      "reader_pages d = Inl e" "load_pdf self w = (False, self\<lparr>reader := Some d\<rparr>)"
  | (empty) d where "pdf_reader w (Path (path_str (input_file self))) = Inr d"
      "reader_pages d = Inr []" "load_pdf self w = (False, self\<lparr>reader := Some d, total_pages := 0\<rparr>)"
  | (ok) d where "pdf_reader w (Path (path_str (input_file self))) = Inr d"
      "reader_pages d = Inr (pages d)" "pages d \<noteq> []"
      "load_pdf self w = (True, self\<lparr>reader := Some d, total_pages := int (length (pages d))\<rparr>)"
proof (cases "pdf_reader w (Path (path_str (input_file self)))")
  case (Inl e)
  then show ?thesis using unreadable by (simp add: load_pdf_def)
next
  case (Inr d)
  show ?thesis
  proof (cases "reader_pages d")
    case (Inl e)
    with Inr show ?thesis using locked by (simp add: load_pdf_def)
  next
    case ps: (Inr ps)
    then have eq: "ps = pages d" by (auto simp: reader_pages_def split: if_splits)
    show ?thesis
    proof (cases "ps = []")
      case True
      with Inr ps show ?thesis using empty by (simp add: load_pdf_def Let_def)
    next
      case False
      with Inr ps eq show ?thesis using ok by (simp add: load_pdf_def Let_def)
    qed
  qed
qed

lemma load_pdf_input_file [simp]: "input_file (snd (load_pdf self w)) = input_file self"
  by (cases rule: load_pdf_cases [of w self]) simp_all

lemma load_pdf_True:
  assumes "load_pdf self w = (True, self')" and "wf_path (input_file self)"
  shows "\<exists>rd. pdf_reader w (input_file self) = Inr rd \<and> loaded self' rd \<and> pages rd \<noteq> []"
  using assms
  by (cases rule: load_pdf_cases [of w self])
    (auto simp: loaded_def reader_pages_def Path_path_str split: if_splits)

section \<open>The information dictionary\<close>

lemma st_size_exists: "is_ok (st_size sz w p) \<longleftrightarrow> path_exists w p"
  by (simp add: st_size_def path_exists_def split: option.splits)

lemma st_size_pdf:
  "pdf_reader w p = Inr rd \<Longrightarrow> st_size sz w p = Inr (unat (sz p (PdfFile rd)))"
  by (auto simp: st_size_def pdf_reader_def split: option.splits node.splits)

lemma distinct_metadata_entries [simp]:
  "map fst (metadata_entries md) = [''title'', ''author'', ''creator'', ''subject'']"
  by (simp add: metadata_entries_def)

lemma get_pdf_info_loaded:
  assumes "loaded self rd" and "pdf_reader w (input_file self) = Inr rd"
  shows "get_pdf_info self sz w =
           Inr ([(''total_pages'', IntValue (int (length (pages rd)))),
                 (''encrypted'', BoolValue (encrypted rd)),
                 (''file_size_mb'',
                  FloatValue (of_nat (round53 (unat (sz (input_file self) (PdfFile rd)))) / 1048576))]
                @ (case metadata rd of
                     None \<Rightarrow> []
                   | Some md \<Rightarrow> if md \<noteq> [] then metadata_entries md else []))"
  using assms(1) st_size_pdf [OF assms(2), of sz]
  by (simp add: get_pdf_info_def loaded_def is_encrypted_def reader_metadata_def megabytes_unat
      split: option.splits)

lemma get_pdf_info_fails:
  "get_pdf_info self sz w = Inl e \<longleftrightarrow>
     reader self \<noteq> None \<and> \<not> path_exists w (input_file self) \<and> e = FileNotFoundError"
  by (auto simp: get_pdf_info_def st_size_def path_exists_def Let_def megabytes_unat
      split: option.splits sum.splits)

lemma get_pdf_info_keys:
  assumes "get_pdf_info self sz w = Inr info"
  shows "distinct (map fst info)"
    and "info = [] \<longleftrightarrow> reader self = None"
    and "reader self \<noteq> None \<Longrightarrow>
           take 3 (map fst info) = [''total_pages'', ''encrypted'', ''file_size_mb'']"
  using assms
  by (auto simp: get_pdf_info_def Let_def split: option.splits sum.splits if_splits)

inductive splitter_reach :: "string \<Rightarrow> splitter \<Rightarrow> bool" for s where
  created: "splitter_reach s (PDFSplitter s)"
| reloaded: "splitter_reach s self \<Longrightarrow> splitter_reach s (snd (load_pdf self w))"

definition splitter_inv :: "string \<Rightarrow> splitter \<Rightarrow> bool" where
  "splitter_inv s self \<longleftrightarrow>
     input_file self = Path s \<and> 0 \<le> total_pages self \<and>
     (0 < total_pages self \<longrightarrow> reader self \<noteq> None)"

lemma splitter_inv_created: "splitter_inv s (PDFSplitter s)"
  by (simp add: splitter_inv_def PDFSplitter_def)

lemma splitter_inv_load_pdf: "splitter_inv s self \<Longrightarrow> splitter_inv s (snd (load_pdf self w))"
  by (cases rule: load_pdf_cases [of w self]) (simp_all add: splitter_inv_def)

lemma splitter_reach_input: "splitter_reach s self \<Longrightarrow> input_file self = Path s"
  by (induction rule: splitter_reach.induct) (simp_all add: PDFSplitter_def)

text \<open>
  C28. Every state that an object can reach from its constructor by calls of
  \<open>load_pdf\<close>, on whatever files, satisfies the invariant: the input path is
  the parsed constructor argument, the page count is not negative, and a
  positive page count comes with a reader.
\<close>

theorem splitter_reach_invariant:
  assumes "splitter_reach s self"
  shows "splitter_inv s self"
  using assms
  by (induction rule: splitter_reach.induct) (simp_all add: splitter_inv_created splitter_inv_load_pdf)

theorem splitter_reach_invariant_witness:
  "splitter_inv ''doc.pdf'' (snd (load_pdf (snd (load_pdf (PDFSplitter ''doc.pdf'') ex_world)) ex_world))"
  using splitter_reach_invariant [OF reloaded [OF reloaded [OF created]]] .

text \<open>
  C19. When \<open>load_pdf\<close> returns \<open>True\<close>, the object holds the document
  stored at the input path, readable, with its real page count, which is
  positive: the state the split relies on.
\<close>

theorem load_pdf_loaded:
  assumes "splitter_reach s self" and "fst (load_pdf self w)"
  shows "\<exists>rd. pdf_reader w (Path s) = Inr rd \<and> loaded (snd (load_pdf self w)) rd
           \<and> 0 < total_pages (snd (load_pdf self w))"
proof -
  from splitter_reach_input [OF assms(1)] have p: "input_file self = Path s" .
  obtain self' where l: "load_pdf self w = (True, self')"
    using assms(2) by (cases "load_pdf self w") auto
  from load_pdf_True [OF l] p obtain rd where
    "pdf_reader w (Path s) = Inr rd" "loaded self' rd" "pages rd \<noteq> []" by auto
  with l show ?thesis by (auto simp: loaded_def)
qed

lemma ex_load: "load_pdf (PDFSplitter ''doc.pdf'') ex_world = (True, ex_splitter)"
  by (simp add: load_pdf_def PDFSplitter_def ex_world_def ex_splitter_def ex_doc_def Path_def
      path_str_def pdf_reader_def lookup_node_def reader_pages_def)

theorem load_pdf_loaded_witness:
  "\<exists>rd. pdf_reader ex_world (Path ''doc.pdf'') = Inr rd
         \<and> loaded (snd (load_pdf (PDFSplitter ''doc.pdf'') ex_world)) rd
         \<and> 0 < total_pages (snd (load_pdf (PDFSplitter ''doc.pdf'') ex_world))"
  using load_pdf_loaded [OF created, of "''doc.pdf''" ex_world] by (simp add: ex_load)

definition ex_locked_world :: world where
  "ex_locked_world =
     \<lparr>fsys = fmupd (PurePath False [''doc.pdf''])
               (PdfFile \<lparr>pages = [1, 2, 3], encrypted = True, needs_password = True, metadata = None\<rparr>)
               fmempty,
      denied = {||}\<rparr>"

text \<open>
  C40. \<open>load_pdf\<close> replaces the reader before it reads the pages. When the
  document at the input path can be opened and its pages cannot be read,
  \<open>load_pdf\<close> returns \<open>False\<close> and leaves an object that holds the new
  reader and the page count it had before: the count of a document loaded
  earlier, if there was one.
\<close>

theorem load_pdf_locked_keeps_count:
  assumes "splitter_reach s self" and "pdf_reader w (Path s) = Inr rd"
    and "reader_pages rd = Inl e"
  shows "load_pdf self w = (False, self\<lparr>reader := Some rd\<rparr>)
         \<and> total_pages (snd (load_pdf self w)) = total_pages self
         \<and> splitter_reach s (snd (load_pdf self w))"
proof -
  from splitter_reach_input [OF assms(1)] have "Path (path_str (input_file self)) = Path s"
    by (simp add: Path_path_str)
  with assms(2,3) have "load_pdf self w = (False, self\<lparr>reader := Some rd\<rparr>)"
    by (simp add: load_pdf_def)
  with reloaded [OF assms(1), of w] show ?thesis by simp
qed

theorem load_pdf_locked_keeps_count_witness:
  "load_pdf ex_splitter ex_locked_world =
     (False, ex_splitter\<lparr>reader := Some \<lparr>pages = [1, 2, 3], encrypted = True,
                                          needs_password = True, metadata = None\<rparr>\<rparr>)
   \<and> total_pages (snd (load_pdf ex_splitter ex_locked_world)) = 5
   \<and> map_option (\<lambda>d. length (pages d)) (reader (snd (load_pdf ex_splitter ex_locked_world)))
       = Some 3"
proof -
  have "splitter_reach ''doc.pdf'' ex_splitter"
    using reloaded [OF created, of "''doc.pdf''" ex_world] by (simp add: ex_load)
  moreover have "pdf_reader ex_locked_world (Path ''doc.pdf'') =
      Inr \<lparr>pages = [1, 2, 3], encrypted = True, needs_password = True, metadata = None\<rparr>"
    by (simp add: ex_locked_world_def Path_def pdf_reader_def lookup_node_def)
  ultimately show ?thesis
    using load_pdf_locked_keeps_count [of "''doc.pdf''" ex_splitter ex_locked_world _ PdfReadError]
    by (simp add: reader_pages_def ex_splitter_def)
qed

end
