(* ===== verification/Split_Run.thy ===== *)
theory Split_Run
  imports Pdf_Splitter
begin

text \<open>
  What a run of \<open>split_pdf\<close> does to the files. The loop is followed job by
  job: a job is an index with its page range, it is carried out when the range
  lies in the document, an output path exists for the index and the path can
  be written. \<open>overlay\<close> describes the name space after a list of writes (the
  last write to a path wins), \<open>part_files\<close> the files a complete run writes:
  the \<open>i\<close>-th chunk of the pages at the \<open>i\<close>-th output path.
\<close>

section \<open>Preconditions of a write\<close>

definition can_write :: "world \<Rightarrow> path \<Rightarrow> bool" where
  "can_write w p \<longleftrightarrow> \<not> is_dir w p \<and> is_dir w (parent p) \<and> p |\<notin>| denied w"

lemma can_write_cong:
  "fsys w' = fsys w \<Longrightarrow> denied w' = denied w \<Longrightarrow> can_write w' p = can_write w p"
  by (simp add: can_write_def is_dir_def lookup_node_def)

lemma lookup_node_cong: "fsys w' = fsys w \<Longrightarrow> lookup_node w' p = lookup_node w p"
  by (simp add: lookup_node_def)

lemma can_write_open_wb: "can_write w p \<Longrightarrow> \<exists>w'. open_wb w p d = Inr w'"
  using open_wb_ok_iff [of w p d] by (simp add: can_write_def is_ok_iff)

lemma open_wb_ok_can_write: "is_ok (open_wb w p d) \<longleftrightarrow> can_write w p"
  by (simp add: open_wb_ok_iff can_write_def)

lemma open_wb_can_write:
  "open_wb w p d = Inr w' \<Longrightarrow> can_write w' q \<longleftrightarrow> can_write w q"
  by (simp add: can_write_def open_wb_is_dir open_wb_denied_unchanged)

lemma page_numbers_upt:
  assumes "1 \<le> a"
  shows "map nat (page_numbers a b) = [nat (a - 1)..<nat b]"
proof (rule nth_equalityI)
  show "length (map nat (page_numbers a b)) = length [nat (a - 1)..<nat b]"
    using assms by (simp add: page_numbers_def)
next
  fix i assume "i < length (map nat (page_numbers a b))"
  then show "map nat (page_numbers a b) ! i = [nat (a - 1)..<nat b] ! i"
    using assms by (simp add: page_numbers_def nat_add_distrib)
qed

lemma add_pages_ok:
  assumes "\<not> needs_password rd" and "1 \<le> a" and "b \<le> int (length (pages rd))"
  shows "add_pages rd a b = Inr (range_pages (pages rd) (a, b))"
proof -
  have "traverse (page_at rd) (page_numbers a b) =
        Inr (map (\<lambda>i. pages rd ! nat i) (page_numbers a b))"
  proof (rule traverse_all_ok)
    fix i assume "i \<in> set (page_numbers a b)"
    with assms(2,3) have "0 \<le> i" "i < int (length (pages rd))"
      by (auto simp: page_numbers_def)
    with assms(1) show "page_at rd i = Inr (pages rd ! nat i)"
      by (simp add: page_at_def reader_pages_def py_index_in_range)
  qed
  moreover have "map (\<lambda>i. pages rd ! nat i) (page_numbers a b) =
                 map (\<lambda>k. pages rd ! k) (map nat (page_numbers a b))"
    by (simp add: o_def)
  moreover have "nat b \<le> length (pages rd)" using assms(3) by simp
  ultimately show ?thesis
    using assms(2) by (simp add: add_pages_def page_numbers_upt range_pages_def slice_map_nth)
qed

definition job_file :: "path list \<Rightarrow> pdf_doc \<Rightarrow> nat \<times> int \<times> int \<Rightarrow> path \<times> node" where
  "job_file outs rd = (\<lambda>(i, a, b). (outs ! i, PdfFile (written_pdf (range_pages (pages rd) (a, b)))))"

definition overlay :: "(path \<times> node) list \<Rightarrow> world \<Rightarrow> path \<Rightarrow> node option" where
  "overlay ws w q = (case map_of (rev ws) q of None \<Rightarrow> lookup_node w q | Some nd \<Rightarrow> Some nd)"

definition job_ok :: "pdf_doc \<Rightarrow> path list \<Rightarrow> world \<Rightarrow> nat \<times> int \<times> int \<Rightarrow> bool" where
  "job_ok rd outs w = (\<lambda>(i, a, b).
     1 \<le> a \<and> b \<le> int (length (pages rd)) \<and> i < length outs \<and> can_write w (outs ! i))"

lemma overlay_Nil [simp]: "overlay [] w q = lookup_node w q"
  by (simp add: overlay_def)

lemma overlay_Cons:
  assumes "\<And>q. lookup_node w2 q = (if q = fst x then Some (snd x) else lookup_node w q)"
  shows "overlay (x # ws) w q = overlay ws w2 q"
  using assms by (cases x) (simp add: overlay_def map_add_def split: option.splits)

lemma split_loop_step:
  assumes "cb_frame cb" and "\<not> needs_password rd" and "job_ok rd outs w (i, a, b)"
  shows "\<exists>w2. split_loop rd cb n outs ((i, a, b) # rest) w = split_loop rd cb n outs rest w2
           \<and> denied w2 = denied w
           \<and> (\<forall>q. lookup_node w2 q =
                  (if q = outs ! i then Some (snd (job_file outs rd (i, a, b))) else lookup_node w q))
           \<and> (\<forall>q. can_write w2 q = can_write w q)"
proof -
  let ?w1 = w
  let ?d = "written_pdf (range_pages (pages rd) (a, b))"
  from assms(3) have a: "1 \<le> a" "b \<le> int (length (pages rd))" "i < length outs"
    and cw: "can_write w (outs ! i)"
    by (simp_all add: job_ok_def)
  from cw assms(1) obtain w2 where w2: "open_wb ?w1 (outs ! i) ?d = Inr w2"
    using can_write_open_wb [of ?w1 "outs ! i" ?d] by auto
  have run: "split_loop rd cb n outs ((i, a, b) # rest) w = split_loop rd cb n outs rest w2"
    using a w2 assms(1,2) by (simp add: add_pages_ok Let_def)
  have "denied w2 = denied w"
    using open_wb_denied_unchanged [OF w2] assms(1) by simp
  moreover have "\<forall>q. lookup_node w2 q =
      (if q = outs ! i then Some (snd (job_file outs rd (i, a, b))) else lookup_node w q)"
    using assms(1) by (simp add: open_wb_lookup [OF w2] job_file_def)
  moreover have "\<forall>q. can_write w2 q = can_write w q"
    using assms(1) by (simp add: open_wb_can_write [OF w2])
  ultimately show ?thesis using run by blast
qed

lemma split_loop_ok:
  assumes "cb_frame cb" and "\<not> needs_password rd" and "list_all (job_ok rd outs w) jobs"
  shows "\<exists>w'. split_loop rd cb n outs jobs w = (None, w') \<and> denied w' = denied w
           \<and> (\<forall>q. lookup_node w' q = overlay (map (job_file outs rd) jobs) w q)
           \<and> (\<forall>q. can_write w' q = can_write w q)"
  using assms(3)
proof (induction jobs arbitrary: w)
  case Nil
  then show ?case by simp
next
  case (Cons job jobs)
  obtain i a b where job: "job = (i, a, b)" by (cases job) auto
  with Cons.prems have "job_ok rd outs w (i, a, b)" by simp
  from split_loop_step [OF assms(1,2) this, of n jobs]
  obtain w2 where run: "split_loop rd cb n outs ((i, a, b) # jobs) w = split_loop rd cb n outs jobs w2"
    and d: "denied w2 = denied w"
    and l: "\<And>q. lookup_node w2 q =
              (if q = outs ! i then Some (snd (job_file outs rd (i, a, b))) else lookup_node w q)"
    and c: "\<And>q. can_write w2 q = can_write w q"
    by blast
  from Cons.prems c have "list_all (job_ok rd outs w2) jobs"
    by (auto simp: list_all_iff job_ok_def)
  from Cons.IH [OF this] obtain w' where
    w': "split_loop rd cb n outs jobs w2 = (None, w')" "denied w' = denied w2"
        "\<And>q. lookup_node w' q = overlay (map (job_file outs rd) jobs) w2 q"
        "\<And>q. can_write w' q = can_write w2 q"
    by blast
  have "fst (job_file outs rd (i, a, b)) = outs ! i" by (simp add: job_file_def)
  with l have "\<And>q. overlay (job_file outs rd (i, a, b) # map (job_file outs rd) jobs) w q
                  = overlay (map (job_file outs rd) jobs) w2 q"
    by (intro overlay_Cons) simp
  with w' run d c job show ?case by simp
qed

lemma split_loop_append:
  "split_loop rd cb n outs (xs @ ys) w =
     (case split_loop rd cb n outs xs w of
        (None, w1) \<Rightarrow> split_loop rd cb n outs ys w1
      | (Some e, w1) \<Rightarrow> (Some e, w1))"
proof (induction xs arbitrary: w)
  case Nil
  then show ?case by simp
next
  case (Cons x xs)
  obtain i a b where "x = (i, a, b)" by (cases x) auto
  with Cons show ?case by (simp add: Let_def split: sum.splits prod.splits option.splits)
qed

lemma split_loop_job_fails:
  assumes "cb_frame cb" and "\<not> needs_password rd"
    and "1 \<le> a" and "b \<le> int (length (pages rd))"
    and "i < length outs \<longrightarrow> \<not> can_write w (outs ! i)"
  shows "\<exists>e w1. split_loop rd cb n outs ((i, a, b) # rest) w = (Some e, w1)
           \<and> fsys w1 = fsys w \<and> denied w1 = denied w"
proof (cases "i < length outs")
  case True
  let ?w1 = w
  let ?d = "written_pdf (range_pages (pages rd) (a, b))"
  from True assms(1,5) have "\<not> is_ok (open_wb ?w1 (outs ! i) ?d)"
    by (simp add: open_wb_ok_can_write)
  then obtain e where "open_wb ?w1 (outs ! i) ?d = Inl e"
    by (cases "open_wb ?w1 (outs ! i) ?d") simp_all
  with True assms(1-4) show ?thesis by (simp add: add_pages_ok Let_def)
next
  case False
  with assms(1-4) show ?thesis by (simp add: add_pages_ok Let_def)
qed

definition part_files :: "int \<Rightarrow> page list \<Rightarrow> path list \<Rightarrow> (path \<times> node) list" where
  "part_files pps ps outs = zip outs (map (\<lambda>c. PdfFile (written_pdf c)) (chunks (nat pps) ps))"

definition file_pages :: "world \<Rightarrow> path \<Rightarrow> page list" where
  "file_pages w p = (case pdf_reader w p of Inr d \<Rightarrow> pages d | Inl e \<Rightarrow> [])"

lemma map_of_rev_distinct: "distinct (map fst xs) \<Longrightarrow> map_of (rev xs) = map_of xs"
  by (subst map_of_inject_set) (simp_all add: rev_map [symmetric])

lemma jobs_enumerate:
  assumes "length rs \<le> length outs"
  shows "map (job_file outs rd) (enumerate 0 rs) =
         zip outs (map (\<lambda>r. PdfFile (written_pdf (range_pages (pages rd) r))) rs)"
  using assms
  by (intro nth_equalityI) (simp_all add: nth_enumerate_eq job_file_def)

lemma plan_jobs_prefix:
  assumes "0 < pps" and "k \<le> range_len 0 tot pps" and "tot = int (length (pages rd))"
    and "k \<le> length outs" and "list_all (can_write w) (take k outs)"
  shows "list_all (job_ok rd outs w) (enumerate 0 (map (plan_range pps tot) [0..<k]))"
proof -
  have "job_ok rd outs w (j, plan_range pps tot j)" if "j < k" for j
  proof -
    from that assms(2) assms(1) have "int j * pps < tot" by (simp add: range_len_bound)
    moreover from that assms(4,5) have "can_write w (outs ! j)" "j < length outs"
      by (simp_all add: list_all_length)
    ultimately show ?thesis
      using assms(1,3) by (simp add: job_ok_def plan_range_def)
  qed
  then show ?thesis
    by (simp add: list_all_length nth_enumerate_eq)
qed

lemma split_pdf_run:
  assumes "loaded self rd" and "0 < pps" and "cb_frame cb"
    and "n = range_len 0 (total_pages self) pps"
    and "n \<le> length outs" and "list_all (can_write w) (take n outs)"
  shows "\<exists>w'. split_pdf self pps outs cb w = (True, w') \<and> denied w' = denied w
           \<and> (\<forall>q. lookup_node w' q = overlay (part_files pps (pages rd) outs) w q)"
proof -
  let ?tot = "total_pages self"
  let ?rs = "map (plan_range pps ?tot) [0..<n]"
  from assms(1) have rd: "reader self = Some rd" "\<not> needs_password rd"
    and tot: "?tot = int (length (pages rd))"
    by (simp_all add: loaded_def)
  have rs: "get_page_ranges self pps = Inr ?rs"
    using assms(2,4) by (simp add: get_page_ranges_pos)
  have "list_all (job_ok rd outs w) (enumerate 0 ?rs)"
    using plan_jobs_prefix [OF assms(2) _ tot assms(5,6)] assms(4) by simp
  from split_loop_ok [OF assms(3) rd(2) this, of "int (length ?rs)"]
  obtain w' where w': "split_loop rd cb (int (length ?rs)) outs (enumerate 0 ?rs) w = (None, w')"
      "denied w' = denied w"
      "\<And>q. lookup_node w' q = overlay (map (job_file outs rd) (enumerate 0 ?rs)) w q"
    by blast
  have "map (range_pages (pages rd)) ?rs = chunks (nat pps) (pages rd)"
    using plan_pages_chunks [of "nat pps" "pages rd"] assms(2,4) tot by simp
  moreover have "map (\<lambda>r. PdfFile (written_pdf (range_pages (pages rd) r))) ?rs =
                 map (\<lambda>c. PdfFile (written_pdf c)) (map (range_pages (pages rd)) ?rs)"
    by (simp add: o_def)
  ultimately have "map (job_file outs rd) (enumerate 0 ?rs) = part_files pps (pages rd) outs"
    using assms(5) by (simp only: jobs_enumerate part_files_def length_map length_upt diff_zero)
  with w' rs rd(1) show ?thesis by (simp add: split_pdf_def)
qed

lemma overlay_distinct_nth:
  assumes "distinct (map fst kv)" and "i < length kv"
  shows "overlay kv w (fst (kv ! i)) = Some (snd (kv ! i))"
proof -
  from assms have m: "map_of kv (fst (kv ! i)) = Some (snd (kv ! i))"
    by (metis map_of_is_SomeI nth_mem prod.collapse)
  show ?thesis
    unfolding overlay_def map_of_rev_distinct [OF assms(1)] m by simp
qed

lemma overlay_other:
  "q \<notin> fst ` set kv \<Longrightarrow> overlay kv w q = lookup_node w q"
  by (simp add: overlay_def map_of_eq_None_iff [THEN iffD2] image_iff split: option.splits)

lemma length_chunks: "0 < n \<Longrightarrow> length (chunks n xs) = (length xs + n - 1) div n"
  by (simp add: chunks_closed)

lemma part_files_props:
  assumes "0 < pps" and "n = range_len 0 (int (length ps)) pps" and "n \<le> length outs"
  shows "length (part_files pps ps outs) = n"
    and "map fst (part_files pps ps outs) = take n outs"
    and "map snd (part_files pps ps outs) = map (\<lambda>c. PdfFile (written_pdf c)) (chunks (nat pps) ps)"
proof -
  have len: "length (chunks (nat pps) ps) = n"
    using assms(1,2) range_len_nat [of "nat pps" "length ps"] by (simp add: length_chunks)
  with assms(3) show "length (part_files pps ps outs) = n"
    by (simp add: part_files_def)
  from len assms(3) show "map fst (part_files pps ps outs) = take n outs"
    by (simp add: part_files_def map_fst_zip_take)
  from len assms(3) show "map snd (part_files pps ps outs) =
      map (\<lambda>c. PdfFile (written_pdf c)) (chunks (nat pps) ps)"
    by (simp add: part_files_def map_snd_zip_take)
qed

lemmas ex_defs = ex_doc_def ex_splitter_def ex_world_def ex_outs_def

lemma ex_loaded: "loaded ex_splitter ex_doc"
  by (simp add: loaded_def ex_defs)

lemma ex_parts: "range_len 0 (total_pages ex_splitter) 2 = 3"
  by (simp add: range_len_def ex_defs)

lemma ex_can_write: "list_all (can_write ex_world) (take 3 ex_outs)"
  by (simp add: ex_defs can_write_def is_dir_def lookup_node_def parent_def)

text \<open>
  C11. If a readable document is loaded, \<open>pages_per_split\<close> is positive,
  the callback only reports, there is an output path for every part and each
  of them can be written, then
  \<open>split_pdf\<close> returns \<open>True\<close> and the name space afterwards is the one
  before with the \<open>i\<close>-th chunk of the pages stored at the \<open>i\<close>-th output
  path, for every part, and nothing else changed.
\<close>

theorem split_pdf_writes_parts:
  assumes "loaded self rd" and "0 < pps" and "cb_frame cb"
    and "n = range_len 0 (total_pages self) pps"
    and "n \<le> length outs" and "list_all (can_write w) (take n outs)"
  shows "fst (split_pdf self pps outs cb w) \<and>
         (\<forall>q. lookup_node (snd (split_pdf self pps outs cb w)) q
               = overlay (part_files pps (pages rd) outs) w q)"
  using split_pdf_run [OF assms] by auto

theorem split_pdf_writes_parts_witness:
  "fst (split_pdf ex_splitter 2 ex_outs None ex_world) \<and>
   (\<forall>q. lookup_node (snd (split_pdf ex_splitter 2 ex_outs None ex_world)) q
         = overlay (part_files 2 (pages ex_doc) ex_outs) ex_world q)"
  using split_pdf_writes_parts [OF ex_loaded _ _ ex_parts [symmetric] _ ex_can_write, of None]
  by (simp add: cb_frame_def ex_outs_def)

lemma split_pdf_part_node:
  assumes "loaded self rd" and "0 < pps" and "cb_frame cb"
    and "n = range_len 0 (total_pages self) pps"
    and "n \<le> length outs" and "list_all (can_write w) (take n outs)"
    and "distinct (take n outs)" and "i < n"
  shows "lookup_node (snd (split_pdf self pps outs cb w)) (outs ! i)
           = Some (PdfFile (written_pdf (chunks (nat pps) (pages rd) ! i)))"
proof -
  let ?kv = "part_files pps (pages rd) outs"
  from assms(1) have tot: "total_pages self = int (length (pages rd))" by (simp add: loaded_def)
  note pf = part_files_props [OF assms(2) assms(4) [unfolded tot] assms(5)]
  from split_pdf_run [OF assms(1-6)]
  have look: "\<And>q. lookup_node (snd (split_pdf self pps outs cb w)) q = overlay ?kv w q" by auto
  have len: "length (chunks (nat pps) (pages rd)) = n"
    using pf(1,3) by (metis length_map)
  from pf(1) assms(8) have "overlay ?kv w (fst (?kv ! i)) = Some (snd (?kv ! i))"
    using assms(7) pf(2) by (intro overlay_distinct_nth) simp_all
  moreover have "fst (?kv ! i) = outs ! i"
    using pf(1,2) assms(8) by (metis nth_map nth_take)
  moreover have "snd (?kv ! i) = PdfFile (written_pdf (chunks (nat pps) (pages rd) ! i))"
    using pf(1,3) assms(8) len by (metis nth_map)
  ultimately show ?thesis by (simp add: look)
qed

lemma split_pdf_file_pages:
  assumes "loaded self rd" and "0 < pps" and "cb_frame cb"
    and "n = range_len 0 (total_pages self) pps"
    and "n \<le> length outs" and "list_all (can_write w) (take n outs)"
    and "distinct (take n outs)"
  shows "map (file_pages (snd (split_pdf self pps outs cb w))) (take n outs)
           = chunks (nat pps) (pages rd)"
proof (rule nth_equalityI)
  let ?w' = "snd (split_pdf self pps outs cb w)"
  from assms(1) have tot: "total_pages self = int (length (pages rd))" by (simp add: loaded_def)
  note pf = part_files_props [OF assms(2) assms(4) [unfolded tot] assms(5)]
  have len: "length (chunks (nat pps) (pages rd)) = n"
    using pf(1,3) by (metis length_map)
  then show "length (map (file_pages ?w') (take n outs)) = length (chunks (nat pps) (pages rd))"
    using assms(5) by simp
  fix i assume "i < length (map (file_pages ?w') (take n outs))"
  with assms(5) have i: "i < n" by simp
  from split_pdf_part_node [OF assms i]
  show "map (file_pages ?w') (take n outs) ! i = chunks (nat pps) (pages rd) ! i"
    using i assms(5) by (simp add: file_pages_def pdf_reader_def written_pdf_def)
qed

lemma split_pdf_parts_exist:
  assumes "loaded self rd" and "0 < pps" and "cb_frame cb"
    and "n = range_len 0 (total_pages self) pps"
    and "n \<le> length outs" and "list_all (can_write w) (take n outs)"
    and "distinct (take n outs)"
  shows "list_all (path_exists (snd (split_pdf self pps outs cb w))) (take n outs)"
  using split_pdf_part_node [OF assms] assms(5)
  by (simp add: list_all_length path_exists_def)

text \<open>
  C5. No page is lost, duplicated or reordered: for a loaded readable
  document, a positive \<open>pages_per_split\<close>, a callback that only reports and
  distinct writable output paths, one per part, the pages of the files that
  \<open>split_pdf\<close> writes, read back in the order of the output paths, are the
  pages of the document.
\<close>

theorem split_pdf_pages_preserved:
  assumes "loaded self rd" and "0 < pps" and "cb_frame cb"
    and "n = range_len 0 (total_pages self) pps"
    and "n \<le> length outs" and "list_all (can_write w) (take n outs)"
    and "distinct (take n outs)"
  shows "concat (map (file_pages (snd (split_pdf self pps outs cb w))) (take n outs)) = pages rd"
  using split_pdf_file_pages [OF assms] assms(2) by (simp add: concat_chunks)

theorem split_pdf_pages_preserved_witness:
  "concat (map (file_pages (snd (split_pdf ex_splitter 2 ex_outs None ex_world))) (take 3 ex_outs))
     = pages ex_doc"
  using split_pdf_pages_preserved [OF ex_loaded _ _ ex_parts [symmetric] _ ex_can_write, of None]
  by (simp add: cb_frame_def ex_outs_def)

section \<open>What a run leaves alone\<close>

lemma split_loop_frame:
  assumes "cb_frame cb" and "q \<notin> set outs"
  shows "lookup_node (snd (split_loop rd cb n outs jobs w)) q = lookup_node w q
         \<and> denied (snd (split_loop rd cb n outs jobs w)) = denied w"
proof (induction jobs arbitrary: w)
  case Nil
  then show ?case by simp
next
  case (Cons job jobs)
  obtain i a b where job: "job = (i, a, b)" by (cases job) auto
  let ?w1 = w
  have step: "lookup_node w2 q = lookup_node w q \<and> denied w2 = denied w"
    if "py_index outs (int i) = Inr out" and "open_wb ?w1 out d = Inr w2" for out d w2
  proof -
    from that(1) have "out \<in> set outs" by (rule py_index_in_set)
    with assms(2) have "q \<noteq> out" by auto
    with open_wb_other [OF that(2)] open_wb_denied_unchanged [OF that(2)] assms(1)
    show ?thesis by simp
  qed
  show ?case
    using assms(1) job step Cons.IH
    by (auto simp: Let_def simp del: py_index_nat split: sum.splits)
qed

lemma split_pdf_snd:
  "snd (split_pdf self pps outs cb w) =
     (case reader self of
        None \<Rightarrow> w
      | Some rd \<Rightarrow>
          (case get_page_ranges self pps of
             Inl e \<Rightarrow> w
           | Inr rs \<Rightarrow> snd (split_loop rd cb (int (length rs)) outs (enumerate 0 rs) w)))"
  by (simp add: split_pdf_def split: option.splits sum.splits prod.splits)

lemma split_pdf_untouched:
  assumes "cb_frame cb" and "q \<notin> set outs"
  shows "lookup_node (snd (split_pdf self pps outs cb w)) q = lookup_node w q"
  using assms by (simp add: split_pdf_snd split_loop_frame split: option.splits sum.splits)

text \<open>
  C16. With a callback that only reports, whatever \<open>split_pdf\<close>
  returns, it touches no path but the output paths it was given: every other
  entry of the name space is as before, on success and on every failure.
\<close>

theorem split_pdf_frame:
  assumes "cb_frame cb" and "q \<notin> set output_files"
  shows "lookup_node (snd (split_pdf self pps output_files cb w)) q = lookup_node w q
         \<and> denied (snd (split_pdf self pps output_files cb w)) = denied w"
  using assms by (simp add: split_pdf_snd split_loop_frame split: option.splits sum.splits)

theorem split_pdf_frame_witness:
  "lookup_node (snd (split_pdf ex_splitter 2 ex_outs None ex_world)) (PurePath False [''doc.pdf''])
     = lookup_node ex_world (PurePath False [''doc.pdf''])
   \<and> denied (snd (split_pdf ex_splitter 2 ex_outs None ex_world)) = denied ex_world"
  using split_pdf_frame [of None "PurePath False [''doc.pdf'']" ex_outs ex_splitter 2 ex_world]
  by (simp add: cb_frame_def ex_outs_def)

section \<open>The first failure ends the run\<close>

lemma jobs_prefix_files:
  assumes "k \<le> length outs" and "k \<le> length rs"
  shows "map (job_file outs rd) (enumerate 0 (take k rs)) =
         take k (zip outs (map (\<lambda>r. PdfFile (written_pdf (range_pages (pages rd) r))) rs))"
  using assms
  by (intro nth_equalityI) (simp_all add: nth_enumerate_eq job_file_def)

lemma split_loop_prefix_fails:
  assumes "cb_frame cb" and "\<not> needs_password rd"
    and "list_all (job_ok rd outs w) pre"
    and "1 \<le> a" and "b \<le> int (length (pages rd))"
    and "i < length outs \<longrightarrow> \<not> can_write w (outs ! i)"
  shows "\<exists>e w'. split_loop rd cb m outs (pre @ (i, a, b) # rest) w = (Some e, w')
           \<and> (\<forall>q. lookup_node w' q = overlay (map (job_file outs rd) pre) w q)"
proof -
  from split_loop_ok [OF assms(1-3), of m]
  obtain w1 where w1: "split_loop rd cb m outs pre w = (None, w1)"
      "\<And>q. lookup_node w1 q = overlay (map (job_file outs rd) pre) w q"
      "\<And>q. can_write w1 q = can_write w q"
    by blast
  from split_loop_job_fails [OF assms(1,2,4,5), of i outs w1 m rest] assms(6) w1(3)
  obtain e w2 where w2: "split_loop rd cb m outs ((i, a, b) # rest) w1 = (Some e, w2)"
      "fsys w2 = fsys w1"
    by auto
  have "split_loop rd cb m outs (pre @ (i, a, b) # rest) w = (Some e, w2)"
    by (subst split_loop_append) (simp add: w1(1) w2(1) del: split_loop.simps)
  with w1(2) w2(2) show ?thesis by (simp add: lookup_node_cong [of w2 w1])
qed

lemma plan_prefix_files:
  assumes "0 < pps" and "tot = int (length (pages rd))"
    and "k \<le> length outs" and "k \<le> range_len 0 tot pps"
  shows "map (job_file outs rd) (enumerate 0 (take k (map (plan_range pps tot) [0..<range_len 0 tot pps])))
         = take k (part_files pps (pages rd) outs)"
proof -
  let ?rs = "map (plan_range pps tot) [0..<range_len 0 tot pps]"
  have "map (range_pages (pages rd)) ?rs = chunks (nat pps) (pages rd)"
    using plan_pages_chunks [of "nat pps" "pages rd"] assms(1,2) by simp
  then have "map (\<lambda>r. PdfFile (written_pdf (range_pages (pages rd) r))) ?rs =
             map (\<lambda>c. PdfFile (written_pdf c)) (chunks (nat pps) (pages rd))"
    by (metis (no_types, lifting) map_map o_def map_eq_conv)
  then show ?thesis
    using assms(3,4) by (simp add: jobs_prefix_files part_files_def)
qed

lemma split_pdf_abort:
  assumes "loaded self rd" and "0 < pps" and "cb_frame cb"
    and "k < range_len 0 (total_pages self) pps" and "k \<le> length outs"
    and "list_all (can_write w) (take k outs)"
    and "k < length outs \<longrightarrow> \<not> can_write w (outs ! k)"
  shows "\<exists>w'. split_pdf self pps outs cb w = (False, w')
           \<and> (\<forall>q. lookup_node w' q = overlay (take k (part_files pps (pages rd) outs)) w q)"
proof -
  let ?tot = "total_pages self"
  let ?rs = "map (plan_range pps ?tot) [0..<range_len 0 ?tot pps]"
  define m where "m = int (length ?rs)"
  from assms(1) have rd: "reader self = Some rd" "\<not> needs_password rd"
    and tot: "?tot = int (length (pages rd))"
    by (simp_all add: loaded_def)
  have split: "enumerate 0 ?rs =
      enumerate 0 (take k ?rs) @ (k, plan_range pps ?tot k) # enumerate (Suc k) (drop (Suc k) ?rs)"
    using enumerate_split [of k ?rs] assms(4) by simp
  have "take k ?rs = map (plan_range pps ?tot) [0..<k]"
    using assms(4) by (simp add: take_map)
  then have pre: "list_all (job_ok rd outs w) (enumerate 0 (take k ?rs))"
    using plan_jobs_prefix [OF assms(2) _ tot assms(5,6)] assms(4) by simp
  have "int k * pps < ?tot" using assms(2,4) by (simp add: range_len_bound)
  then have b: "1 \<le> int k * pps + 1" "min ((int k + 1) * pps) ?tot \<le> int (length (pages rd))"
    using assms(2) tot by simp_all
  from split_loop_prefix_fails [OF assms(3) rd(2) pre b assms(7), of m]
  obtain e w' where "split_loop rd cb m outs (enumerate 0 ?rs) w = (Some e, w')"
      "\<And>q. lookup_node w' q = overlay (map (job_file outs rd) (enumerate 0 (take k ?rs))) w q"
    unfolding split plan_range_def by blast
  moreover have "get_page_ranges self pps = Inr ?rs"
    using assms(2) by (simp add: get_page_ranges_pos)
  ultimately show ?thesis
    using rd(1) plan_prefix_files [OF assms(2) tot assms(5)] assms(4)
    by (simp add: split_pdf_def m_def)
qed

text \<open>
  So a run succeeds exactly when there is an output path for every part and
  each of them can be written.
\<close>

lemma first_unwritable:
  assumes "\<not> (n \<le> length outs \<and> list_all (can_write w) (take n outs))"
  obtains k where "k < n" and "k \<le> length outs" and "list_all (can_write w) (take k outs)"
    and "k < length outs \<longrightarrow> \<not> can_write w (outs ! k)"
proof -
  let ?P = "\<lambda>k. k < n \<and> (k < length outs \<longrightarrow> \<not> can_write w (outs ! k))"
  have "\<exists>k. ?P k"
  proof (cases "n \<le> length outs")
    case True
    with assms obtain j where "j < n" "\<not> can_write w (outs ! j)"
      by (auto simp: list_all_length)
    then show ?thesis by blast
  next
    case False
    then have "?P (length outs)" by simp
    then show ?thesis by blast
  qed
  then obtain k where k: "?P k" "\<forall>j<k. \<not> ?P j"
    using exists_least_iff [of ?P] by blast
  then have below: "\<forall>j<k. j < length outs \<and> can_write w (outs ! j)" by auto
  then have "k \<le> length outs" by (meson not_less_eq_eq le_less_linear less_irrefl)
  moreover from below this have "list_all (can_write w) (take k outs)"
    by (simp add: list_all_length)
  ultimately show ?thesis using k(1) that by blast
qed

lemma split_pdf_success_iff:
  assumes "loaded self rd" and "0 < pps" and "cb_frame cb"
    and "n = range_len 0 (total_pages self) pps"
  shows "fst (split_pdf self pps outs cb w) \<longleftrightarrow>
         n \<le> length outs \<and> list_all (can_write w) (take n outs)"
proof
  assume ok: "fst (split_pdf self pps outs cb w)"
  show "n \<le> length outs \<and> list_all (can_write w) (take n outs)"
  proof (rule ccontr)
    assume "\<not> ?thesis"
    then obtain k where "k < n" "k \<le> length outs" "list_all (can_write w) (take k outs)"
      "k < length outs \<longrightarrow> \<not> can_write w (outs ! k)"
      by (rule first_unwritable)
    with split_pdf_abort [OF assms(1-3), of k outs w] assms(4) ok show False by auto
  qed
next
  assume "n \<le> length outs \<and> list_all (can_write w) (take n outs)"
  with split_pdf_run [OF assms, of outs w] show "fst (split_pdf self pps outs cb w)" by auto
qed

definition ex_refusing :: world where
  "ex_refusing = ex_world\<lparr>denied := {|PurePath False [''b.pdf'']|}\<rparr>"

text \<open>
  C14. For a loaded readable document, a positive \<open>pages_per_split\<close> and
  a callback that only reports, the loop of \<open>split_pdf\<close> ends at the first
  part that cannot be written (no output path for it, or a path that cannot
  be written) when the parts before it can: the call
  returns \<open>False\<close>, the parts before it are on disk, complete, and no later
  part is written.
\<close>

theorem split_pdf_stops_at_first_failure:
  assumes "loaded self rd" and "0 < pps" and "cb_frame cb"
    and "k < range_len 0 (total_pages self) pps" and "k \<le> length outs"
    and "list_all (can_write w) (take k outs)"
    and "k < length outs \<longrightarrow> \<not> can_write w (outs ! k)"
  shows "\<not> fst (split_pdf self pps outs cb w) \<and>
         (\<forall>q. lookup_node (snd (split_pdf self pps outs cb w)) q
               = overlay (take k (part_files pps (pages rd) outs)) w q)"
  using split_pdf_abort [OF assms] by auto

theorem split_pdf_stops_at_first_failure_witness:
  "\<not> fst (split_pdf ex_splitter 2 ex_outs None ex_refusing) \<and>
   (\<forall>q. lookup_node (snd (split_pdf ex_splitter 2 ex_outs None ex_refusing)) q
         = overlay (take 1 (part_files 2 (pages ex_doc) ex_outs)) ex_refusing q)"
  using split_pdf_stops_at_first_failure [OF ex_loaded, of 2 None 1 ex_outs ex_refusing]
  by (simp add: cb_frame_def ex_parts ex_outs_def ex_refusing_def ex_world_def can_write_def
      is_dir_def lookup_node_def parent_def)

section \<open>A cap that is not positive\<close>

text \<open>
  C31. \<open>split_pdf\<close> does not check \<open>pages_per_split\<close> itself. With 0 the
  range raises, which the method catches: it returns \<open>False\<close>. With a negative
  number the range is empty: the method writes nothing and returns \<open>True\<close>
  when a document is loaded. The name space is unchanged in both cases.
\<close>

theorem split_pdf_nonpositive_cap:
  assumes "pps \<le> 0" and "0 \<le> total_pages self"
  shows "split_pdf self pps outs cb w = (pps < 0 \<and> reader self \<noteq> None, w)"
proof (cases "pps = 0")
  case True
  then show ?thesis by (simp add: split_pdf_def split: option.splits)
next
  case False
  with assms have "get_page_ranges self pps = Inr []" by (simp add: get_page_ranges_neg)
  with False assms show ?thesis by (simp add: split_pdf_def split: option.splits)
qed

theorem split_pdf_nonpositive_cap_witness:
  "split_pdf ex_splitter (- 2) ex_outs None ex_world = (True, ex_world)
   \<and> split_pdf ex_splitter 0 ex_outs None ex_world = (False, ex_world)"
  using split_pdf_nonpositive_cap [of "- 2" ex_splitter ex_outs None ex_world]
    split_pdf_nonpositive_cap [of 0 ex_splitter ex_outs None ex_world]
  by (simp add: ex_splitter_def)

section \<open>Extracting one range\<close>

text \<open>
  C30. For a loaded document, a range inside it and a path that can be
  written, \<open>extract_page_range\<close> returns \<open>True\<close> and stores exactly the pages
  of the range, in order, at the path; nothing else changes.
\<close>

theorem extract_page_range_writes:
  assumes "loaded self rd" and "1 \<le> a" and "a \<le> b" and "b \<le> total_pages self"
    and "can_write w out"
  shows "fst (extract_page_range self a b out w) \<and>
         (\<forall>q. lookup_node (snd (extract_page_range self a b out w)) q =
              (if q = out then Some (PdfFile (written_pdf (range_pages (pages rd) (a, b))))
               else lookup_node w q))"
proof -
  from assms(1) have rd: "reader self = Some rd" "\<not> needs_password rd"
    and tot: "total_pages self = int (length (pages rd))"
    by (simp_all add: loaded_def)
  from can_write_open_wb [OF assms(5)]
  obtain w' where "open_wb w out (written_pdf (range_pages (pages rd) (a, b))) = Inr w'" by blast
  with rd tot assms(2-4) show ?thesis
    by (simp add: extract_page_range_def add_pages_ok open_wb_lookup)
qed

theorem extract_page_range_writes_witness:
  "fst (extract_page_range ex_splitter 2 4 (PurePath False [''a.pdf'']) ex_world) \<and>
   (\<forall>q. lookup_node (snd (extract_page_range ex_splitter 2 4 (PurePath False [''a.pdf'']) ex_world)) q =
        (if q = PurePath False [''a.pdf'']
         then Some (PdfFile (written_pdf (range_pages (pages ex_doc) (2, 4))))
         else lookup_node ex_world q))"
  using extract_page_range_writes [OF ex_loaded, of 2 4 ex_world "PurePath False [''a.pdf'']"]
  by (simp add: ex_splitter_def ex_world_def can_write_def is_dir_def lookup_node_def parent_def)

text \<open>
  \<open>extract_page_range\<close> is all or nothing: when it does not return
  \<open>True\<close>, the name space is unchanged.
\<close>

theorem extract_page_range_all_or_nothing:
  "fst (extract_page_range self a b out w) \<or> snd (extract_page_range self a b out w) = w"
  by (simp add: extract_page_range_def split: option.splits sum.splits)

section \<open>A callback that raises\<close>

text \<open>
  An exception of the callback is caught with those of the loop:
  \<open>split_pdf\<close> returns \<open>False\<close>. Here it is raised before the first part,
  and nothing is written.
\<close>

lemma split_pdf_callback_raises:
  assumes "reader self = Some rd" and "get_page_ranges self pps = Inr (r # rs)"
    and "notify cb 1 (1 + int (length rs)) (''Creating part '' @ str_int 1) w = (Some e, w')"
  shows "split_pdf self pps outs cb w = (False, w')"
  using assms by (cases r) (simp add: split_pdf_def add.commute)

end
