(* ===== verification/File_Manager.thy ===== *)
theory File_Manager
  imports File_System Partition_Spec
begin

text \<open>
  The class \<open>FileManager\<close> of \<open>src/file_manager.py\<close>: the names of the output
  files, the directory they go to, and the renaming of a proposed name that is
  already taken. The object is a record of its three attributes, which no
  method changes; the methods that look at or change the file system take the
  world and return it. The renaming loop of \<open>handle_filename_conflicts\<close> has
  no bound in the code, so it is a partial function here and its termination is
  a theorem about finite name spaces. \<open>get_file_size_mb\<close> gets the size
  function of the file system and returns the float of the division as the
  rational number it stands for.
\<close>

section \<open>The object\<close>

record file_manager =
  fm_input_file :: path
  output_dir :: path
  base_name :: string

definition FileManager :: "string \<Rightarrow> string option \<Rightarrow> file_manager" where
  "FileManager input_file_str output_dir_str =
     (let inp = Path input_file_str
      in \<lparr>fm_input_file = inp,
          output_dir = (case output_dir_str of
                          None \<Rightarrow> parent inp
                        | Some d \<Rightarrow> if d \<noteq> [] then Path d else parent inp),
          base_name = stem inp\<rparr>)"

section \<open>Checking the input and making the output directory\<close>

text \<open>
  A suffix other than \<open>.pdf\<close> only prints a warning; the result does not
  depend on it.
\<close>

definition validate_input :: "file_manager \<Rightarrow> world \<Rightarrow> bool" where
  "validate_input self w =
     (if \<not> path_exists w (fm_input_file self) then False
      else if \<not> is_file w (fm_input_file self) then False
      else True)"

definition create_output_directory :: "file_manager \<Rightarrow> world \<Rightarrow> bool \<times> world" where
  "create_output_directory self w =
     (case mkdir_parents w (output_dir self) of
        (None, w') \<Rightarrow> (True, w')
      | (Some e, w') \<Rightarrow> (False, w'))"

section \<open>Names and ranges of the parts\<close>

definition part_name :: "string \<Rightarrow> int \<Rightarrow> string" where
  "part_name b i = b @ ''_part_'' @ format_03d (i + 1) @ ''.pdf''"

definition generate_output_filenames :: "file_manager \<Rightarrow> int \<Rightarrow> int \<Rightarrow> path list result" where
  "generate_output_filenames self tot pages_per_split =
     (if pages_per_split = 0 then Inl ZeroDivisionError
      else
        let num_splits = (tot + pages_per_split - 1) div pages_per_split
        in Inr (map (\<lambda>i. join_str (output_dir self) (part_name (base_name self) i))
                  (py_range1 num_splits)))"

definition get_split_ranges :: "file_manager \<Rightarrow> int \<Rightarrow> int \<Rightarrow> (int \<times> int) list result" where
  "get_split_ranges self tot pages_per_split =
     (case py_range 0 tot pages_per_split of
        Inl e \<Rightarrow> Inl e
      | Inr starts \<Rightarrow>
          Inr (map (\<lambda>start.
                 (let end = min (start + pages_per_split - 1) (tot - 1)
                  in (start + 1, end + 1))) starts))"

section \<open>Renaming on conflict\<close>

definition new_name :: "path \<Rightarrow> int \<Rightarrow> string" where
  "new_name original_path counter =
     stem original_path @ ''_'' @ str_int counter @ suffix original_path"

definition renamed :: "path \<Rightarrow> int \<Rightarrow> path" where
  "renamed original_path counter = join_str (parent original_path) (new_name original_path counter)"

partial_function (option) rename_loop :: "world \<Rightarrow> path \<Rightarrow> path \<Rightarrow> int \<Rightarrow> path option" where
  "rename_loop w original_path file_path counter =
     (if path_exists w file_path
      then rename_loop w original_path (renamed original_path counter) (counter + 1)
      else Some file_path)"

fun handle_filename_conflicts :: "file_manager \<Rightarrow> world \<Rightarrow> path list \<Rightarrow> path list option" where
  "handle_filename_conflicts self w [] = Some []"
| "handle_filename_conflicts self w (file_path # output_files) =
     (case rename_loop w file_path file_path 1 of
        None \<Rightarrow> None
      | Some confirmed \<Rightarrow>
          map_option ((#) confirmed) (handle_filename_conflicts self w output_files))"

section \<open>Removing files\<close>

text \<open>
  An exception of \<open>unlink\<close> is caught and reported; the loop goes on with the
  next file.
\<close>

definition remove_one :: "world \<Rightarrow> path \<Rightarrow> world" where
  "remove_one w file_path =
     (if path_exists w file_path
      then (case unlink w file_path of Inr w' \<Rightarrow> w' | Inl e \<Rightarrow> w)
      else w)"

fun cleanup_temp_files :: "file_manager \<Rightarrow> path list \<Rightarrow> world \<Rightarrow> world" where
  "cleanup_temp_files self [] w = w"
| "cleanup_temp_files self (file_path # file_list) w =
     cleanup_temp_files self file_list (remove_one w file_path)"

text \<open>
  \<open>get_file_size_mb\<close>: every exception of \<open>stat\<close> and of the division
  becomes the size 0.
\<close>

definition get_file_size_mb :: "file_manager \<Rightarrow> size_fn \<Rightarrow> world \<Rightarrow> path \<Rightarrow> rat" where
  "get_file_size_mb self sz w file_path =
     (case st_size sz w file_path of
        Inr size_bytes \<Rightarrow> (case megabytes size_bytes of Inr mb \<Rightarrow> mb | Inl e \<Rightarrow> 0)
      | Inl e \<Rightarrow> 0)"

lemmas file_manager_defs [stpl_defs] =
  FileManager_def validate_input_def create_output_directory_def part_name_def
  generate_output_filenames_def get_split_ranges_def new_name_def renamed_def
  get_file_size_mb_def

section \<open>Well-formed managers and generated names\<close>

text \<open>
  The output directory is a parsed path and the base name is a single path
  component. Every object made by the constructor is of this kind.
\<close>

definition fm_wf :: "file_manager \<Rightarrow> bool" where
  "fm_wf self \<longleftrightarrow> wf_path (output_dir self) \<and> CHR ''/'' \<notin> set (base_name self)"

lemma fm_wf_FileManager [simp]: "fm_wf (FileManager i d)"
  by (auto simp: fm_wf_def FileManager_def Let_def stem_no_slash split: option.splits)

lemma part_name_nat:
  "part_name b (int k) = b @ ''_part_'' @ format_03d (int (Suc k)) @ ''.pdf''"
  by (simp add: part_name_def add.commute)

lemma part_name_simple: "CHR ''/'' \<notin> set b \<Longrightarrow> simple_name (part_name b (int k))"
  by (simp add: part_name_nat simple_name_def format_03d_no_slash del: of_nat_Suc)

lemma part_name_inj: "part_name b (int j) = part_name b (int k) \<longleftrightarrow> j = k"
  by (simp add: part_name_nat format_03d_inj del: of_nat_Suc)

lemma part_name_stem_suffix:
  "stem_of (part_name b (int k)) = b @ ''_part_'' @ format_03d (int (Suc k))"
  "suffix_of (part_name b (int k)) = ''.pdf''"
  using suffix_of_ext [of "''pdf''" "b @ ''_part_'' @ format_03d (int (Suc k))"]
  by (simp_all add: part_name_nat del: of_nat_Suc)

definition part_path :: "file_manager \<Rightarrow> nat \<Rightarrow> path" where
  "part_path self k = join_str (output_dir self) (part_name (base_name self) (int k))"

lemma generate_output_filenames_eq:
  "pps \<noteq> 0 \<Longrightarrow> generate_output_filenames self tot pps =
     Inr (map (part_path self) [0..<nat ((tot + pps - 1) div pps)])"
  by (simp add: generate_output_filenames_def py_range1_def Let_def o_def part_path_def)

lemma part_path_inj: "fm_wf self \<Longrightarrow> part_path self j = part_path self k \<longleftrightarrow> j = k"
  by (simp add: part_path_def fm_wf_def join_str_inj part_name_simple part_name_inj)

lemma part_paths_distinct: "fm_wf self \<Longrightarrow> distinct (map (part_path self) [0..<n])"
  by (simp add: distinct_map inj_on_def part_path_inj)

lemma part_path_props:
  assumes "fm_wf self"
  shows "parent (part_path self k) = output_dir self"
    and "name (part_path self k) = part_name (base_name self) (int k)"
    and "wf_path (part_path self k)"
  using assms by (simp_all add: part_path_def fm_wf_def part_name_simple)


section \<open>The renaming loop\<close>

lemma new_name_simple:
  assumes "wf_path p"
  shows "simple_name (new_name p c)"
proof -
  have "length (new_name p c) \<noteq> length ''.''"
    using str_int_nonempty [of c] by (cases "str_int c") (simp_all add: new_name_def)
  then have "new_name p c \<noteq> ''.''" by auto
  moreover have "CHR ''/'' \<notin> set (new_name p c)"
    using assms
    by (simp add: new_name_def stem_no_slash str_int_no_slash suffix_def suffix_of_no_slash
        name_no_slash)
  moreover have "new_name p c \<noteq> []" by (simp add: new_name_def)
  ultimately show ?thesis by (simp add: simple_name_def)
qed

lemma renamed_parts:
  "wf_path p \<Longrightarrow> renamed p c = PurePath (anchored p) (butlast (parts p) @ [new_name p c])"
  by (simp add: renamed_def join_str_simple new_name_simple parent_def)

lemma new_name_inj: "new_name p c = new_name p c' \<longleftrightarrow> c = c'"
  by (simp add: new_name_def str_int_inj)

lemma renamed_inj: "wf_path p \<Longrightarrow> renamed p c = renamed p c' \<longleftrightarrow> c = c'"
  by (simp add: renamed_parts new_name_inj)

lemma renamed_props:
  assumes "wf_path p"
  shows "parent (renamed p c) = parent p"
    and "name (renamed p c) = new_name p c"
    and "wf_path (renamed p c)"
    and "parts (renamed p c) \<noteq> []"
proof -
  from assms show "parent (renamed p c) = parent p" "name (renamed p c) = new_name p c"
    "wf_path (renamed p c)"
    by (simp_all add: renamed_def new_name_simple)
  from assms show "parts (renamed p c) \<noteq> []" by (simp add: renamed_parts)
qed

lemma free_counter_exists:
  assumes "wf_path p"
  shows "\<exists>k. \<not> path_exists w (renamed p (c + int k))"
proof (rule ccontr)
  assume "\<not> ?thesis"
  then have "range (\<lambda>k. renamed p (c + int k)) \<subseteq> fmdom' (fsys w)"
    using assms by (auto simp: path_exists_dom renamed_props(4))
  then have "finite (range (\<lambda>k. renamed p (c + int k)))"
    by (rule finite_subset) simp
  moreover have "inj (\<lambda>k. renamed p (c + int k))"
    using assms by (simp add: inj_def renamed_inj)
  ultimately show False
    using finite_imageD infinite_UNIV_nat by blast
qed

lemma rename_loop_free [simp]: "\<not> path_exists w fp \<Longrightarrow> rename_loop w p fp c = Some fp"
  by (subst rename_loop.simps) simp

text \<open>
  The step rule lets the simplifier run the loop on a given name space: it
  fires only when the current name is taken.
\<close>

lemma rename_loop_taken:
  "path_exists w fp \<Longrightarrow> rename_loop w p fp c = rename_loop w p (renamed p c) (c + 1)"
  by (subst rename_loop.simps) simp

lemma rename_loop_run:
  assumes "\<forall>j<k. path_exists w (renamed p (c + int j))"
    and "\<not> path_exists w (renamed p (c + int k))"
    and "path_exists w fp"
  shows "rename_loop w p fp c = Some (renamed p (c + int k))"
  using assms
proof (induction k arbitrary: c fp)
  case 0
  then show ?case by (simp add: rename_loop_taken)
next
  case (Suc k)
  from Suc.prems(1) [rule_format, of 0] have here: "path_exists w (renamed p c)" by simp
  have shift: "c + int (Suc j) = c + 1 + int j" for j by simp
  have "\<forall>j<k. path_exists w (renamed p (c + 1 + int j))"
    using Suc.prems(1) unfolding shift [symmetric] by auto
  moreover from Suc.prems(2) have "\<not> path_exists w (renamed p (c + 1 + int k))"
    unfolding shift .
  ultimately have "rename_loop w p (renamed p c) (c + 1) = Some (renamed p (c + 1 + int k))"
    using here by (rule Suc.IH)
  with Suc.prems(3) show ?case
    unfolding shift by (simp only: rename_loop_taken)
qed

definition first_free :: "world \<Rightarrow> path \<Rightarrow> path \<Rightarrow> bool" where
  "first_free w p q \<longleftrightarrow>
     \<not> path_exists w q \<and>
     (if path_exists w p
      then \<exists>k. q = renamed p (1 + int k) \<and> (\<forall>j<k. path_exists w (renamed p (1 + int j)))
      else q = p)"

lemma rename_loop_first_free:
  assumes "wf_path p"
  shows "\<exists>q. rename_loop w p p 1 = Some q \<and> first_free w p q"
proof (cases "path_exists w p")
  case False
  then show ?thesis by (simp add: first_free_def)
next
  case True
  let ?P = "\<lambda>k. \<not> path_exists w (renamed p (1 + int k))"
  from free_counter_exists [OF assms, of w 1] have "\<exists>k. ?P k" .
  then obtain k where k: "?P k" "\<forall>j<k. \<not> ?P j"
    using exists_least_iff [of ?P] by blast
  then have "rename_loop w p p 1 = Some (renamed p (1 + int k))"
    using True by (intro rename_loop_run) simp_all
  with k True show ?thesis by (auto simp: first_free_def)
qed

lemma first_free_props:
  assumes "wf_path p" and "first_free w p q"
  shows "parent q = parent p" and "wf_path q" and "\<not> path_exists w q"
  using assms by (auto simp: first_free_def renamed_props split: if_splits)

lemma suffix_part_path: "fm_wf self \<Longrightarrow> suffix (part_path self k) = ''.pdf''"
  by (simp add: suffix_def part_path_props part_name_stem_suffix)

lemma suffix_renamed:
  assumes "wf_path p" and "suffix p = ''.pdf''"
  shows "suffix (renamed p c) = ''.pdf''"
  using suffix_of_ext(1) [of "''pdf''" "stem p @ ''_'' @ str_int c"] assms
  by (simp add: suffix_def [of "renamed p c"] renamed_props new_name_def)

lemma first_free_suffix:
  assumes "wf_path p" and "first_free w p q" and "suffix p = ''.pdf''"
  shows "suffix q = ''.pdf''"
  using assms by (auto simp: first_free_def suffix_renamed split: if_splits)

lemma first_free_unique:
  assumes "wf_path p" and "first_free w p q" and "first_free w p q'"
  shows "q = q'"
proof (cases "path_exists w p")
  case False
  with assms show ?thesis by (simp add: first_free_def)
next
  case True
  with assms(2,3) obtain k k' where
    k: "q = renamed p (1 + int k)" "\<forall>j<k. path_exists w (renamed p (1 + int j))" "\<not> path_exists w q"
    and k': "q' = renamed p (1 + int k')" "\<forall>j<k'. path_exists w (renamed p (1 + int j))" "\<not> path_exists w q'"
    by (auto simp: first_free_def)
  then have "\<not> k < k'" "\<not> k' < k" by auto
  with k(1) k'(1) show ?thesis by simp
qed


section \<open>Resolving a batch of names\<close>

lemma handle_filename_conflicts_Some:
  assumes "list_all wf_path ps"
  shows "\<exists>qs. handle_filename_conflicts self w ps = Some qs \<and> list_all2 (first_free w) ps qs"
  using assms
proof (induction ps)
  case Nil
  then show ?case by simp
next
  case (Cons p ps)
  then obtain qs where "handle_filename_conflicts self w ps = Some qs" "list_all2 (first_free w) ps qs"
    by auto
  moreover from Cons.prems obtain q where "rename_loop w p p 1 = Some q" "first_free w p q"
    using rename_loop_first_free [of p w] by auto
  ultimately show ?case by simp
qed

lemma handle_filename_conflicts_unchanged:
  "\<forall>p \<in> set ps. \<not> path_exists w p \<Longrightarrow> handle_filename_conflicts self w ps = Some ps"
  by (induction ps) simp_all

definition part_number :: "string \<Rightarrow> string \<Rightarrow> nat" where
  "part_number b nm = read_nat (takeWhile is_digit (drop (length b + length ''_part_'') nm))"

lemma part_number_part_name [simp]: "part_number b (part_name b (int k)) = Suc k"
  using takeWhile_digits [OF format_03d_digits, of "''.pdf''" "Suc k"]
  by (simp add: part_number_def part_name_nat del: of_nat_Suc)

lemma part_number_new_name:
  assumes "fm_wf self"
  shows "part_number (base_name self) (new_name (part_path self k) c) = Suc k"
proof -
  have "new_name (part_path self k) c =
        base_name self @ ''_part_'' @ format_03d (int (Suc k)) @ (''_'' @ str_int c @ ''.pdf'')"
    using assms by (simp add: new_name_def stem_def suffix_def part_path_props part_name_stem_suffix)
  then show ?thesis
    using takeWhile_digits [OF format_03d_digits, of "''_'' @ str_int c @ ''.pdf''" "Suc k"]
    by (simp add: part_number_def del: of_nat_Suc)
qed

lemma first_free_part_number:
  assumes "fm_wf self" and "first_free w (part_path self k) q"
  shows "part_number (base_name self) (name q) = Suc k"
  using assms
  by (auto simp: first_free_def part_path_props renamed_props part_number_new_name split: if_splits)

lemma resolved_parts_distinct:
  assumes "fm_wf self" and "list_all2 (first_free w) (map (part_path self) [0..<n]) qs"
  shows "distinct qs"
proof -
  from assms(2) have len: "length qs = n" by (auto dest: list_all2_lengthD)
  have "part_number (base_name self) (name (qs ! i)) = Suc i" if "i < n" for i
  proof -
    from assms(2) that len have "first_free w (part_path self i) (qs ! i)"
      by (auto dest: list_all2_nthD2)
    with assms(1) show ?thesis by (rule first_free_part_number)
  qed
  then have "i = j" if "i < n" "j < n" "qs ! i = qs ! j" for i j
    using that by (metis Suc_inject)
  with len show ?thesis by (auto simp: distinct_conv_nth)
qed

section \<open>Input check, output directory, clean-up\<close>

lemma validate_input_iff: "validate_input self w \<longleftrightarrow> is_file w (fm_input_file self)"
  by (auto simp: validate_input_def is_file_exists)

lemma create_output_directory_ok:
  assumes "create_output_directory self w = (True, w')"
  shows "is_dir w' (output_dir self)"
  using assms mkdir_parents_is_dir [of w "output_dir self"]
  by (auto simp: create_output_directory_def split: prod.splits option.splits)

lemma create_output_directory_snd:
  "snd (create_output_directory self w) = snd (mkdir_parents w (output_dir self))"
  by (simp add: create_output_directory_def split: prod.splits option.splits)

lemma create_output_directory_keeps:
  "lookup_node w q = Some nd \<Longrightarrow> lookup_node (snd (create_output_directory self w)) q = Some nd"
  by (simp add: create_output_directory_snd mkdir_parents_def mkdir_chain_keeps)

lemma fs_wf_create_output_directory:
  "fs_wf w \<Longrightarrow> fs_wf (snd (create_output_directory self w))"
  by (simp add: create_output_directory_snd fs_wf_mkdir_parents)

definition removable :: "world \<Rightarrow> path \<Rightarrow> bool" where
  "removable w p \<longleftrightarrow> is_file w p \<and> p |\<notin>| denied w"

lemma remove_one_lookup:
  "lookup_node (remove_one w p) q = (if q = p \<and> removable w p then None else lookup_node w q)"
proof (cases "unlink w p")
  case (Inl e)
  then have "\<not> removable w p" using unlink_ok_iff [of w p] by (simp add: removable_def)
  with Inl show ?thesis by (simp add: remove_one_def)
next
  case (Inr w')
  then have "removable w p" using unlink_ok_iff [of w p] by (simp add: removable_def)
  with Inr show ?thesis by (simp add: remove_one_def unlink_lookup removable_def is_file_exists)
qed

lemma remove_one_denied [simp]: "denied (remove_one w p) = denied w"
  by (simp add: remove_one_def unlink_denied split: sum.splits)

lemma removable_remove_one:
  "removable (remove_one w p) q \<longleftrightarrow> removable w q \<and> q \<noteq> p"
  by (auto simp: removable_def is_file_def remove_one_lookup split: option.splits)

lemma cleanup_temp_files_denied [simp]: "denied (cleanup_temp_files self ps w) = denied w"
proof (induction ps arbitrary: w)
  case Nil
  then show ?case by simp
next
  case (Cons p ps)
  show ?case unfolding cleanup_temp_files.simps Cons.IH by simp
qed

lemma fs_wf_remove_one: "fs_wf w \<Longrightarrow> fs_wf (remove_one w p)"
  by (auto simp: remove_one_def fs_wf_unlink split: sum.splits)

lemma fs_wf_cleanup_temp_files: "fs_wf w \<Longrightarrow> fs_wf (cleanup_temp_files self ps w)"
proof (induction ps arbitrary: w)
  case Nil
  then show ?case by simp
next
  case (Cons p ps)
  then show ?case by (simp add: fs_wf_remove_one)
qed

section \<open>Properties\<close>

lemmas path_eval =
  renamed_def new_name_def stem_def suffix_def stem_of_def suffix_of_def rfind_def
  name_def parent_def str_int_def str_nat_small digit_char_def join_str_def joinpath_def
  Path_def Let_def path_exists_def lookup_node_def

definition ex_fm :: file_manager where
  "ex_fm = FileManager ''in/doc.pdf'' (Some ''out'')"

definition ex_fm_world :: world where
  "ex_fm_world =
     \<lparr>fsys = fmupd (PurePath False [''out'', ''doc_part_001_1.pdf'']) OtherFile
              (fmupd (PurePath False [''out'', ''doc_part_001.pdf'']) OtherFile
              (fmupd (PurePath False [''out'']) Dir fmempty)),
      denied = {||}\<rparr>"

definition ex_taken :: path where
  "ex_taken = PurePath False [''out'', ''doc_part_001.pdf'']"

lemma ex_fm_eq:
  "ex_fm = \<lparr>fm_input_file = PurePath False [''in'', ''doc.pdf''],
            output_dir = PurePath False [''out''], base_name = ''doc''\<rparr>"
  by (simp add: ex_fm_def FileManager_def Path_def stem_def stem_of_def rfind_def name_def Let_def)

lemma ex_taken_wf [simp]: "wf_path ex_taken"
  by (simp add: ex_taken_def wf_path_def simple_name_def)

text \<open>
  C6. The renaming loop ends for every path that was parsed from a string,
  whatever the name space holds, and returns the first free name: the
  proposed path when nothing is there, otherwise the path with the least
  counter, from 1, whose name is not taken.
\<close>

theorem rename_loop_terminates:
  assumes "wf_path p"
  shows "\<exists>q. rename_loop w p p 1 = Some q \<and> first_free w p q"
  using assms by (rule rename_loop_first_free)

theorem rename_loop_terminates_witness:
  "\<exists>q. rename_loop ex_fm_world ex_taken ex_taken 1 = Some q
       \<and> first_free ex_fm_world ex_taken q"
  using rename_loop_terminates [of ex_taken ex_fm_world] by simp

lemma ex_rename_twice:
  "rename_loop ex_fm_world ex_taken ex_taken 1 = Some (PurePath False [''out'', ''doc_part_001_2.pdf''])"
  by (simp add: ex_taken_def ex_fm_world_def rename_loop_taken path_eval)


lemma ex_fm_wf [simp]: "fm_wf ex_fm"
  by (simp add: ex_fm_def)

text \<open>
  C24. For a page count and a non-zero \<open>pages_per_split\<close>,
  \<open>generate_output_filenames\<close> returns \<open>(total + pages_per_split - 1) // pages_per_split\<close>
  paths (none when this number is not positive), all different, all directly
  inside the output directory.
\<close>

theorem generated_names_distinct:
  assumes "fm_wf self" and "pages_per_split \<noteq> 0"
  shows "\<exists>ps. generate_output_filenames self tot pages_per_split = Inr ps
           \<and> length ps = nat ((tot + pages_per_split - 1) div pages_per_split)
           \<and> distinct ps \<and> list_all (\<lambda>p. parent p = output_dir self \<and> wf_path p) ps"
  using assms
  by (simp add: generate_output_filenames_eq part_paths_distinct list_all_iff part_path_props)

theorem generated_names_distinct_witness:
  "\<exists>ps. generate_output_filenames ex_fm 5 2 = Inr ps
         \<and> length ps = nat ((5 + 2 - 1) div 2)
         \<and> distinct ps \<and> list_all (\<lambda>p. parent p = output_dir ex_fm \<and> wf_path p) ps"
  using generated_names_distinct [of ex_fm 2 5] by simp

text \<open>
  C17. \<open>handle_filename_conflicts\<close> returns for every list of parsed paths:
  one path per proposed path, in the same directory as the proposed one, and
  none of the returned paths exists.
\<close>

theorem handle_filename_conflicts_fresh:
  assumes "list_all wf_path ps"
  shows "\<exists>qs. handle_filename_conflicts self w ps = Some qs \<and> length qs = length ps
           \<and> map parent qs = map parent ps \<and> list_all (\<lambda>q. \<not> path_exists w q) qs"
proof -
  from handle_filename_conflicts_Some [OF assms] obtain qs where
    qs: "handle_filename_conflicts self w ps = Some qs" "list_all2 (first_free w) ps qs"
    by blast
  then have len: "length qs = length ps" by (auto dest: list_all2_lengthD)
  have "parent (qs ! i) = parent (ps ! i) \<and> \<not> path_exists w (qs ! i)" if "i < length ps" for i
    using that qs(2) assms first_free_props [of "ps ! i" w "qs ! i"]
    by (auto simp: list_all_length dest: list_all2_nthD)
  with len have "map parent qs = map parent ps" "list_all (\<lambda>q. \<not> path_exists w q) qs"
    by (auto simp: list_all_length intro: nth_equalityI)
  with qs(1) len show ?thesis by simp
qed

theorem handle_filename_conflicts_fresh_witness:
  "\<exists>qs. handle_filename_conflicts ex_fm ex_fm_world [ex_taken] = Some qs \<and> length qs = length [ex_taken]
         \<and> map parent qs = map parent [ex_taken] \<and> list_all (\<lambda>q. \<not> path_exists ex_fm_world q) qs"
  using handle_filename_conflicts_fresh [of "[ex_taken]" ex_fm ex_fm_world] by simp

lemma resolved_generated:
  assumes "fm_wf self" and "pages_per_split \<noteq> 0"
    and "generate_output_filenames self tot pages_per_split = Inr ps"
  shows "\<exists>qs. handle_filename_conflicts self w ps = Some qs
           \<and> list_all2 (first_free w) (map (part_path self) [0..<length ps]) qs"
proof -
  from assms(2,3) have ps: "ps = map (part_path self) [0..<length ps]"
    by (auto simp: generate_output_filenames_eq)
  with assms(1) have "list_all wf_path ps"
    by (metis (no_types, lifting) list_all_iff imageE list.set_map part_path_props(3))
  from handle_filename_conflicts_Some [OF this, of self w] ps show ?thesis by metis
qed

text \<open>
  C7. The names that \<open>generate_output_filenames\<close> proposes stay different
  after \<open>handle_filename_conflicts\<close> has renamed those that are taken,
  whatever files exist.
\<close>

theorem resolved_names_distinct:
  assumes "fm_wf self" and "pages_per_split \<noteq> 0"
    and "generate_output_filenames self tot pages_per_split = Inr ps"
  shows "\<exists>qs. handle_filename_conflicts self w ps = Some qs \<and> distinct qs"
  using resolved_generated [OF assms, of w] resolved_parts_distinct [OF assms(1)] by blast

theorem resolved_names_distinct_witness:
  "\<exists>qs. handle_filename_conflicts ex_fm ex_fm_world
          (map (part_path ex_fm) [0..<nat ((5 + 2 - 1) div 2)]) = Some qs \<and> distinct qs"
  using resolved_names_distinct [of ex_fm 2 5 _ ex_fm_world]
  by (simp add: generate_output_filenames_eq)

text \<open>
  C34. The number of a part can be read back from its file name, also after
  the name was changed to avoid a conflict: the digits after \<open>_part_\<close> in
  the \<open>k\<close>-th resolved name are \<open>k + 1\<close>.
\<close>

theorem part_number_resolved:
  assumes "fm_wf self" and "pages_per_split \<noteq> 0"
    and "generate_output_filenames self tot pages_per_split = Inr ps"
    and "handle_filename_conflicts self w ps = Some qs" and "k < length qs"
  shows "part_number (base_name self) (name (qs ! k)) = k + 1"
proof -
  from resolved_generated [OF assms(1-3), of w] assms(4)
  have all: "list_all2 (first_free w) (map (part_path self) [0..<length ps]) qs" by simp
  then have "length qs = length ps" by (auto dest: list_all2_lengthD)
  with list_all2_nthD2 [OF all assms(5)] assms(5)
  have "first_free w (part_path self k) (qs ! k)" by simp
  with assms(1) show ?thesis by (simp add: first_free_part_number)
qed


theorem part_number_resolved_witness:
  "part_number (base_name ex_fm)
     (name (the (handle_filename_conflicts ex_fm ex_fm_world
                   (map (part_path ex_fm) [0..<nat ((5 + 2 - 1) div 2)])) ! 0)) = 0 + 1"
proof -
  obtain qs where qs: "handle_filename_conflicts ex_fm ex_fm_world
      (map (part_path ex_fm) [0..<nat ((5 + 2 - 1) div 2)]) = Some qs" "length qs = 3"
    using handle_filename_conflicts_Some [of "map (part_path ex_fm) [0..<nat ((5 + 2 - 1) div 2)]"
        ex_fm ex_fm_world]
    by (auto simp: list_all_iff part_path_props dest: list_all2_lengthD)
  with part_number_resolved [of ex_fm 2 5 _ ex_fm_world qs 0] show ?thesis
    by (simp add: generate_output_filenames_eq)
qed

text \<open>
  C35. \<open>get_file_size_mb\<close> never raises. It returns 0 for a path that does
  not exist. For an entry of \<open>n\<close> bytes it returns \<open>m / 2 ^ 20\<close> for a number
  \<open>m\<close> of at most 53 significant bits that is as near to \<open>n\<close> as any such
  number, so within \<open>n / 2 ^ 53\<close> of it: the size in megabytes is exact for an
  entry of less than \<open>2 ^ 53\<close> bytes and rounded above.
\<close>

theorem get_file_size_mb_rounds:
  "(\<not> path_exists w p \<longrightarrow> get_file_size_mb self sz w p = 0)
   \<and> (\<forall>nd. lookup_node w p = Some nd \<longrightarrow>
          (\<exists>m. get_file_size_mb self sz w p = of_nat m / 2 ^ 20
               \<and> representable m
               \<and> (\<forall>v. representable v \<longrightarrow>
                      \<bar>int m - int (unat (sz p nd))\<bar> \<le> \<bar>int v - int (unat (sz p nd))\<bar>)
               \<and> \<bar>int m - int (unat (sz p nd))\<bar> * 2 ^ 53 \<le> int (unat (sz p nd))
               \<and> (unat (sz p nd) < 2 ^ 53 \<longrightarrow> m = unat (sz p nd))))"
proof (intro conjI allI impI)
  assume "\<not> path_exists w p"
  then show "get_file_size_mb self sz w p = 0"
    by (simp add: get_file_size_mb_def st_size_def path_exists_def)
next
  fix nd assume "lookup_node w p = Some nd"
  then have "get_file_size_mb self sz w p = of_nat (round53 (unat (sz p nd))) / 2 ^ 20"
    by (simp add: get_file_size_mb_def st_size_def megabytes_unat)
  then show "\<exists>m. get_file_size_mb self sz w p = of_nat m / 2 ^ 20
               \<and> representable m
               \<and> (\<forall>v. representable v \<longrightarrow>
                      \<bar>int m - int (unat (sz p nd))\<bar> \<le> \<bar>int v - int (unat (sz p nd))\<bar>)
               \<and> \<bar>int m - int (unat (sz p nd))\<bar> * 2 ^ 53 \<le> int (unat (sz p nd))
               \<and> (unat (sz p nd) < 2 ^ 53 \<longrightarrow> m = unat (sz p nd))"
    by (intro exI [of _ "round53 (unat (sz p nd))"] conjI allI impI round53_representable
        round53_closest round53_error round53_small)
qed

lemma ex_out_dir: "lookup_node ex_fm_world (PurePath False [''out'']) = Some Dir"
  by (simp add: ex_fm_world_def lookup_node_def)

theorem get_file_size_mb_rounds_witness:
  "get_file_size_mb ex_fm ex_sizes ex_fm_world (PurePath False [''nothing'']) = 0
   \<and> get_file_size_mb ex_fm ex_sizes ex_fm_world (PurePath False [''out'']) = 4096 / 2 ^ 20"
proof
  have "\<not> path_exists ex_fm_world (PurePath False [''nothing''])"
    by (simp add: ex_fm_world_def lookup_node_def path_exists_def)
  with get_file_size_mb_rounds [of ex_fm_world "PurePath False [''nothing'']" ex_fm ex_sizes]
  show "get_file_size_mb ex_fm ex_sizes ex_fm_world (PurePath False [''nothing'']) = 0"
    by (rule conjunct1 [THEN mp])
next
  have small: "unat (ex_sizes (PurePath False [''out'']) Dir) = 4096"
    by (simp add: ex_sizes_def)
  from get_file_size_mb_rounds [of ex_fm_world "PurePath False [''out'']" ex_fm ex_sizes]
    ex_out_dir
  obtain m where "get_file_size_mb ex_fm ex_sizes ex_fm_world (PurePath False [''out''])
        = of_nat m / 2 ^ 20"
    and "unat (ex_sizes (PurePath False [''out'']) Dir) < 2 ^ 53
           \<longrightarrow> m = unat (ex_sizes (PurePath False [''out'']) Dir)"
    by blast
  then show "get_file_size_mb ex_fm ex_sizes ex_fm_world (PurePath False [''out''])
      = 4096 / 2 ^ 20"
    unfolding small by simp
qed

text \<open>A directory entry of \<open>2 ^ 53 + 1\<close> bytes is reported one byte short.\<close>

lemma get_file_size_mb_loses_byte:
  "get_file_size_mb ex_fm (\<lambda>p nd. 2 ^ 53 + 1) ex_fm_world (PurePath False [''out''])
     = 2 ^ 53 / 2 ^ 20"
proof -
  have "unat (2 ^ 53 + 1 :: 64 word) = 2 ^ 53 + 1" by simp
  then have "megabytes (unat (2 ^ 53 + 1 :: 64 word)) = Inr (2 ^ 53 / 2 ^ 20)"
    unfolding megabytes_unat by (simp only: round53_example) simp
  then show ?thesis
    by (simp only: get_file_size_mb_def st_size_def ex_out_dir option.case sum.case)
qed

text \<open>
  C36. \<open>create_output_directory\<close> returns \<open>True\<close> only when the output
  directory is a directory afterwards; whatever it returns, no entry that was
  there before is changed or lost.
\<close>

theorem create_output_directory_makes_dir:
  "(fst (create_output_directory self w) \<longrightarrow>
      is_dir (snd (create_output_directory self w)) (output_dir self))
   \<and> (\<forall>q. path_exists w q \<longrightarrow>
        lookup_node (snd (create_output_directory self w)) q = lookup_node w q)"
proof (intro conjI allI impI)
  assume "fst (create_output_directory self w)"
  then show "is_dir (snd (create_output_directory self w)) (output_dir self)"
    by (cases "create_output_directory self w") (auto dest: create_output_directory_ok)
next
  fix q assume "path_exists w q"
  then show "lookup_node (snd (create_output_directory self w)) q = lookup_node w q"
    by (auto simp: path_exists_def create_output_directory_keeps)
qed

definition ex_empty_world :: world where
  "ex_empty_world = \<lparr>fsys = fmempty, denied = {||}\<rparr>"

theorem create_output_directory_makes_dir_witness:
  "fst (create_output_directory ex_fm ex_empty_world)
   \<and> is_dir (snd (create_output_directory ex_fm ex_empty_world)) (output_dir ex_fm)"
  using create_output_directory_makes_dir [of ex_fm ex_empty_world]
  by (simp add: ex_fm_eq ex_empty_world_def create_output_directory_def mkdir_parents_def
      ancestors_and_self_def lookup_node_def make_dir_def)

text \<open>
  C37. After \<open>cleanup_temp_files\<close>, a listed path that was a file and that
  the system lets go is gone; every other entry is as before.
\<close>

theorem cleanup_temp_files_removes:
  "lookup_node (cleanup_temp_files self file_list w) q =
     (if q \<in> set file_list \<and> removable w q then None else lookup_node w q)"
proof (induction file_list arbitrary: w)
  case Nil
  then show ?case by simp
next
  case (Cons p file_list)
  show ?case
    unfolding cleanup_temp_files.simps Cons.IH
    by (auto simp: removable_remove_one remove_one_lookup)
qed

text \<open>
  C39. \<open>handle_filename_conflicts\<close> looks at the files only, not at the
  names it has already confirmed: two different proposed paths can be resolved
  to the same path. When a proposed path and its first renaming are taken and
  its second renaming is free and proposed as well, both are resolved to that
  second renaming. (Names made by \<open>generate_output_filenames\<close> never collide
  in this way.)
\<close>

theorem handle_filename_conflicts_collides:
  assumes "path_exists w p" and "path_exists w (renamed p 1)"
    and "\<not> path_exists w (renamed p 2)"
  shows "p \<noteq> renamed p 2
         \<and> handle_filename_conflicts self w [p, renamed p 2]
             = Some [renamed p 2, renamed p 2]"
proof -
  have "rename_loop w p p 1 = rename_loop w p (renamed p 1) 2"
    using assms(1) by (simp add: rename_loop_taken)
  also have "\<dots> = rename_loop w p (renamed p 2) 3"
    using assms(2) by (simp add: rename_loop_taken)
  finally have "rename_loop w p p 1 = Some (renamed p 2)" using assms(3) by simp
  with assms show ?thesis by auto
qed

theorem handle_filename_conflicts_collides_witness:
  "ex_taken \<noteq> renamed ex_taken 2
   \<and> handle_filename_conflicts ex_fm ex_fm_world [ex_taken, renamed ex_taken 2]
       = Some [renamed ex_taken 2, renamed ex_taken 2]"
  using handle_filename_conflicts_collides [of ex_fm_world ex_taken ex_fm]
  by (simp add: ex_taken_def ex_fm_world_def path_eval)

end
