(* ===== verification/Split_Pipeline.thy ===== *)
theory Split_Pipeline
  imports Split_Run File_Manager
begin

text \<open>
  Where the two classes meet: the names that \<open>FileManager\<close> proposes and
  resolves are the output paths of \<open>PDFSplitter.split_pdf\<close>. The lemmas here
  say what the resolved names are (as many as there are ranges, pairwise
  different, free, inside the output directory) and what the split does when
  it is run on them.
\<close>

section \<open>Resolved names as output paths\<close>

definition writable_dir :: "world \<Rightarrow> path \<Rightarrow> bool" where
  "writable_dir w d \<longleftrightarrow> is_dir w d \<and> fBall (denied w) (\<lambda>q. parent q \<noteq> d)"

lemma ceil_range_len: "0 < pps \<Longrightarrow> nat ((tot + pps - 1) div pps) = range_len 0 tot pps"
proof (cases "0 \<le> tot")
  case True
  assume "0 < pps"
  with True show ?thesis by (simp add: range_len_ceil)
next
  case False
  assume pps: "0 < pps"
  have "(tot + pps - 1) div pps \<le> (pps - 1) div pps"
    by (rule zdiv_mono1) (use False pps in simp_all)
  also have "\<dots> = 0" using pps by (simp add: div_pos_pos_trivial)
  finally have "(tot + pps - 1) div pps \<le> 0" .
  with False pps show ?thesis by (simp add: range_len_def)
qed

lemma fresh_can_write:
  assumes "writable_dir w d" and "parent q = d" and "\<not> path_exists w q"
  shows "can_write w q"
  using assms by (auto simp: writable_dir_def can_write_def dest: is_dir_exists)

lemma resolved_outputs:
  assumes "fm_wf fm" and "0 < pps"
    and "generate_output_filenames fm (total_pages self) pps = Inr ps"
    and "handle_filename_conflicts fm w ps = Some outs"
  shows "length outs = range_len 0 (total_pages self) pps"
    and "distinct outs"
    and "list_all (\<lambda>q. \<not> path_exists w q \<and> parent q = output_dir fm) outs"
    and "list_all (\<lambda>q. wf_path q \<and> suffix q = ''.pdf'') outs"
proof -
  from assms(2,3) have ps: "ps = map (part_path fm) [0..<range_len 0 (total_pages self) pps]"
    by (simp add: generate_output_filenames_eq ceil_range_len)
  then have wf: "list_all wf_path ps" and par: "\<forall>p \<in> set ps. parent p = output_dir fm"
    using assms(1) by (auto simp: list_all_iff part_path_props)
  from handle_filename_conflicts_Some [OF wf, of fm w] assms(4)
  have ff: "list_all2 (first_free w) ps outs" by simp
  then have len: "length outs = length ps" by (auto dest: list_all2_lengthD)
  with ps show "length outs = range_len 0 (total_pages self) pps" by simp
  from ff ps assms(1) show "distinct outs" by (auto intro: resolved_parts_distinct)
  have "\<not> path_exists w (outs ! i) \<and> parent (outs ! i) = output_dir fm"
    if "i < length outs" for i
  proof -
    from that len have "ps ! i \<in> set ps" by simp
    with wf par have "wf_path (ps ! i)" "parent (ps ! i) = output_dir fm"
      by (auto simp: list_all_iff)
    moreover from ff that have "first_free w (ps ! i) (outs ! i)" by (rule list_all2_nthD2)
    ultimately show ?thesis using first_free_props [of "ps ! i" w "outs ! i"] by simp
  qed
  then show "list_all (\<lambda>q. \<not> path_exists w q \<and> parent q = output_dir fm) outs"
    by (simp add: list_all_length)
  have "wf_path (outs ! i) \<and> suffix (outs ! i) = ''.pdf''" if "i < length outs" for i
  proof -
    from that len have "ps ! i \<in> set ps" by simp
    with wf ps assms(1) have "wf_path (ps ! i)" "suffix (ps ! i) = ''.pdf''"
      by (auto simp: list_all_iff suffix_part_path)
    moreover from ff that have "first_free w (ps ! i) (outs ! i)" by (rule list_all2_nthD2)
    ultimately show ?thesis
      using first_free_props(2) [of "ps ! i" w "outs ! i"] first_free_suffix [of "ps ! i" w "outs ! i"]
      by simp
  qed
  then show "list_all (\<lambda>q. wf_path q \<and> suffix q = ''.pdf'') outs"
    by (simp add: list_all_length)
qed

lemma pipeline_outputs:
  assumes "fm_wf fm" and "0 < pps" and "writable_dir w (output_dir fm)"
    and "generate_output_filenames fm (total_pages self) pps = Inr ps"
    and "handle_filename_conflicts fm w ps = Some outs"
  shows "length outs = range_len 0 (total_pages self) pps"
    and "distinct outs"
    and "list_all (can_write w) outs"
    and "list_all (\<lambda>q. \<not> path_exists w q) outs"
proof -
  note r = resolved_outputs [OF assms(1,2,4,5)]
  from r(1,2) show "length outs = range_len 0 (total_pages self) pps" "distinct outs" .
  from r(3) show "list_all (\<lambda>q. \<not> path_exists w q) outs" by (simp add: list_all_iff)
  from r(3) assms(3) show "list_all (can_write w) outs"
    by (auto simp: list_all_iff intro: fresh_can_write)
qed

lemma pipeline_run:
  assumes "loaded self rd" and "0 < pps" and "cb_frame cb"
    and "fm_wf fm" and "writable_dir w (output_dir fm)"
    and "generate_output_filenames fm (total_pages self) pps = Inr ps"
    and "handle_filename_conflicts fm w ps = Some outs"
  shows "\<exists>w'. split_pdf self pps outs cb w = (True, w')
           \<and> (\<forall>q. lookup_node w' q = overlay (part_files pps (pages rd) outs) w q)"
    and "map (file_pages (snd (split_pdf self pps outs cb w))) outs = chunks (nat pps) (pages rd)"
proof -
  note outs = pipeline_outputs [OF assms(4,2,5,6,7)]
  let ?n = "range_len 0 (total_pages self) pps"
  have n: "?n = range_len 0 (total_pages self) pps" "?n \<le> length outs" "take ?n outs = outs"
    using outs(1) by simp_all
  have cw: "list_all (can_write w) (take ?n outs)" and d: "distinct (take ?n outs)"
    using outs(2,3) n(3) by simp_all
  from split_pdf_run [OF assms(1-3) n(1,2) cw]
  show "\<exists>w'. split_pdf self pps outs cb w = (True, w')
           \<and> (\<forall>q. lookup_node w' q = overlay (part_files pps (pages rd) outs) w q)"
    by blast
  from split_pdf_file_pages [OF assms(1-3) n(1,2) cw d] n(3)
  show "map (file_pages (snd (split_pdf self pps outs cb w))) outs = chunks (nat pps) (pages rd)"
    by simp
qed

end
