(* ===== verification/Cli_Main.thy ===== *)
theory Cli_Main
  imports Split_Pipeline
begin

text \<open>
  The function \<open>main\<close> of \<open>src/main.py\<close> up to the end of the split: the
  checks of the arguments and of the input, the preview, the output directory,
  the names, the question about existing files and the call of \<open>split_pdf\<close>.
  The parsed command line is a record, the lines that \<open>input()\<close> will read are
  a list, and the result is the exit status of the process or the output files
  with which \<open>main\<close> goes on to printing and to its summary. An exception
  that leaves \<open>main\<close> is the exit status 1 that the guard at the end of the
  file makes of it. Text written to the console is not modelled; of the
  information block of \<open>--verbose\<close> the model keeps the look-ups that can
  raise, of \<open>print_progress\<close> the division that can raise, of the preview
  the call that can raise. The size function \<open>sz\<close> is what \<open>stat\<close> answers.
\<close>

section \<open>Command line and console input\<close>

record args =
  arg_input_file :: "string option"
  arg_pages :: int
  arg_output :: "string option"
  arg_print :: bool
  arg_printer :: "string option"
  arg_preview :: bool
  arg_list_printers :: bool
  arg_print_options :: "string option"
  arg_force :: bool
  arg_verbose :: bool

datatype 'a stage = Exit int | Proceed 'a

text \<open>
  \<open>input(...).strip().lower()\<close> and the test \<open>response not in ['y', 'yes']\<close>.
\<close>

definition confirmed :: "string \<Rightarrow> bool" where
  "confirmed response \<longleftrightarrow> py_lower (py_strip response) \<in> set [''y'', ''yes'']"

text \<open>
  \<open>print_progress\<close> computes \<open>(current / total) * 100\<close> and prints it; it
  changes nothing and raises what the division raises.
\<close>

definition print_progress :: callback where
  "print_progress current tot message w = (truediv_error current tot, w)"

section \<open>The stages of main before printing\<close>

definition confirm_overwrite :: "args \<Rightarrow> path list \<Rightarrow> string list \<Rightarrow> world \<Rightarrow> int + string list" where
  "confirm_overwrite args output_files stdin w =
     (if \<not> arg_force args then
        (let existing_files = filter (path_exists w) output_files in
         if existing_files \<noteq> [] then
           (case stdin of
              [] \<Rightarrow> Inl 1
            | response # rest \<Rightarrow> if \<not> confirmed response then Inl 0 else Inr rest)
         else Inr stdin)
      else Inr stdin)"

definition run_split ::
  "args \<Rightarrow> file_manager \<Rightarrow> splitter \<Rightarrow> string list \<Rightarrow> world
     \<Rightarrow> (path list stage \<times> string list \<times> world) option" where
  "run_split args file_manager pdf_splitter stdin w =
     (case create_output_directory file_manager w of
        (False, w1) \<Rightarrow> Some (Exit 1, stdin, w1)
      | (True, w1) \<Rightarrow>
          (let tot = get_total_pages pdf_splitter in
           case generate_output_filenames file_manager tot (arg_pages args) of
             Inl e \<Rightarrow> Some (Exit 1, stdin, w1)
           | Inr output_files \<Rightarrow>
               (case confirm_overwrite args output_files stdin w1 of
                  Inl code \<Rightarrow> Some (Exit code, tl stdin, w1)
                | Inr stdin1 \<Rightarrow>
                    (case handle_filename_conflicts file_manager w1 output_files of
                       None \<Rightarrow> None
                     | Some output_files \<Rightarrow>
                         (case split_pdf pdf_splitter (arg_pages args) output_files
                                 (if arg_verbose args then Some print_progress else None) w1 of
                            (False, w2) \<Rightarrow> Some (Exit 1, stdin1, w2)
                          | (True, w2) \<Rightarrow> Some (Proceed output_files, stdin1, w2))))))"

text \<open>
  The information block of \<open>--verbose\<close>: the values it looks up in the
  dictionary of \<open>get_pdf_info\<close>. A key that is missing raises.
\<close>

definition show_pdf_info ::
  "splitter \<Rightarrow> size_fn \<Rightarrow> world
     \<Rightarrow> (info_value \<times> info_value \<times> info_value \<times> info_value option) result" where
  "show_pdf_info pdf_splitter sz w =
     (case get_pdf_info pdf_splitter sz w of
        Inl e \<Rightarrow> Inl e
      | Inr pdf_info \<Rightarrow>
          (case map_of pdf_info ''total_pages'' of
             None \<Rightarrow> Inl KeyError
           | Some n \<Rightarrow>
               (case map_of pdf_info ''file_size_mb'' of
                  None \<Rightarrow> Inl KeyError
                | Some mb \<Rightarrow>
                    (case map_of pdf_info ''encrypted'' of
                       None \<Rightarrow> Inl KeyError
                     | Some enc \<Rightarrow>
                         Inr (n, mb, enc,
                              case map_of pdf_info ''title'' of
                                None \<Rightarrow> None
                              | Some t \<Rightarrow> if t \<noteq> StrValue ''Unknown'' then Some t else None)))))"

definition split_stage ::
  "args \<Rightarrow> size_fn \<Rightarrow> string list \<Rightarrow> world
     \<Rightarrow> (path list stage \<times> string list \<times> world) option" where
  "split_stage args sz stdin w =
     (if arg_list_printers args then Some (Exit 0, stdin, w)
      else
        (case arg_input_file args of
           None \<Rightarrow> Some (Exit 2, stdin, w)
         | Some input_file_str \<Rightarrow>
             if input_file_str = [] then Some (Exit 2, stdin, w)
             else if \<not> path_exists w (Path input_file_str) then Some (Exit 1, stdin, w)
             else
               (let file_manager = FileManager input_file_str (arg_output args);
                    pdf_splitter = PDFSplitter input_file_str
                in if \<not> validate_input file_manager w then Some (Exit 1, stdin, w)
                   else
                     (case load_pdf pdf_splitter w of
                        (False, pdf_splitter) \<Rightarrow> Some (Exit 1, stdin, w)
                      | (True, pdf_splitter) \<Rightarrow>
                          if arg_verbose args \<and> \<not> is_ok (show_pdf_info pdf_splitter sz w)
                          then Some (Exit 1, stdin, w)
                          else
                            (case validate_split_parameters pdf_splitter (arg_pages args) of
                               (False, error_msg) \<Rightarrow> Some (Exit 1, stdin, w)
                             | (True, error_msg) \<Rightarrow>
                                 if arg_preview args
                                 then (case preview_split pdf_splitter (arg_pages args) of
                                         Inl e \<Rightarrow> Some (Exit 1, stdin, w)
                                       | Inr preview \<Rightarrow> Some (Exit 0, stdin, w))
                                 else run_split args file_manager pdf_splitter stdin w)))))"

lemmas cli_defs [stpl_defs] =
  confirmed_def print_progress_def confirm_overwrite_def run_split_def show_pdf_info_def
  split_stage_def

section \<open>Reading the result of a run\<close>

text \<open>
  The loops call \<open>print_progress\<close> with the length of their list and a
  position in it, where its division is defined: with \<open>--verbose\<close> they run
  as they do without.
\<close>

lemma print_progress_agree: "cb_agree n (if v then Some print_progress else None) None"
  by (simp add: cb_agree_def notify_def print_progress_def truediv_error_fraction)

lemma split_pdf_progress [simp]:
  "split_pdf sp pps outs (if v then Some print_progress else None) w = split_pdf sp pps outs None w"
  by (rule split_pdf_cong) (rule print_progress_agree)

lemma cb_frame_None [simp]: "cb_frame None"
  by (simp add: cb_frame_def)

lemma run_split_Proceed:
  assumes "run_split args fm sp stdin w = Some (Proceed outs, stdin', w2)"
  obtains w1 ps where "create_output_directory fm w = (True, w1)"
    and "generate_output_filenames fm (total_pages sp) (arg_pages args) = Inr ps"
    and "handle_filename_conflicts fm w1 ps = Some outs"
    and "split_pdf sp (arg_pages args) outs None w1 = (True, w2)"
  using assms
  by (auto simp: run_split_def Let_def get_total_pages_def
      split: prod.splits bool.splits sum.splits option.splits)

text \<open>
  The information block cannot fail where \<open>main\<close> runs it, after a successful
  \<open>load_pdf\<close>: the input exists and the dictionary holds the three keys. So
  \<open>split_stage\<close> behaves as if the block were not there.
\<close>

lemma show_pdf_info_ok:
  assumes "load_pdf (PDFSplitter inp) w = (True, sp)"
  shows "is_ok (show_pdf_info sp sz w)"
proof -
  from load_pdf_True [OF assms] obtain rd where
    r: "pdf_reader w (Path inp) = Inr rd" "loaded sp rd"
    by (auto simp: PDFSplitter_def)
  have "input_file (snd (load_pdf (PDFSplitter inp) w)) = Path inp"
    by (simp add: PDFSplitter_def)
  then have "input_file sp = Path inp" by (simp only: assms snd_conv)
  with r show ?thesis
    using get_pdf_info_loaded [of sp rd w sz] by (simp add: show_pdf_info_def)
qed

text \<open>
  Neither can the preview, which \<open>main\<close> runs after the parameters were
  checked: the number of pages per part is positive there.
\<close>

lemma preview_split_ok:
  "validate_split_parameters sp pps = (True, msg) \<Longrightarrow> is_ok (preview_split sp pps)"
  by (auto simp: preview_split_def calculate_split_info_def validate_split_parameters_def
      get_page_ranges_def py_range_def Let_def is_ok_def split: option.splits if_splits)

lemma preview_split_not_Inl:
  "validate_split_parameters sp pps = (True, msg) \<Longrightarrow> preview_split sp pps \<noteq> Inl e"
  using preview_split_ok [of sp pps msg] by (auto simp: is_ok_def)

lemma split_stage_unfold:
  "split_stage args sz stdin w =
     (if arg_list_printers args then Some (Exit 0, stdin, w)
      else
        (case arg_input_file args of
           None \<Rightarrow> Some (Exit 2, stdin, w)
         | Some input_file_str \<Rightarrow>
             if input_file_str = [] then Some (Exit 2, stdin, w)
             else if \<not> path_exists w (Path input_file_str) then Some (Exit 1, stdin, w)
             else
               (let file_manager = FileManager input_file_str (arg_output args);
                    pdf_splitter = PDFSplitter input_file_str
                in if \<not> validate_input file_manager w then Some (Exit 1, stdin, w)
                   else
                     (case load_pdf pdf_splitter w of
                        (False, pdf_splitter) \<Rightarrow> Some (Exit 1, stdin, w)
                      | (True, pdf_splitter) \<Rightarrow>
                          (case validate_split_parameters pdf_splitter (arg_pages args) of
                             (False, error_msg) \<Rightarrow> Some (Exit 1, stdin, w)
                           | (True, error_msg) \<Rightarrow>
                               if arg_preview args then Some (Exit 0, stdin, w)
                               else run_split args file_manager pdf_splitter stdin w)))))"
  by (auto simp: split_stage_def Let_def show_pdf_info_ok preview_split_not_Inl
      split: option.splits prod.splits bool.splits sum.splits)

lemma split_stage_Proceed:
  assumes "split_stage args sz stdin w = Some (Proceed outs, stdin', w2)"
  obtains inp sp where "arg_input_file args = Some inp"
    and "load_pdf (PDFSplitter inp) w = (True, sp)"
    and "fst (validate_split_parameters sp (arg_pages args))"
    and "run_split args (FileManager inp (arg_output args)) sp stdin w = Some (Proceed outs, stdin', w2)"
  using assms
  by (auto simp: split_stage_unfold Let_def
      split: prod.splits bool.splits option.splits if_splits)

lemma run_split_pages:
  assumes "run_split args fm sp stdin w = Some (Proceed outs, stdin', w2)"
    and "loaded sp rd" and "0 < arg_pages args" and "fm_wf fm"
  shows "concat (map (file_pages w2) outs) = pages rd"
    and "\<forall>q. path_exists w q \<longrightarrow> lookup_node w2 q = lookup_node w q"
proof -
  let ?pps = "arg_pages args"
  let ?cb = "None :: callback option"
  from assms(1) obtain w1 ps where
    mk: "create_output_directory fm w = (True, w1)"
    and gen: "generate_output_filenames fm (total_pages sp) ?pps = Inr ps"
    and res: "handle_filename_conflicts fm w1 ps = Some outs"
    and run: "split_pdf sp ?pps outs ?cb w1 = (True, w2)"
    by (rule run_split_Proceed)
  note outs = resolved_outputs [OF assms(4,3) gen res]
  let ?n = "range_len 0 (total_pages sp) ?pps"
  have cbf: "cb_frame ?cb" by simp
  have "fst (split_pdf sp ?pps outs ?cb w1)" using run by simp
  then have cw: "list_all (can_write w1) (take ?n outs)"
    using split_pdf_success_iff [OF assms(2,3) cbf refl] by blast
  have "map (file_pages (snd (split_pdf sp ?pps outs ?cb w1))) (take ?n outs)
          = chunks (nat ?pps) (pages rd)"
    using outs(1,2) by (intro split_pdf_file_pages [OF assms(2,3) cbf refl _ cw]) simp_all
  then have "map (file_pages w2) outs = chunks (nat ?pps) (pages rd)"
    using outs(1) run by simp
  then show "concat (map (file_pages w2) outs) = pages rd"
    using assms(3) by (simp add: concat_chunks)
  show "\<forall>q. path_exists w q \<longrightarrow> lookup_node w2 q = lookup_node w q"
  proof (intro allI impI)
    fix q assume q: "path_exists w q"
    then obtain nd where "lookup_node w q = Some nd" by (auto simp: path_exists_def)
    with create_output_directory_keeps [of w q nd fm] mk
    have q1: "lookup_node w1 q = lookup_node w q" by simp
    with q have "path_exists w1 q" by (simp add: path_exists_def)
    with outs(3) have "q \<notin> set outs" by (auto simp: list_all_iff)
    then have "lookup_node (snd (split_pdf sp ?pps outs ?cb w1)) q = lookup_node w1 q"
      by (rule split_pdf_untouched [OF cbf])
    with run q1 show "lookup_node w2 q = lookup_node w q" by simp
  qed
qed

lemma run_split_outputs:
  assumes "run_split args fm sp stdin w = Some (Proceed outs, stdin', w2)"
    and "loaded sp rd" and "0 < arg_pages args" and "fm_wf fm"
  shows "distinct outs" and "list_all (\<lambda>q. wf_path q \<and> suffix q = ''.pdf'') outs"
    and "list_all (path_exists w2) outs"
proof -
  let ?pps = "arg_pages args"
  let ?cb = "None :: callback option"
  let ?n = "range_len 0 (total_pages sp) ?pps"
  from assms(1) obtain w1 ps where
    gen: "generate_output_filenames fm (total_pages sp) ?pps = Inr ps"
    and res: "handle_filename_conflicts fm w1 ps = Some outs"
    and run: "split_pdf sp ?pps outs ?cb w1 = (True, w2)"
    by (rule run_split_Proceed)
  note outs = resolved_outputs [OF assms(4,3) gen res]
  from outs(2,4) show "distinct outs" "list_all (\<lambda>q. wf_path q \<and> suffix q = ''.pdf'') outs" .
  have cbf: "cb_frame ?cb" by simp
  have "fst (split_pdf sp ?pps outs ?cb w1)" using run by simp
  then have cw: "list_all (can_write w1) (take ?n outs)"
    using split_pdf_success_iff [OF assms(2,3) cbf refl] by blast
  have "list_all (path_exists (snd (split_pdf sp ?pps outs ?cb w1))) (take ?n outs)"
    using outs(1,2) by (intro split_pdf_parts_exist [OF assms(2,3) cbf refl _ cw]) simp_all
  then show "list_all (path_exists w2) outs" using outs(1) run by simp
qed

lemma run_split_returns:
  assumes "fm_wf fm"
  shows "\<exists>r. run_split args fm sp stdin w = Some r"
proof (cases "create_output_directory fm w")
  case (Pair ok w1)
  show ?thesis
  proof (cases "generate_output_filenames fm (total_pages sp) (arg_pages args)")
    case (Inl e)
    with Pair show ?thesis
      by (simp add: run_split_def get_total_pages_def split: bool.splits)
  next
    case (Inr ps)
    then have nz: "arg_pages args \<noteq> 0"
      by (auto simp: generate_output_filenames_def split: if_splits)
    with Inr assms have "list_all wf_path ps"
      by (auto simp: generate_output_filenames_eq list_all_iff part_path_props)
    from handle_filename_conflicts_Some [OF this, of fm w1]
    obtain outs where "handle_filename_conflicts fm w1 ps = Some outs" by blast
    with Pair Inr show ?thesis
      by (simp add: run_split_def get_total_pages_def Let_def
          split: bool.splits sum.splits prod.splits)
  qed
qed

lemma run_split_exit:
  assumes "run_split args fm sp stdin w = Some (Exit c, stdin', w')"
  shows "c = 0 \<or> c = 1"
  using assms
  by (auto simp: run_split_def confirm_overwrite_def Let_def
      split: prod.splits bool.splits sum.splits option.splits if_splits list.splits)

lemma run_split_reached:
  assumes "split_stage args sz stdin w = Some (r, stdin', w')" and "w' \<noteq> w"
  obtains inp sp where "arg_input_file args = Some inp"
    and "load_pdf (PDFSplitter inp) w = (True, sp)"
    and "fst (validate_split_parameters sp (arg_pages args))"
    and "\<not> arg_preview args" and "\<not> arg_list_printers args"
  using assms
  by (auto simp: split_stage_unfold Let_def
      split: prod.splits bool.splits option.splits if_splits)

lemma split_stage_run:
  assumes "split_stage args sz stdin w = Some (Proceed outs, stdin', w')"
  obtains inp sp rd where "arg_input_file args = Some inp"
    and "pdf_reader w (Path inp) = Inr rd" and "loaded sp rd" and "0 < arg_pages args"
    and "run_split args (FileManager inp (arg_output args)) sp stdin w = Some (Proceed outs, stdin', w')"
proof -
  from assms obtain inp sp where a: "arg_input_file args = Some inp"
    and l: "load_pdf (PDFSplitter inp) w = (True, sp)"
    and v: "fst (validate_split_parameters sp (arg_pages args))"
    and r: "run_split args (FileManager inp (arg_output args)) sp stdin w = Some (Proceed outs, stdin', w')"
    by (rule split_stage_Proceed)
  from load_pdf_True [OF l] obtain rd where "pdf_reader w (Path inp) = Inr rd" "loaded sp rd"
    by (auto simp: PDFSplitter_def)
  with a v r that show ?thesis by (auto simp: validate_split_parameters_iff)
qed

section \<open>A run on the example\<close>

text \<open>
  The document of five pages is split into files of two pages; the output
  directory does not exist before the run.
\<close>

definition ex_args :: args where
  "ex_args = \<lparr>arg_input_file = Some ''doc.pdf'', arg_pages = 2, arg_output = Some ''out'',
              arg_print = False, arg_printer = None, arg_preview = False,
              arg_list_printers = False, arg_print_options = None, arg_force = False,
              arg_verbose = False\<rparr>"

definition ex_parts_out :: "path list" where
  "ex_parts_out = [PurePath False [''out'', ''doc_part_001.pdf''],
                   PurePath False [''out'', ''doc_part_002.pdf''],
                   PurePath False [''out'', ''doc_part_003.pdf'']]"

definition ex_after :: world where
  "ex_after =
     \<lparr>fsys = fmupd (PurePath False [''out'', ''doc_part_003.pdf'']) (PdfFile (written_pdf [14]))
              (fmupd (PurePath False [''out'', ''doc_part_002.pdf'']) (PdfFile (written_pdf [12, 13]))
              (fmupd (PurePath False [''out'', ''doc_part_001.pdf'']) (PdfFile (written_pdf [10, 11]))
              (fmupd (PurePath False [''out'']) Dir (fsys ex_world)))),
      denied = {||}\<rparr>"

lemma ex_fm2: "FileManager ''doc.pdf'' (Some ''out'') =
   \<lparr>fm_input_file = PurePath False [''doc.pdf''], output_dir = PurePath False [''out''], base_name = ''doc''\<rparr>"
  by (simp add: FileManager_def Path_def stem_def stem_of_def rfind_def name_def Let_def)

lemma ex_mkdir:
  "create_output_directory \<lparr>fm_input_file = PurePath False [''doc.pdf''],
       output_dir = PurePath False [''out''], base_name = ''doc''\<rparr> ex_world
   = (True, make_dir ex_world (PurePath False [''out'']))"
  by (simp add: create_output_directory_def mkdir_parents_def ancestors_and_self_def
      lookup_node_def ex_world_def)

lemma ex_names3:
  "generate_output_filenames \<lparr>fm_input_file = PurePath False [''doc.pdf''],
       output_dir = PurePath False [''out''], base_name = ''doc''\<rparr> 5 2 = Inr ex_parts_out"
  by (simp add: ex_parts_out_def generate_output_filenames_def
      py_range1_def part_name_def format_03d_def str_nat_small digit_char_def join_str_def
      joinpath_def Path_def Let_def upt_conv_Cons numeral_2_eq_2)

lemma ex_split3:
  "split_pdf ex_splitter 2 ex_parts_out None (make_dir ex_world (PurePath False [''out'']))
     = (True, ex_after)"
  by (simp add: split_pdf_def ex_splitter_def ex_doc_def get_page_ranges_def py_range_def range_len_def
      upt_conv_Cons enumerate_eq_zip add_pages_def page_numbers_def page_at_def reader_pages_def
      py_index_def ex_parts_out_def open_wb_def is_dir_def path_exists_def lookup_node_def
      make_dir_def ex_world_def parent_def ex_after_def written_pdf_def notify_def Let_def)

lemma ex_input:
  "path_exists ex_world (Path ''doc.pdf'')"
  "validate_input \<lparr>fm_input_file = PurePath False [''doc.pdf''],
       output_dir = PurePath False [''out''], base_name = ''doc''\<rparr> ex_world"
  by (simp_all add: validate_input_def Path_def path_exists_def is_file_def lookup_node_def ex_world_def)

lemma ex_free: "\<forall>p \<in> set ex_parts_out. \<not> path_exists (make_dir ex_world (PurePath False [''out''])) p"
  by (simp add: ex_parts_out_def path_exists_def lookup_node_def make_dir_def ex_world_def)

lemma ex_run:
  "run_split ex_args \<lparr>fm_input_file = PurePath False [''doc.pdf''],
       output_dir = PurePath False [''out''], base_name = ''doc''\<rparr> ex_splitter [] ex_world
   = Some (Proceed ex_parts_out, [], ex_after)"
proof -
  have "total_pages ex_splitter = 5" by (simp add: ex_splitter_def)
  moreover have "filter (path_exists (make_dir ex_world (PurePath False [''out'']))) ex_parts_out = []"
    using ex_free by (simp add: filter_empty_conv)
  ultimately show ?thesis
    using ex_free
    by (simp add: run_split_def ex_args_def ex_mkdir ex_names3 ex_split3 get_total_pages_def
        confirm_overwrite_def handle_filename_conflicts_unchanged)
qed

lemma ex_main: "split_stage ex_args sz [] ex_world = Some (Proceed ex_parts_out, [], ex_after)"
proof -
  have "validate_split_parameters ex_splitter 2 = (True, [])"
    by (simp add: validate_split_parameters_def ex_splitter_def)
  with ex_run [unfolded ex_args_def] show ?thesis
    by (simp add: split_stage_unfold ex_args_def ex_load ex_fm2 ex_input Let_def)
qed

lemma confirmed_examples:
  "confirmed '' Yes ''" "confirmed ''y''" "\<not> confirmed ''n''" "\<not> confirmed []"
  by code_simp+

section \<open>Properties\<close>

text \<open>
  The part of \<open>main\<close> before printing always comes to an end: for
  every command line, every console input and every name space it returns an
  exit status or the list of files it has written. In particular the
  renaming loop ends on every name the tool generates.
\<close>

theorem split_stage_returns: "\<exists>r. split_stage args sz stdin w = Some r"
  using run_split_returns [OF fm_wf_FileManager]
  by (simp add: split_stage_unfold Let_def split: option.splits prod.splits bool.splits)

text \<open>
  The exit status of the part of \<open>main\<close> before printing is 0, 1 or
  2 (2 only for a missing input argument, as \<open>argparse\<close> reports it).
\<close>

theorem split_stage_exit_status:
  assumes "split_stage args sz stdin w = Some (Exit c, stdin', w')"
  shows "c \<in> {0, 1, 2}"
  using assms run_split_exit
  by (fastforce simp: split_stage_unfold Let_def
      split: prod.splits bool.splits option.splits if_splits)

theorem split_stage_exit_status_witness:
  "(1::int) \<in> {0, 1, 2} \<and> split_stage (ex_args\<lparr>arg_pages := 7\<rparr>) ex_sizes [] ex_world = Some (Exit 1, [], ex_world)"
proof -
  have "validate_split_parameters ex_splitter 7 = (False,
      ''Pages per split (7) should be less than total pages (5)'')"
    by (simp add: validate_split_parameters_def ex_splitter_def str_int_def str_nat_small digit_char_def)
  then have run: "split_stage (ex_args\<lparr>arg_pages := 7\<rparr>) ex_sizes [] ex_world = Some (Exit 1, [], ex_world)"
    by (simp add: split_stage_unfold ex_args_def ex_load ex_fm2 ex_input Let_def)
  from split_stage_exit_status [OF run] run show ?thesis by simp
qed

text \<open>
  C20. Nothing is created or changed before all checks have passed: if the
  name space after the run differs from the one before, then the input is a
  readable document, \<open>0 < pages < total pages\<close> holds, and the run was
  neither a preview nor a listing of printers.
\<close>

theorem split_stage_checks_first:
  assumes "split_stage args sz stdin w = Some (r, stdin', w')" and "w' \<noteq> w"
  shows "\<exists>inp rd. arg_input_file args = Some inp \<and> pdf_reader w (Path inp) = Inr rd
           \<and> 0 < arg_pages args \<and> arg_pages args < int (length (pages rd))
           \<and> \<not> arg_preview args \<and> \<not> arg_list_printers args"
proof -
  from assms obtain inp sp where a: "arg_input_file args = Some inp"
    and l: "load_pdf (PDFSplitter inp) w = (True, sp)"
    and v: "fst (validate_split_parameters sp (arg_pages args))"
    and p: "\<not> arg_preview args" "\<not> arg_list_printers args"
    by (rule run_split_reached)
  from load_pdf_True [OF l] obtain rd where "pdf_reader w (Path inp) = Inr rd" "loaded sp rd"
    by (auto simp: PDFSplitter_def)
  with a v p show ?thesis
    by (auto simp: validate_split_parameters_iff loaded_def)
qed

theorem split_stage_checks_first_witness:
  "\<exists>inp rd. arg_input_file ex_args = Some inp \<and> pdf_reader ex_world (Path inp) = Inr rd
         \<and> 0 < arg_pages ex_args \<and> arg_pages ex_args < int (length (pages rd))
         \<and> \<not> arg_preview ex_args \<and> \<not> arg_list_printers ex_args"
proof -
  have "lookup_node ex_after (PurePath False [''out'']) \<noteq> lookup_node ex_world (PurePath False [''out''])"
    by (simp add: ex_after_def ex_world_def lookup_node_def)
  then have "ex_after \<noteq> ex_world" by auto
  with split_stage_checks_first [OF ex_main] show ?thesis by simp
qed

end
