(* ===== verification/Printer_Manager.thy ===== *)
theory Printer_Manager
  imports Pdf_Splitter "HOL-Library.AList"
begin

text \<open>
  The class \<open>PrinterManager\<close> of \<open>src/printer_manager.py\<close>. The operating
  system is a record \<open>host\<close>: the name of the platform, whether the \<open>win32\<close>
  modules can be imported, and what a program or a \<open>win32\<close> function answers
  after the calls made so far. The calls made are the state: every method
  takes the trace of calls and returns it extended. A message that the
  source formats with an exception is its fixed text paired with the
  exception; the text of the exception itself is not modelled.
\<close>

section \<open>The host\<close>

datatype proc_result = Exited int string | Failed py_error

datatype call =
    Subprocess "string list"
  | EnumPrinters
  | GetDefaultPrinter
  | SetDefaultPrinter string
  | ShellExecute string

type_synonym trace = "call list"

record host =
  platform_system :: string
  win32_present :: bool
  run_program :: "trace \<Rightarrow> string list \<Rightarrow> proc_result"
  win32_enum :: "trace \<Rightarrow> string list result"
  win32_get_default :: "trace \<Rightarrow> string result"
  win32_set_default :: "trace \<Rightarrow> string \<Rightarrow> py_error option"
  win32_shell_print :: "trace \<Rightarrow> string \<Rightarrow> py_error option"

type_synonym message = "string \<times> py_error option"

type_synonym options_dict = "(string \<times> string) list"

type_synonym results_dict = "(string \<times> bool \<times> message) list"

text \<open>
  \<open>subprocess.run(cmd, ..., check=True)\<close>: the output of the program, or the
  exception when it cannot be started or does not exit with 0.
\<close>

definition subprocess_run :: "host \<Rightarrow> trace \<Rightarrow> string list \<Rightarrow> string result \<times> trace" where
  "subprocess_run h tr cmd =
     ((case run_program h tr cmd of
         Failed e \<Rightarrow> Inl e
       | Exited returncode out \<Rightarrow> if returncode \<noteq> 0 then Inl CalledProcessError else Inr out),
      tr @ [Subprocess cmd])"

definition quote :: "string \<Rightarrow> string" where
  "quote s = [CHR 0x27] @ s @ [CHR 0x27]"

definition truthy :: "string option \<Rightarrow> bool" where
  "truthy s \<longleftrightarrow> (case s of None \<Rightarrow> False | Some n \<Rightarrow> n \<noteq> [])"

section \<open>The object\<close>

record printer_manager =
  system :: string
  available_printers :: "string list"
  default_printer :: "string option"

definition PrinterManager :: "host \<Rightarrow> printer_manager" where
  "PrinterManager h = \<lparr>system = platform_system h, available_printers = [], default_printer = None\<rparr>"

definition get_system_type :: "printer_manager \<Rightarrow> string" where
  "get_system_type self = system self"

section \<open>Listing printers\<close>

text \<open>
  The loop over the lines of \<open>lpstat -p\<close>: the second word of every line that
  starts with \<open>printer \<close>. A line without a second word raises.
\<close>

definition lpstat_printers :: "string \<Rightarrow> string list result" where
  "lpstat_printers out =
     traverse (\<lambda>line. py_index (words line) 1)
       (filter (\<lambda>line. startswith line ''printer '') (split_on CHR 0x0A out))"

definition list_mac_printers :: "host \<Rightarrow> trace \<Rightarrow> string list result \<times> trace" where
  "list_mac_printers h tr =
     (case subprocess_run h tr [''lpstat'', ''-p''] of
        (Inr out, tr') \<Rightarrow> (lpstat_printers out, tr')
      | (Inl e, tr') \<Rightarrow> (if e = CalledProcessError then Inr [] else Inl e, tr'))"

definition list_linux_printers :: "host \<Rightarrow> trace \<Rightarrow> string list result \<times> trace" where
  "list_linux_printers h tr =
     (case subprocess_run h tr [''lpstat'', ''-p''] of
        (Inr out, tr') \<Rightarrow> (lpstat_printers out, tr')
      | (Inl e, tr') \<Rightarrow> (if e = CalledProcessError then Inr [] else Inl e, tr'))"

definition list_windows_printers :: "host \<Rightarrow> trace \<Rightarrow> string list result \<times> trace" where
  "list_windows_printers h tr =
     (if win32_present h then (win32_enum h tr, tr @ [EnumPrinters])
      else
        (case subprocess_run h tr
                [''powershell'', ''-Command'', ''Get-Printer | Select-Object -ExpandProperty Name''] of
           (Inr out, tr') \<Rightarrow>
             (Inr (map py_strip (filter (\<lambda>line. py_strip line \<noteq> []) (split_on CHR 0x0A out))), tr')
         | (Inl e, tr') \<Rightarrow> (if e = CalledProcessError then Inr [] else Inl e, tr')))"

definition list_printers :: "printer_manager \<Rightarrow> host \<Rightarrow> trace \<Rightarrow> string list \<times> trace" where
  "list_printers self h tr =
     (let (r, tr') =
            (if system self = ''Windows'' then list_windows_printers h tr
             else if system self = ''Darwin'' then list_mac_printers h tr
             else if system self = ''Linux'' then list_linux_printers h tr
             else (Inr [], tr))
      in (case r of Inl e \<Rightarrow> [] | Inr printers \<Rightarrow> printers, tr'))"

section \<open>The default printer\<close>

definition get_windows_default_printer :: "host \<Rightarrow> trace \<Rightarrow> string option result \<times> trace" where
  "get_windows_default_printer h tr =
     (if win32_present h then (map_sum id Some (win32_get_default h tr), tr @ [GetDefaultPrinter])
      else
        (case subprocess_run h tr
                [''powershell'', ''-Command'',
                 ''Get-WmiObject -Query '' @ quote ''SELECT * FROM Win32_Printer WHERE Default = True''
                 @ '' | Select-Object -ExpandProperty Name''] of
           (Inr out, tr') \<Rightarrow> (Inr (Some (py_strip out)), tr')
         | (Inl e, tr') \<Rightarrow> (if e = CalledProcessError then Inr None else Inl e, tr')))"

definition get_unix_default_printer :: "host \<Rightarrow> trace \<Rightarrow> string option result \<times> trace" where
  "get_unix_default_printer h tr =
     (case subprocess_run h tr [''lpstat'', ''-d''] of
        (Inr out, tr') \<Rightarrow>
          (Inr (map_option (\<lambda>line. py_strip (last (split_on CHR '':'' line)))
                  (find (\<lambda>line. contains line ''system default destination:'')
                     (split_on CHR 0x0A out))),
           tr')
      | (Inl e, tr') \<Rightarrow> (if e = CalledProcessError then Inr None else Inl e, tr'))"

definition get_default_printer :: "printer_manager \<Rightarrow> host \<Rightarrow> trace \<Rightarrow> string option \<times> trace" where
  "get_default_printer self h tr =
     (let (r, tr') =
            (if system self = ''Windows'' then get_windows_default_printer h tr
             else if system self \<in> set [''Darwin'', ''Linux''] then get_unix_default_printer h tr
             else (Inr None, tr))
      in (case r of Inl e \<Rightarrow> None | Inr d \<Rightarrow> d, tr'))"

section \<open>Printing one file\<close>

definition sent_to :: "string option \<Rightarrow> message" where
  "sent_to printer_name =
     (''Sent to printer: '' @ (if truthy printer_name then the printer_name else ''default''), None)"

definition lpr_command :: "path \<Rightarrow> string option \<Rightarrow> options_dict option \<Rightarrow> string list" where
  "lpr_command file_path printer_name opts =
     [''lpr'']
     @ (if truthy printer_name then [''-P'', the printer_name] else [])
     @ (case opts of
          None \<Rightarrow> []
        | Some kvs \<Rightarrow> concat (map (\<lambda>(key, v). [''-o'', key @ ''='' @ v]) kvs))
     @ [path_str file_path]"

definition print_mac ::
  "host \<Rightarrow> trace \<Rightarrow> path \<Rightarrow> string option \<Rightarrow> options_dict option
     \<Rightarrow> (bool \<times> message) result \<times> trace" where
  "print_mac h tr file_path printer_name opts =
     (case subprocess_run h tr (lpr_command file_path printer_name opts) of
        (Inr out, tr') \<Rightarrow> (Inr (True, sent_to printer_name), tr')
      | (Inl e, tr') \<Rightarrow>
          (if e = CalledProcessError then Inr (False, (''Mac print failed: '', Some e)) else Inl e, tr'))"

definition print_linux ::
  "host \<Rightarrow> trace \<Rightarrow> path \<Rightarrow> string option \<Rightarrow> options_dict option
     \<Rightarrow> (bool \<times> message) result \<times> trace" where
  "print_linux h tr file_path printer_name opts =
     (case subprocess_run h tr (lpr_command file_path printer_name opts) of
        (Inr out, tr') \<Rightarrow> (Inr (True, sent_to printer_name), tr')
      | (Inl e, tr') \<Rightarrow>
          (if e = CalledProcessError then Inr (False, (''Linux print failed: '', Some e)) else Inl e, tr'))"

definition print_windows ::
  "host \<Rightarrow> trace \<Rightarrow> path \<Rightarrow> string option \<Rightarrow> options_dict option
     \<Rightarrow> (bool \<times> message) result \<times> trace" where
  "print_windows h tr file_path printer_name opts =
     (if win32_present h then
        (let (failed, tr1) =
               (if truthy printer_name
                then (win32_set_default h tr (the printer_name),
                      tr @ [SetDefaultPrinter (the printer_name)])
                else (None, tr))
         in case failed of
              Some e \<Rightarrow> (Inl e, tr1)
            | None \<Rightarrow>
                (case win32_shell_print h tr1 (path_str file_path) of
                   Some e \<Rightarrow> (Inl e, tr1 @ [ShellExecute (path_str file_path)])
                 | None \<Rightarrow>
                     (Inr (True, sent_to printer_name), tr1 @ [ShellExecute (path_str file_path)])))
      else
        (case subprocess_run h tr
                [''powershell'', ''-Command'',
                 ''Start-Process -FilePath '' @ quote (path_str file_path) @ '' -Verb Print''] of
           (Inr out, tr') \<Rightarrow> (Inr (True, (''Sent to printer via PowerShell'', None)), tr')
         | (Inl e, tr') \<Rightarrow>
             (if e = CalledProcessError then Inr (False, (''PowerShell print failed: '', Some e))
              else Inl e, tr')))"

definition print_file ::
  "printer_manager \<Rightarrow> host \<Rightarrow> world \<Rightarrow> trace \<Rightarrow> path \<Rightarrow> string option \<Rightarrow> options_dict option
     \<Rightarrow> (bool \<times> message) \<times> trace" where
  "print_file self h w tr file_path printer_name opts =
     (if \<not> path_exists w file_path
      then ((False, (''File not found: '' @ path_str file_path, None)), tr)
      else if \<not> py_lower (suffix file_path) = ''.pdf''
      then ((False, (''Only PDF files are supported for printing'', None)), tr)
      else
        (let (r, tr') =
               (if system self = ''Windows'' then print_windows h tr file_path printer_name opts
                else if system self = ''Darwin'' then print_mac h tr file_path printer_name opts
                else if system self = ''Linux'' then print_linux h tr file_path printer_name opts
                else (Inr (False, (''Printing not supported on '' @ system self, None)), tr))
         in (case r of Inl e \<Rightarrow> (False, (''Print error: '', Some e)) | Inr res \<Rightarrow> res, tr')))"

section \<open>Printing a list of files\<close>

text \<open>
  The body of the loop of \<open>print_multiple_files\<close>, once per file, in order.
  The result of a file is stored under the printed form of its path; a second
  file with the same printed form replaces the result of the first. Nothing
  catches an exception of the callback: it ends the loop and leaves the
  method, with the commands of the files before it already run.
\<close>

fun print_loop ::
  "printer_manager \<Rightarrow> host \<Rightarrow> callback option \<Rightarrow> int \<Rightarrow> string option \<Rightarrow> options_dict option
     \<Rightarrow> (nat \<times> path) list \<Rightarrow> results_dict \<Rightarrow> world \<Rightarrow> trace
     \<Rightarrow> results_dict result \<times> world \<times> trace" where
  "print_loop self h cb n printer_name opts [] results w tr = (Inr results, w, tr)"
| "print_loop self h cb n printer_name opts ((i, file_path) # rest) results w tr =
     (case notify cb (int i + 1) n (''Printing '' @ name file_path) w of
        (Some e, w1) \<Rightarrow> (Inl e, w1, tr)
      | (None, w1) \<Rightarrow>
          (let (res, tr1) = print_file self h w1 tr file_path printer_name opts
           in print_loop self h cb n printer_name opts rest
                (AList.update (path_str file_path) res results) w1 tr1))"

definition print_multiple_files ::
  "printer_manager \<Rightarrow> host \<Rightarrow> path list \<Rightarrow> string option \<Rightarrow> options_dict option
     \<Rightarrow> callback option \<Rightarrow> world \<Rightarrow> trace \<Rightarrow> results_dict result \<times> world \<times> trace" where
  "print_multiple_files self h file_paths printer_name opts progress_callback w tr =
     print_loop self h progress_callback (int (length file_paths)) printer_name opts
       (enumerate 0 file_paths) [] w tr"

section \<open>Status and the table of options\<close>

record printer_status =
  status_name :: string
  available :: bool
  status :: string

definition check_printer_status ::
  "printer_manager \<Rightarrow> host \<Rightarrow> trace \<Rightarrow> string \<Rightarrow> printer_status result \<times> trace" where
  "check_printer_status self h tr printer_name =
     (if system self \<in> set [''Darwin'', ''Linux''] then
        (case subprocess_run h tr [''lpstat'', ''-p'', printer_name] of
           (Inr out, tr') \<Rightarrow>
             (Inr (if contains (py_lower out) ''disabled''
                   then \<lparr>status_name = printer_name, available = False, status = ''disabled''\<rparr>
                   else if contains (py_lower out) ''idle''
                   then \<lparr>status_name = printer_name, available = True, status = ''idle''\<rparr>
                   else \<lparr>status_name = printer_name, available = True, status = ''unknown''\<rparr>),
              tr')
         | (Inl e, tr') \<Rightarrow>
             (if e = CalledProcessError
              then Inr \<lparr>status_name = printer_name, available = False, status = ''not found''\<rparr>
              else Inl e, tr'))
      else (Inr \<lparr>status_name = printer_name, available = True, status = ''unknown''\<rparr>, tr))"

definition get_print_options_help :: "printer_manager \<Rightarrow> (string \<times> string) list" where
  "get_print_options_help self =
     [(''sides'', ''one-sided, two-sided-long-edge, two-sided-short-edge''),
      (''media'', ''a4, letter, legal, etc.''),
      (''orientation'', ''portrait, landscape''),
      (''quality'', ''draft, normal, high''),
      (''copies'', ''number of copies (1, 2, 3, etc.)''),
      (''page-ranges'', ''1-5, 1,3,5, etc.''),
      (''finishings'', ''staple-top-left, staple-top-right, staple-bottom-left, ''
         @ ''staple-bottom-right, staple-dual-left, staple-dual-top, staple-none'')]"

lemmas printer_defs [stpl_defs] =
  subprocess_run_def quote_def truthy_def PrinterManager_def get_system_type_def
  lpstat_printers_def list_mac_printers_def list_linux_printers_def list_windows_printers_def
  list_printers_def get_windows_default_printer_def get_unix_default_printer_def
  get_default_printer_def sent_to_def lpr_command_def print_mac_def print_linux_def
  print_windows_def print_file_def print_multiple_files_def check_printer_status_def

section \<open>Reference notions\<close>

text \<open>
  A file that \<open>print_file\<close> accepts; the two platforms that print with
  \<open>lpr\<close>; a program that exits with status 0. The answer of \<open>lpstat -p\<close> is
  one line per printer, the word \<open>printer\<close>, the name and the state, and the
  answer of \<open>lpstat -d\<close> names the default destination after a colon.
\<close>

definition printable :: "world \<Rightarrow> path \<Rightarrow> bool" where
  "printable w p \<longleftrightarrow> path_exists w p \<and> py_lower (suffix p) = ''.pdf''"

definition unix :: "printer_manager \<Rightarrow> bool" where
  "unix self \<longleftrightarrow> system self = ''Darwin'' \<or> system self = ''Linux''"

definition exits_ok :: "proc_result \<Rightarrow> bool" where
  "exits_ok r \<longleftrightarrow> (case r of Exited returncode out \<Rightarrow> returncode = 0 | Failed e \<Rightarrow> False)"

definition lpstat_line :: "string \<times> string \<Rightarrow> string" where
  "lpstat_line e = ''printer '' @ fst e @ '' '' @ snd e"

definition lpstat_report :: "(string \<times> string) list \<Rightarrow> string" where
  "lpstat_report entries = concat (map (\<lambda>e. lpstat_line e @ [CHR 0x0A]) entries)"

definition printer_word :: "string \<Rightarrow> bool" where
  "printer_word n \<longleftrightarrow> n \<noteq> [] \<and> list_all (\<lambda>c. \<not> is_space c) n"

definition one_line :: "string \<Rightarrow> bool" where
  "one_line s \<longleftrightarrow> CHR 0x0A \<notin> set s"

definition default_report :: "string \<Rightarrow> string" where
  "default_report n = ''system default destination: '' @ n @ [CHR 0x0A]"

section \<open>Running a program\<close>

lemma exits_ok_iff: "exits_ok r \<longleftrightarrow> (\<exists>out. r = Exited 0 out)"
  by (auto simp: exits_ok_def split: proc_result.splits)

lemma subprocess_run_trace [simp]: "snd (subprocess_run h tr cmd) = tr @ [Subprocess cmd]"
  by (simp add: subprocess_run_def)

lemma subprocess_run_ok:
  "fst (subprocess_run h tr cmd) = Inr out \<longleftrightarrow> run_program h tr cmd = Exited 0 out"
  by (auto simp: subprocess_run_def split: proc_result.splits)

lemma subprocess_run_Exited:
  "run_program h tr cmd = Exited 0 out \<Longrightarrow> subprocess_run h tr cmd = (Inr out, tr @ [Subprocess cmd])"
  by (simp add: subprocess_run_def)

section \<open>Reading the answer of lpstat\<close>

lemma space_chars [simp]: "is_space CHR '' ''" "is_space (CHR 0x0A)"
  by (simp_all add: is_space_def)

lemma printer_word_one_line: "printer_word n \<Longrightarrow> one_line n"
  by (auto simp: printer_word_def one_line_def list_all_iff)

lemma words_lpstat_line:
  assumes "printer_word n"
  shows "words (lpstat_line (n, r)) = ''printer'' # n # words r"
proof -
  have "words (''printer'' @ CHR '' '' # (n @ CHR '' '' # r)) = ''printer'' # words (n @ CHR '' '' # r)"
    by (rule words_word) (simp_all add: is_space_def)
  also have "words (n @ CHR '' '' # r) = n # words r"
    using assms by (intro words_word) (simp_all add: printer_word_def list_all_iff)
  finally show ?thesis by (simp add: lpstat_line_def)
qed

lemma lpstat_line_starts [simp]: "startswith (lpstat_line e) ''printer ''"
  by (simp add: startswith_def lpstat_line_def)

lemma startswith_Nil [simp]: "startswith [] p \<longleftrightarrow> p = []"
  by (auto simp: startswith_def)

lemma filter_lpstat_lines [simp]:
  "filter (\<lambda>line. startswith line ''printer '') (map lpstat_line entries) = map lpstat_line entries"
  by (induction entries) simp_all

lemma lpstat_printers_report:
  assumes "list_all (\<lambda>e. printer_word (fst e) \<and> one_line (snd e)) entries"
  shows "lpstat_printers (lpstat_report entries) = Inr (map fst entries)"
proof -
  have nl: "\<forall>l \<in> set (map lpstat_line entries). CHR 0x0A \<notin> set l"
    using assms printer_word_one_line
    by (fastforce simp: list_all_iff lpstat_line_def one_line_def)
  have "lpstat_report entries = concat (map (\<lambda>l. l @ [CHR 0x0A]) (map lpstat_line entries))"
    by (simp add: lpstat_report_def comp_def)
  then have "split_on (CHR 0x0A) (lpstat_report entries) = map lpstat_line entries @ [[]]"
    using split_on_terminated [OF nl] by simp
  then have "lpstat_printers (lpstat_report entries)
      = traverse (\<lambda>line. py_index (words line) 1) (map lpstat_line entries)"
    by (simp add: lpstat_printers_def)
  also have "\<dots> = Inr (map (\<lambda>l. words l ! 1) (map lpstat_line entries))"
  proof (rule traverse_all_ok)
    fix l assume "l \<in> set (map lpstat_line entries)"
    then obtain n r where "(n, r) \<in> set entries" and l: "l = lpstat_line (n, r)" by auto
    with assms have "printer_word n" by (auto simp: list_all_iff)
    then show "py_index (words l) 1 = Inr (words l ! 1)"
      using py_index_nat [of "words l" 1] by (simp add: l words_lpstat_line del: py_index_nat)
  qed
  also have "map (\<lambda>l. words l ! 1) (map lpstat_line entries) = map fst entries"
    using assms by (auto simp: list_all_iff words_lpstat_line)
  finally show ?thesis .
qed

lemma lpstat_printers_bare_line:
  assumes "list_all one_line (before @ after)"
  shows "lpstat_printers (concat (map (\<lambda>l. l @ [CHR 0x0A]) (before @ [''printer ''] @ after)))
           = Inl IndexError"
proof -
  let ?ls = "before @ [''printer ''] @ after"
  have "\<forall>l \<in> set ?ls. CHR 0x0A \<notin> set l"
    using assms by (auto simp: list_all_iff one_line_def)
  from split_on_terminated [OF this]
  have eq: "lpstat_printers (concat (map (\<lambda>l. l @ [CHR 0x0A]) ?ls))
      = traverse (\<lambda>line. py_index (words line) 1)
          (filter (\<lambda>line. startswith line ''printer '') (?ls @ [[]]))"
    by (simp only: lpstat_printers_def)
  have w: "words ''printer '' = [''printer'']"
    using words_word [of "''printer''" "CHR '' ''" "[]"] by (simp add: is_space_def)
  have "\<not> is_ok (traverse (\<lambda>line. py_index (words line) 1)
          (filter (\<lambda>line. startswith line ''printer '') (?ls @ [[]])))"
    using py_index_nat [of "[''printer'']" 1]
    by (simp add: traverse_ok_iff startswith_def w del: py_index_nat)
  moreover have "traverse (\<lambda>line. py_index (words line) 1) ls = Inl e \<Longrightarrow> e = IndexError" for ls e
    by (induction ls) (auto simp: py_index_def split: sum.splits if_splits)
  ultimately show ?thesis
    unfolding eq by (metis is_ok_simps(1) old.sum.exhaust)
qed

section \<open>Listing\<close>

lemma list_printers_unix:
  assumes "unix self"
  shows "list_printers self h tr =
           (case run_program h tr [''lpstat'', ''-p''] of
              Exited returncode out \<Rightarrow>
                if returncode = 0
                then (case lpstat_printers out of Inl e \<Rightarrow> [] | Inr printers \<Rightarrow> printers)
                else []
            | Failed e \<Rightarrow> [],
            tr @ [Subprocess [''lpstat'', ''-p'']])"
  using assms
  by (auto simp: unix_def list_printers_def list_mac_printers_def list_linux_printers_def
      subprocess_run_def split: proc_result.splits sum.splits)

lemma list_printers_other:
  assumes "system self \<notin> set [''Windows'', ''Darwin'', ''Linux'']"
  shows "list_printers self h tr = ([], tr)"
  using assms by (simp add: list_printers_def)

section \<open>The default printer\<close>

lemma contains_prefix: "contains (p @ s) p"
proof (cases "p @ s")
  case Nil
  then show ?thesis by simp
next
  case (Cons a list)
  have "startswith (p @ s) p" by (simp add: startswith_def)
  then show ?thesis by (simp add: Cons)
qed

lemma get_unix_default_printer_report:
  assumes "CHR '':'' \<notin> set n" and "one_line n"
    and that: "run_program h tr [''lpstat'', ''-d''] = Exited 0 (default_report n)"
  shows "fst (get_unix_default_printer h tr) = Inr (Some (py_strip n))"
proof -
  have "split_on (CHR 0x0A) (default_report n) = [''system default destination: '' @ n, []]"
    using assms(2) split_on_terminated [of "[''system default destination: '' @ n]" "CHR 0x0A"]
    by (simp add: default_report_def one_line_def)
  moreover have "contains (''system default destination: '' @ n) ''system default destination:''"
    using contains_prefix [of "''system default destination:''" "'' '' @ n"] by simp
  moreover have "split_on CHR '':'' (''system default destination: '' @ n)
      = [''system default destination'', '' '' @ n]"
    using assms(1) split_on_append_sep [of "CHR '':''" "''system default destination''" "'' '' @ n"]
    by (simp add: split_on_no_sep)
  moreover have "py_strip ('' '' @ n) = py_strip n"
    by (simp add: py_strip_def dropWhile_append)
  ultimately show ?thesis
    using that by (simp add: get_unix_default_printer_def subprocess_run_def)
qed

section \<open>One file\<close>

lemma print_unix_trace:
  "snd (print_mac h tr p pn opts) = tr @ [Subprocess (lpr_command p pn opts)]"
  "snd (print_linux h tr p pn opts) = tr @ [Subprocess (lpr_command p pn opts)]"
  by (simp_all add: print_mac_def print_linux_def subprocess_run_def split: proc_result.splits)

lemma print_file_cong:
  "fsys w' = fsys w \<Longrightarrow> print_file self h w' tr p pn opts = print_file self h w tr p pn opts"
proof -
  assume "fsys w' = fsys w"
  then have "path_exists w' p = path_exists w p" by (simp add: path_exists_def lookup_node_def)
  then show ?thesis by (simp add: print_file_def)
qed

lemma print_file_invalid:
  assumes "\<not> printable w p"
  shows "snd (print_file self h w tr p pn opts) = tr"
    and "\<not> fst (fst (print_file self h w tr p pn opts))"
  using assms by (auto simp: print_file_def printable_def)

lemma print_file_unix:
  assumes "unix self"
  shows "snd (print_file self h w tr p pn opts) =
           (if printable w p then tr @ [Subprocess (lpr_command p pn opts)] else tr)"
    and "fst (fst (print_file self h w tr p pn opts)) \<longleftrightarrow>
           printable w p \<and> exits_ok (run_program h tr (lpr_command p pn opts))"
proof -
  show "snd (print_file self h w tr p pn opts) =
           (if printable w p then tr @ [Subprocess (lpr_command p pn opts)] else tr)"
    using assms print_unix_trace [of h tr p pn opts]
    by (auto simp: print_file_def printable_def unix_def split: prod.splits)
  show "fst (fst (print_file self h w tr p pn opts)) \<longleftrightarrow>
           printable w p \<and> exits_ok (run_program h tr (lpr_command p pn opts))"
    using assms
    by (auto simp: print_file_def printable_def unix_def print_mac_def print_linux_def
        subprocess_run_def exits_ok_def split: prod.splits proc_result.splits sum.splits)
qed

lemma print_file_windows_options:
  assumes "system self = ''Windows''"
  shows "print_file self h w tr p pn opts = print_file self h w tr p pn None"
  using assms by (simp add: print_file_def print_windows_def)

text \<open>
  On Windows with the \<open>win32\<close> modules a named printer is made the default
  printer of the system before the file is handed to the shell, and it stays
  the default afterwards.
\<close>

lemma print_file_win32:
  assumes "system self = ''Windows''" and "win32_present h" and "printable w p"
  shows "truthy pn \<Longrightarrow> win32_set_default h tr (the pn) \<noteq> None \<Longrightarrow>
           print_file self h w tr p pn opts =
             ((False, (''Print error: '', win32_set_default h tr (the pn))),
              tr @ [SetDefaultPrinter (the pn)])"
    and "truthy pn \<Longrightarrow> win32_set_default h tr (the pn) = None \<Longrightarrow>
           snd (print_file self h w tr p pn opts) =
             tr @ [SetDefaultPrinter (the pn), ShellExecute (path_str p)]"
    and "\<not> truthy pn \<Longrightarrow> snd (print_file self h w tr p pn opts) = tr @ [ShellExecute (path_str p)]"
  using assms
  by (auto simp: print_file_def print_windows_def printable_def Let_def split: option.splits)

section \<open>Status and default printer on macOS and Linux\<close>

lemma check_printer_status_unix:
  assumes "unix self"
  shows "snd (check_printer_status self h tr n) = tr @ [Subprocess [''lpstat'', ''-p'', n]]"
    and "run_program h tr [''lpstat'', ''-p'', n] = Exited 0 out \<Longrightarrow>
           fst (check_printer_status self h tr n) =
             Inr \<lparr>status_name = n, available = \<not> contains (py_lower out) ''disabled'',
                  status = (if contains (py_lower out) ''disabled'' then ''disabled''
                            else if contains (py_lower out) ''idle'' then ''idle'' else ''unknown'')\<rparr>"
    and "run_program h tr [''lpstat'', ''-p'', n] = Exited c out \<Longrightarrow> c \<noteq> 0 \<Longrightarrow>
           fst (check_printer_status self h tr n) =
             Inr \<lparr>status_name = n, available = False, status = ''not found''\<rparr>"
  using assms
  by (auto simp: check_printer_status_def unix_def subprocess_run_def split: proc_result.splits)

lemma get_default_printer_unix:
  assumes "unix self" and "CHR '':'' \<notin> set n" and "one_line n"
    and "run_program h tr [''lpstat'', ''-d''] = Exited 0 (default_report n)"
  shows "get_default_printer self h tr = (Some (py_strip n), tr @ [Subprocess [''lpstat'', ''-d'']])"
proof -
  have "snd (get_unix_default_printer h tr) = tr @ [Subprocess [''lpstat'', ''-d'']]"
    by (simp add: get_unix_default_printer_def subprocess_run_def split: proc_result.splits)
  with get_unix_default_printer_report [OF assms(2-4)] assms(1)
  show ?thesis
    by (auto simp: get_default_printer_def unix_def case_prod_beta)
qed

section \<open>Properties\<close>

text \<open>
  A Linux host for the examples: \<open>lpstat\<close> knows two printers and a default,
  and \<open>lpr\<close> accepts every file but \<open>b.pdf\<close>. The three files of \<open>ex_outs\<close>
  exist in \<open>ex_printed\<close>.
\<close>

definition ex_host :: host where
  "ex_host =
     \<lparr>platform_system = ''Linux'', win32_present = False,
      run_program = (\<lambda>tr cmd.
        if cmd = [''lpstat'', ''-p'']
        then Exited 0 (lpstat_report [(''HP_Printer'', ''is idle.''), (''Office'', ''disabled'')])
        else if cmd = [''lpstat'', ''-d''] then Exited 0 (default_report ''HP_Printer'')
        else if last cmd = ''b.pdf'' then Exited 1 [] else Exited 0 []),
      win32_enum = (\<lambda>tr. Inl OSError), win32_get_default = (\<lambda>tr. Inl OSError),
      win32_set_default = (\<lambda>tr n. Some OSError), win32_shell_print = (\<lambda>tr f. Some OSError)\<rparr>"

definition ex_printed :: world where
  "ex_printed =
     \<lparr>fsys = fmupd (PurePath False [''a.pdf'']) (PdfFile ex_doc)
              (fmupd (PurePath False [''b.pdf'']) (PdfFile ex_doc)
                (fmupd (PurePath False [''c.pdf'']) (PdfFile ex_doc)
                  (fmupd (PurePath False [''notes.txt'']) OtherFile fmempty))),
      denied = {||}\<rparr>"

lemma py_lower_pdf [simp]: "py_lower ''.pdf'' = ''.pdf''" "py_lower ''.txt'' = ''.txt''"
  by (simp_all add: py_lower_def lower_char_def)

lemmas print_eval =
  printable_def path_exists_def lookup_node_def suffix_def suffix_of_def rfind_def name_def
  path_str_def lpr_command_def truthy_def exits_ok_def sent_to_def

lemma ex_unix: "unix (PrinterManager ex_host)"
  by (simp add: unix_def PrinterManager_def ex_host_def)

lemma ex_entries:
  "list_all (\<lambda>e. printer_word (fst e) \<and> one_line (snd e))
     [(''HP_Printer'', ''is idle.''), (''Office'', ''disabled'')]"
  by (simp add: printer_word_def one_line_def is_space_def)

text \<open>
  C23. A file that does not exist, or whose suffix in small letters is not
  \<open>.pdf\<close>, is not printed on any platform: \<open>print_file\<close> returns \<open>False\<close> with
  the message of the failed check and calls neither a program nor the
  \<open>win32\<close> functions.
\<close>

theorem print_file_validates:
  assumes "\<not> printable w p"
  shows "print_file self h w tr p pn opts =
           ((False,
             if path_exists w p then (''Only PDF files are supported for printing'', None)
             else (''File not found: '' @ path_str p, None)),
            tr)"
  using assms by (auto simp: print_file_def printable_def)

theorem print_file_validates_witness:
  "print_file (PrinterManager ex_host) ex_host ex_printed [] (PurePath False [''notes.txt''])
     None None = ((False, (''Only PDF files are supported for printing'', None)), [])"
  using print_file_validates [of ex_printed "PurePath False [''notes.txt'']"
      "PrinterManager ex_host" ex_host "[]" None None]
  by (simp add: print_eval ex_printed_def)

text \<open>
  C27. On macOS and Linux, when \<open>lpstat -p\<close> exits with 0 and prints one line
  \<open>printer NAME STATE\<close> per printer, \<open>list_printers\<close> returns the names in
  the order of the lines, and the call of \<open>lpstat\<close> is the only call made.
\<close>

theorem list_printers_roundtrip:
  assumes "unix self"
    and "run_program h tr [''lpstat'', ''-p''] = Exited 0 (lpstat_report entries)"
    and "list_all (\<lambda>e. printer_word (fst e) \<and> one_line (snd e)) entries"
  shows "list_printers self h tr = (map fst entries, tr @ [Subprocess [''lpstat'', ''-p'']])"
  using assms(2) lpstat_printers_report [OF assms(3)]
  by (simp add: list_printers_unix [OF assms(1)])

theorem list_printers_roundtrip_witness:
  "list_printers (PrinterManager ex_host) ex_host [] =
     ([''HP_Printer'', ''Office''], [Subprocess [''lpstat'', ''-p'']])"
  using list_printers_roundtrip [OF ex_unix _ ex_entries, of ex_host "[]"]
  by (simp add: ex_host_def)

text \<open>
  One line of the answer of \<open>lpstat -p\<close> that consists of \<open>printer\<close> and a
  blank only makes \<open>list_printers\<close> return the empty list, whatever the other
  lines say: the \<open>IndexError\<close> of \<open>line.split()[1]\<close> ends the loop and is
  caught in \<open>list_printers\<close>.
\<close>

theorem list_printers_bare_line:
  assumes "unix self"
    and "run_program h tr [''lpstat'', ''-p'']
           = Exited 0 (concat (map (\<lambda>l. l @ [CHR 0x0A]) (before @ [''printer ''] @ after)))"
    and "list_all one_line (before @ after)"
  shows "list_printers self h tr = ([], tr @ [Subprocess [''lpstat'', ''-p'']])"
  using assms(2) lpstat_printers_bare_line [OF assms(3)]
  by (simp add: list_printers_unix [OF assms(1)])

theorem list_printers_bare_line_witness:
  "list_printers (PrinterManager ex_host)
     (ex_host\<lparr>run_program := \<lambda>tr cmd.
        Exited 0 (concat (map (\<lambda>l. l @ [CHR 0x0A]) ([''printer HP is idle''] @ [''printer ''] @ [])))\<rparr>) []
     = ([], [Subprocess [''lpstat'', ''-p'']])"
  using list_printers_bare_line [OF ex_unix, of _ "[]" "[''printer HP is idle'']" "[]"]
  by (simp add: one_line_def)

end
