(* ===== verification/Print_Run.thy ===== *)
theory Print_Run
  imports Printer_Manager
begin

text \<open>
  What a run of \<open>print_multiple_files\<close> does: the loop is followed file by
  file against \<open>file_outcomes\<close>, the list of the results of \<open>print_file\<close> in
  the order of the files, each call made after the calls of the files before
  it. On macOS and Linux the calls are the \<open>lpr\<close> commands of the accepted
  files, and \<open>lpr_outcomes\<close> tells which of them succeed.
\<close>

section \<open>The sequence of outcomes\<close>

fun file_outcomes ::
  "printer_manager \<Rightarrow> host \<Rightarrow> world \<Rightarrow> string option \<Rightarrow> options_dict option \<Rightarrow> path list \<Rightarrow> trace
     \<Rightarrow> (bool \<times> message) list \<times> trace" where
  "file_outcomes self h w pn opts [] tr = ([], tr)"
| "file_outcomes self h w pn opts (p # ps) tr =
     (let (r, tr1) = print_file self h w tr p pn opts;
          (rs, tr') = file_outcomes self h w pn opts ps tr1
      in (r # rs, tr'))"

fun lpr_outcomes ::
  "host \<Rightarrow> world \<Rightarrow> string option \<Rightarrow> options_dict option \<Rightarrow> path list \<Rightarrow> trace \<Rightarrow> bool list" where
  "lpr_outcomes h w pn opts [] tr = []"
| "lpr_outcomes h w pn opts (p # ps) tr =
     (if printable w p
      then exits_ok (run_program h tr (lpr_command p pn opts))
             # lpr_outcomes h w pn opts ps (tr @ [Subprocess (lpr_command p pn opts)])
      else False # lpr_outcomes h w pn opts ps tr)"

section \<open>The loop\<close>

lemma update_new: "k \<notin> fst ` set al \<Longrightarrow> AList.update k v al = al @ [(k, v)]"
  by (induction al) auto

lemma file_outcomes_cong:
  "fsys w' = fsys w \<Longrightarrow> file_outcomes self h w' pn opts ps tr = file_outcomes self h w pn opts ps tr"
  by (induction ps arbitrary: tr) (simp_all add: print_file_cong [of w' w])

lemma length_file_outcomes [simp]:
  "length (fst (file_outcomes self h w pn opts ps tr)) = length ps"
  by (induction ps arbitrary: tr) (simp_all add: case_prod_beta Let_def)

lemma file_outcomes_Cons:
  "file_outcomes self h w pn opts (p # ps) tr =
     (fst (print_file self h w tr p pn opts)
        # fst (file_outcomes self h w pn opts ps (snd (print_file self h w tr p pn opts))),
      snd (file_outcomes self h w pn opts ps (snd (print_file self h w tr p pn opts))))"
  by (simp add: case_prod_beta Let_def)

lemma print_loop_Cons:
  assumes "cb_frame cb"
  shows "print_loop self h cb n pn opts (enumerate k (p # ps)) results w tr =
         print_loop self h cb n pn opts (enumerate (Suc k) ps)
           (AList.update (path_str p) (fst (print_file self h w tr p pn opts)) results) w
           (snd (print_file self h w tr p pn opts))"
  using assms by (simp add: Let_def case_prod_beta)

text \<open>
  Two callbacks that agree on the calls of the loop give the same run; in
  particular \<open>print_progress\<close> and no callback.
\<close>

lemma print_loop_cong:
  assumes "cb_agree n cb cb'"
  shows "list_all (\<lambda>job. int (fst job) < n) jobs
           \<Longrightarrow> print_loop self h cb n pn opts jobs results w tr
               = print_loop self h cb' n pn opts jobs results w tr"
proof (induction jobs arbitrary: results w tr)
  case Nil
  show ?case by simp
next
  case (Cons job jobs)
  obtain i p where job: "job = (i, p)" by (cases job)
  with Cons.prems assms have "notify cb (int i + 1) n m w = notify cb' (int i + 1) n m w" for m
    by (simp add: cb_agree_def)
  with Cons job show ?case
    by (simp add: Let_def case_prod_beta split: prod.splits option.splits)
qed

lemma print_multiple_files_cong:
  assumes "\<And>n. cb_agree n cb cb'"
  shows "print_multiple_files self h ps pn opts cb w tr
           = print_multiple_files self h ps pn opts cb' w tr"
  unfolding print_multiple_files_def by (rule print_loop_cong [OF assms enumerate_below])

lemma print_loop_trace:
  assumes "cb_frame cb"
  shows "snd (snd (print_loop self h cb n pn opts (enumerate k ps) results w tr))
           = snd (file_outcomes self h w pn opts ps tr)
         \<and> fsys (fst (snd (print_loop self h cb n pn opts (enumerate k ps) results w tr))) = fsys w
         \<and> denied (fst (snd (print_loop self h cb n pn opts (enumerate k ps) results w tr))) = denied w"
proof (induction ps arbitrary: k results w tr)
  case Nil
  then show ?case by simp
next
  case (Cons p ps)
  show ?case
    unfolding print_loop_Cons [OF assms] file_outcomes_Cons using Cons.IH [of "Suc k" _ w]
    by simp
qed

lemma print_loop_results:
  assumes "cb_frame cb"
    and "distinct (map path_str ps)" and "set (map path_str ps) \<inter> fst ` set results = {}"
  shows "fst (print_loop self h cb n pn opts (enumerate k ps) results w tr) =
           Inr (results @ zip (map path_str ps) (fst (file_outcomes self h w pn opts ps tr)))"
  using assms(2,3)
proof (induction ps arbitrary: k results w tr)
  case Nil
  then show ?case by simp
next
  case (Cons p ps)
  define r where "r = fst (print_file self h w tr p pn opts)"
  have step: "print_loop self h cb n pn opts (enumerate k (p # ps)) results w tr =
         print_loop self h cb n pn opts (enumerate (Suc k) ps)
           (AList.update (path_str p) r results) w (snd (print_file self h w tr p pn opts))"
    unfolding r_def by (rule print_loop_Cons [OF assms(1)])
  have upd: "AList.update (path_str p) r results = results @ [(path_str p, r)]"
    using Cons.prems(2) by (intro update_new) auto
  have "set (map path_str ps) \<inter> fst ` set (results @ [(path_str p, r)]) = {}"
    using Cons.prems by auto
  with Cons.IH [of "results @ [(path_str p, r)]" "Suc k" w] Cons.prems(1)
  show ?case
    unfolding step upd file_outcomes_Cons by (simp add: r_def)
qed

lemma print_loop_keys:
  assumes "fst (print_loop self h cb n pn opts jobs results w tr) = Inr res"
    and "distinct (map fst results)"
  shows "distinct (map fst res)
         \<and> set (map fst res) = set (map fst results) \<union> set (map (path_str \<circ> snd) jobs)"
  using assms
proof (induction jobs arbitrary: results w tr)
  case Nil
  then show ?case by auto
next
  case (Cons job jobs)
  obtain i p where job: "job = (i, p)" by (cases job)
  define msg where "msg = ''Printing '' @ name p"
  note step = print_loop.simps(2) [of self h cb n pn opts i p jobs results w tr, folded msg_def]
  obtain e w1 where n0: "notify cb (int i + 1) n msg w = (e, w1)"
    by (cases "notify cb (int i + 1) n msg w")
  from Cons.prems(1) have e: "e = None" unfolding job step n0 by (cases e) simp_all
  define r where "r = fst (print_file self h w1 tr p pn opts)"
  have "fst (print_loop self h cb n pn opts jobs (AList.update (path_str p) r results) w1
      (snd (print_file self h w1 tr p pn opts))) = Inr res"
    using Cons.prems(1) unfolding job step n0 e by (simp add: r_def Let_def case_prod_beta)
  moreover have "distinct (map fst (AList.update (path_str p) r results))"
    using Cons.prems(2) by (simp add: distinct_update)
  ultimately have "distinct (map fst res) \<and> set (map fst res)
      = set (map fst (AList.update (path_str p) r results)) \<union> set (map (path_str \<circ> snd) jobs)"
    by (rule Cons.IH)
  then show ?case by (auto simp: job update_keys split: if_splits)
qed

lemma file_outcomes_unix:
  assumes "unix self"
  shows "snd (file_outcomes self h w pn opts ps tr)
           = tr @ map (\<lambda>p. Subprocess (lpr_command p pn opts)) (filter (printable w) ps)"
    and "map fst (fst (file_outcomes self h w pn opts ps tr)) = lpr_outcomes h w pn opts ps tr"
proof -
  show "snd (file_outcomes self h w pn opts ps tr)
           = tr @ map (\<lambda>p. Subprocess (lpr_command p pn opts)) (filter (printable w) ps)"
    by (induction ps arbitrary: tr) (simp_all add: case_prod_beta Let_def print_file_unix [OF assms])
  show "map fst (fst (file_outcomes self h w pn opts ps tr)) = lpr_outcomes h w pn opts ps tr"
    by (induction ps arbitrary: tr)
      (simp_all add: case_prod_beta Let_def print_file_unix [OF assms] exits_ok_iff)
qed

section \<open>Properties\<close>

text \<open>
  With a callback that only reports the loop comes to its end, in the name
  space it started in.
\<close>

lemma print_loop_frame:
  assumes "cb_frame cb"
  shows "\<exists>res. print_loop self h cb n pn opts (enumerate k ps) results w tr
                 = (Inr res, w, snd (file_outcomes self h w pn opts ps tr))"
proof (induction ps arbitrary: k results tr)
  case Nil
  show ?case by simp
next
  case (Cons p ps)
  show ?case
    unfolding print_loop_Cons [OF assms] file_outcomes_Cons using Cons.IH [of "Suc k"] by simp
qed

lemma print_multiple_files_frame:
  assumes "cb_frame cb"
  obtains results where "print_multiple_files self h ps pn opts cb w tr
                           = (Inr results, w, snd (file_outcomes self h w pn opts ps tr))"
  using print_loop_frame [OF assms] unfolding print_multiple_files_def by blast

lemma print_multiple_files_run:
  assumes "cb_frame cb"
  shows "snd (snd (print_multiple_files self h ps pn opts cb w tr))
           = snd (file_outcomes self h w pn opts ps tr)"
    and "fsys (fst (snd (print_multiple_files self h ps pn opts cb w tr))) = fsys w"
    and "distinct (map path_str ps) \<Longrightarrow>
           fst (print_multiple_files self h ps pn opts cb w tr)
             = Inr (zip (map path_str ps) (fst (file_outcomes self h w pn opts ps tr)))"
  using print_loop_trace [OF assms, of self h "int (length ps)" pn opts 0 ps "[]" w tr]
    print_loop_results [OF assms, of ps "[]" self h "int (length ps)" pn opts 0 w tr]
  by (simp_all add: print_multiple_files_def)

lemma ex_outcomes:
  "file_outcomes (PrinterManager ex_host) ex_host ex_printed None None ex_outs [] =
     ([(True, sent_to None), (False, (''Linux print failed: '', Some CalledProcessError)),
       (True, sent_to None)],
      [Subprocess [''lpr'', ''a.pdf''], Subprocess [''lpr'', ''b.pdf''],
       Subprocess [''lpr'', ''c.pdf'']])"
  by (simp add: print_file_def print_linux_def subprocess_run_def PrinterManager_def
      ex_host_def ex_printed_def ex_outs_def print_eval)

text \<open>
  C9. With a callback that only reports and files whose printed paths
  differ, \<open>print_multiple_files\<close> returns one entry per file, in the order of
  the files, under the printed path of the file: the result of
  \<open>print_file\<close> for that file, called after the calls for the files before
  it, whether these succeeded or not. The calls made are those of the
  sequence of \<open>print_file\<close> calls.
\<close>

theorem print_multiple_files_refines:
  assumes "cb_frame cb" and "distinct (map path_str file_paths)"
  shows "fst (print_multiple_files self h file_paths pn opts cb w tr)
           = Inr (zip (map path_str file_paths)
                    (fst (file_outcomes self h w pn opts file_paths tr)))
         \<and> snd (snd (print_multiple_files self h file_paths pn opts cb w tr))
           = snd (file_outcomes self h w pn opts file_paths tr)"
  using print_multiple_files_run [OF assms(1)] assms(2) by simp

theorem print_multiple_files_refines_witness:
  "fst (print_multiple_files (PrinterManager ex_host) ex_host ex_outs None None None ex_printed [])
     = Inr [(''a.pdf'', True, sent_to None),
            (''b.pdf'', False, (''Linux print failed: '', Some CalledProcessError)),
            (''c.pdf'', True, sent_to None)]
   \<and> snd (snd (print_multiple_files (PrinterManager ex_host) ex_host ex_outs None None None
                   ex_printed []))
     = [Subprocess [''lpr'', ''a.pdf''], Subprocess [''lpr'', ''b.pdf''],
        Subprocess [''lpr'', ''c.pdf'']]"
  using print_multiple_files_refines [of None ex_outs "PrinterManager ex_host" ex_host None None
      ex_printed "[]"]
  by (simp add: ex_outcomes cb_frame_def) (simp add: ex_outs_def path_str_def)

text \<open>
  C13. On macOS and Linux, with a callback that only reports,
  \<open>print_multiple_files\<close> runs exactly one \<open>lpr\<close> command for every file that
  exists and has the suffix \<open>.pdf\<close>, in the order of the files and whatever
  the earlier commands answered, and nothing for the other files. When the
  printed paths differ, the success flags of the entries are those of
  \<open>lpr_outcomes\<close>: true exactly for the accepted files whose command exits
  with 0.
\<close>

theorem print_multiple_files_dispatch:
  assumes "unix self" and "cb_frame cb"
  shows "snd (snd (print_multiple_files self h file_paths pn opts cb w tr))
           = tr @ map (\<lambda>p. Subprocess (lpr_command p pn opts)) (filter (printable w) file_paths)
         \<and> (distinct (map path_str file_paths) \<longrightarrow>
              (\<exists>results. fst (print_multiple_files self h file_paths pn opts cb w tr) = Inr results
                 \<and> map (\<lambda>r. fst (snd r)) results = lpr_outcomes h w pn opts file_paths tr))"
proof (intro conjI impI)
  note run = print_multiple_files_run [OF assms(2), where self = self and h = h
      and ps = file_paths and pn = pn and opts = opts and w = w and tr = tr]
  note out = file_outcomes_unix [OF assms(1), where h = h and w = w and pn = pn and opts = opts
      and ps = file_paths and tr = tr]
  from run(1) out(1)
  show "snd (snd (print_multiple_files self h file_paths pn opts cb w tr))
          = tr @ map (\<lambda>p. Subprocess (lpr_command p pn opts)) (filter (printable w) file_paths)"
    by simp
  assume "distinct (map path_str file_paths)"
  from run(3) [OF this] out(2)
  show "\<exists>results. fst (print_multiple_files self h file_paths pn opts cb w tr) = Inr results
          \<and> map (\<lambda>r. fst (snd r)) results = lpr_outcomes h w pn opts file_paths tr"
    by (simp add: map_zip_snd)
qed

theorem print_multiple_files_dispatch_witness:
  "snd (snd (print_multiple_files (PrinterManager ex_host) ex_host
               (PurePath False [''notes.txt''] # ex_outs) None None None ex_printed []))
     = [Subprocess [''lpr'', ''a.pdf''], Subprocess [''lpr'', ''b.pdf''],
        Subprocess [''lpr'', ''c.pdf'']]
   \<and> (\<exists>results. fst (print_multiple_files (PrinterManager ex_host) ex_host
                          (PurePath False [''notes.txt''] # ex_outs) None None None ex_printed [])
                      = Inr results
          \<and> map (\<lambda>r. fst (snd r)) results = [False, True, False, True])"
  using print_multiple_files_dispatch [OF ex_unix, of None ex_host
      "PurePath False [''notes.txt''] # ex_outs" None None ex_printed "[]"]
  by (simp add: cb_frame_def ex_outs_def ex_printed_def ex_host_def print_eval)

text \<open>
  What \<open>print_multiple_files\<close> returns is a dictionary: no key occurs twice,
  the keys are the printed paths of the files, and there are at most as many
  entries as files. This holds for every callback, platform and answer of the
  host.
\<close>

theorem print_multiple_files_keys:
  assumes "fst (print_multiple_files self h file_paths pn opts cb w tr) = Inr results"
  shows "distinct (map fst results)
         \<and> set (map fst results) = path_str ` set file_paths
         \<and> length results \<le> length file_paths"
proof -
  have k: "distinct (map fst results)" "set (map fst results) = path_str ` set file_paths"
    using print_loop_keys [where results = "[]" and jobs = "enumerate 0 file_paths" and self = self
        and h = h and cb = cb and n = "int (length file_paths)" and pn = pn and opts = opts
        and w = w and tr = tr and res = results] assms
    by (simp_all add: print_multiple_files_def flip: map_map)
  have "length results = card (set (map fst results))"
    using k(1) distinct_card [of "map fst results"] by simp
  also have "\<dots> \<le> length file_paths"
    unfolding k(2) by (metis card_image_le card_length le_trans List.finite_set)
  finally show ?thesis using k by simp
qed

text \<open>
  An exception of the callback is not caught: it ends
  \<open>print_multiple_files\<close>, and the results of the files printed before are
  lost with it. Here it is raised at the first file.
\<close>

lemma print_multiple_files_callback_raises:
  assumes "notify cb 1 (1 + int (length ps)) (''Printing '' @ name p) w = (Some e, w')"
  shows "print_multiple_files self h (p # ps) pn opts cb w tr = (Inl e, w', tr)"
  using assms by (simp add: print_multiple_files_def add.commute)

end
