(* ===== verification/Cli_Print.thy ===== *)
theory Cli_Print
  imports Cli_Main Print_Run
begin

text \<open>
  The rest of \<open>src/main.py\<close>: the printing stage of \<open>main\<close> with the parsing
  of \<open>--print-options\<close> and the question about a printer that is not listed,
  \<open>print_available_printers\<close>, and \<open>main\<close> itself as the stage before
  printing followed by the printing stage. The result of \<open>main\<close> is the exit
  status of the process together with the console input left, the files and
  the calls made to the print system.
\<close>

section \<open>Print options\<close>

text \<open>
  \<open>key, value = option.split('=')\<close> raises \<open>ValueError\<close> unless the option
  holds exactly one \<open>=\<close>.
\<close>

definition unpack_pair :: "string list \<Rightarrow> (string \<times> string) result" where
  "unpack_pair xs = (case xs of [key, v] \<Rightarrow> Inr (key, v) | _ \<Rightarrow> Inl ValueError)"

fun parse_options_loop :: "string list \<Rightarrow> options_dict \<Rightarrow> options_dict result" where
  "parse_options_loop [] print_options = Inr print_options"
| "parse_options_loop (option # rest) print_options =
     (case unpack_pair (split_on CHR ''='' option) of
        Inl e \<Rightarrow> Inl e
      | Inr (key, v) \<Rightarrow>
          parse_options_loop rest (AList.update (py_strip key) (py_strip v) print_options))"

definition parse_print_options :: "args \<Rightarrow> options_dict" where
  "parse_print_options args =
     (if truthy (arg_print_options args)
      then (case parse_options_loop (split_on CHR '','' (the (arg_print_options args))) [] of
              Inl e \<Rightarrow> []
            | Inr print_options \<Rightarrow> print_options)
      else [])"

section \<open>The printing stage\<close>

definition confirm_printer ::
  "args \<Rightarrow> printer_manager \<Rightarrow> host \<Rightarrow> string list \<Rightarrow> trace \<Rightarrow> (int + string list) \<times> trace" where
  "confirm_printer args printer_manager h stdin tr =
     (if truthy (arg_printer args) then
        (let (available_printers, tr1) = list_printers printer_manager h tr in
         if the (arg_printer args) \<notin> set available_printers then
           (case stdin of
              [] \<Rightarrow> (Inl 1, tr1)
            | response # rest \<Rightarrow> if \<not> confirmed response then (Inl 0, tr1) else (Inr rest, tr1))
         else (Inr stdin, tr1))
      else (Inr stdin, tr))"

definition successful_prints :: "results_dict \<Rightarrow> nat" where
  "successful_prints results = length (filter (\<lambda>(file_path, success, message). success) results)"

definition print_stage ::
  "args \<Rightarrow> host \<Rightarrow> path list \<Rightarrow> string list \<Rightarrow> world \<Rightarrow> trace
     \<Rightarrow> int \<times> results_dict option \<times> string list \<times> world \<times> trace" where
  "print_stage args h output_files stdin w tr =
     (if arg_print args then
        (let printer_manager = PrinterManager h;
             print_options = parse_print_options args
         in case confirm_printer args printer_manager h stdin tr of
              (Inl code, tr1) \<Rightarrow> (code, None, tl stdin, w, tr1)
            | (Inr stdin1, tr1) \<Rightarrow>
                (case print_multiple_files printer_manager h output_files (arg_printer args)
                        (Some print_options)
                        (if arg_verbose args then Some print_progress else None) w tr1 of
                   (Inl e, w1, tr2) \<Rightarrow> (1, None, stdin1, w1, tr2)
                 | (Inr results, w1, tr2) \<Rightarrow> (0, Some results, stdin1, w1, tr2)))
      else (0, None, stdin, w, tr))"

section \<open>Listing the printers\<close>

definition print_available_printers :: "host \<Rightarrow> trace \<Rightarrow> (string list \<times> string option) \<times> trace" where
  "print_available_printers h tr =
     (let printer_manager = PrinterManager h;
          (printers, tr1) = list_printers printer_manager h tr
      in if printers = [] then (([], None), tr1)
         else (let (default_printer, tr2) = get_default_printer printer_manager h tr1
               in ((printers, default_printer), tr2)))"

section \<open>main\<close>

definition main ::
  "args \<Rightarrow> host \<Rightarrow> size_fn \<Rightarrow> string list \<Rightarrow> world \<Rightarrow> trace
     \<Rightarrow> (int \<times> string list \<times> world \<times> trace) option" where
  "main args h sz stdin w tr =
     (if arg_list_printers args then Some (0, stdin, w, snd (print_available_printers h tr))
      else
        (case split_stage args sz stdin w of
           None \<Rightarrow> None
         | Some (Exit code, stdin1, w1) \<Rightarrow> Some (code, stdin1, w1, tr)
         | Some (Proceed output_files, stdin1, w1) \<Rightarrow>
             (case print_stage args h output_files stdin1 w1 tr of
                (code, results, stdin2, w2, tr2) \<Rightarrow> Some (code, stdin2, w2, tr2))))"

lemmas cli_print_defs [stpl_defs] =
  unpack_pair_def parse_print_options_def confirm_printer_def successful_prints_def
  print_stage_def print_available_printers_def main_def

section \<open>Reference notions\<close>

text \<open>
  The text of a list of options as it is given on the command line,
  \<open>key=value\<close> separated by commas, and what \<open>strip\<close> leaves of a pair. A
  key or value of an option holds neither a comma nor \<open>=\<close>.
\<close>

definition render_option :: "string \<times> string \<Rightarrow> string" where
  "render_option kv = fst kv @ ''='' @ snd kv"

definition render_options :: "options_dict \<Rightarrow> string" where
  "render_options kvs = join_with CHR '','' (map render_option kvs)"

definition option_text :: "string \<Rightarrow> bool" where
  "option_text s \<longleftrightarrow> CHR '','' \<notin> set s \<and> CHR ''='' \<notin> set s"

definition stripped :: "string \<times> string \<Rightarrow> string \<times> string" where
  "stripped kv = (py_strip (fst kv), py_strip (snd kv))"

section \<open>Parsing the options\<close>

lemma unpack_render_option:
  assumes "option_text (fst kv)" and "option_text (snd kv)"
  shows "unpack_pair (split_on CHR ''='' (render_option kv)) = Inr kv"
  using assms split_on_append_sep [of "CHR ''=''" "fst kv" "snd kv"]
  by (simp add: unpack_pair_def render_option_def option_text_def split_on_no_sep)

lemma parse_options_loop_render:
  assumes "list_all (\<lambda>kv. option_text (fst kv) \<and> option_text (snd kv)) kvs"
    and "distinct (map (fst \<circ> stripped) kvs)"
    and "fst ` stripped ` set kvs \<inter> fst ` set d = {}"
  shows "parse_options_loop (map render_option kvs) d = Inr (d @ map stripped kvs)"
  using assms
proof (induction kvs arbitrary: d)
  case Nil
  then show ?case by simp
next
  case (Cons kv kvs)
  have upd: "AList.update (py_strip (fst kv)) (py_strip (snd kv)) d = d @ [stripped kv]"
    using Cons.prems(3) by (simp add: update_new stripped_def)
  have "fst ` stripped ` set kvs \<inter> fst ` set (d @ [stripped kv]) = {}"
    using Cons.prems(2,3) by auto
  with Cons.IH [of "d @ [stripped kv]"] Cons.prems(1,2)
  show ?case by (simp add: unpack_render_option upd case_prod_beta)
qed

lemma split_render_options:
  assumes "kvs \<noteq> []" and "list_all (\<lambda>kv. option_text (fst kv) \<and> option_text (snd kv)) kvs"
  shows "split_on CHR '','' (render_options kvs) = map render_option kvs"
  unfolding render_options_def
  using assms by (intro split_on_join) (auto simp: list_all_iff render_option_def option_text_def)

lemma render_options_nonempty: "kvs \<noteq> [] \<Longrightarrow> render_options kvs \<noteq> []"
proof (cases kvs)
  case Nil
  assume "kvs \<noteq> []" with Nil show ?thesis by simp
next
  case (Cons kv rest)
  then show ?thesis
    by (cases rest) (simp_all add: render_options_def render_option_def)
qed

lemma parse_print_options_render:
  assumes "kvs \<noteq> []" and "list_all (\<lambda>kv. option_text (fst kv) \<and> option_text (snd kv)) kvs"
    and "distinct (map (fst \<circ> stripped) kvs)"
    and "arg_print_options args = Some (render_options kvs)"
  shows "parse_print_options args = map stripped kvs"
  using parse_options_loop_render [OF assms(2,3), of "[]"] render_options_nonempty [OF assms(1)]
  by (simp add: parse_print_options_def truthy_def assms(4) split_render_options [OF assms(1,2)])

lemma parse_options_loop_fails:
  assumes "\<not> is_ok (unpack_pair (split_on CHR ''='' option))" and "option \<in> set opts"
  shows "\<not> is_ok (parse_options_loop opts d)"
  using assms(2)
proof (induction opts arbitrary: d)
  case Nil
  then show ?case by simp
next
  case (Cons a opts)
  show ?case
  proof (cases "unpack_pair (split_on CHR ''='' a)")
    case (Inl e)
    then show ?thesis by simp
  next
    case (Inr kv)
    with assms(1) have "a \<noteq> option" by auto
    with Cons.prems have "option \<in> set opts" by simp
    from Cons.IH [OF this] Inr show ?thesis by (simp add: case_prod_beta)
  qed
qed

section \<open>The printing stage and the exit status\<close>

text \<open>
  \<open>print_progress\<close> is called with the number of files and a position
  among them, where it changes nothing: the files are printed with
  \<open>--verbose\<close> as they are without.
\<close>

lemma print_multiple_files_progress [simp]:
  "print_multiple_files pm h ps pn opts (if v then Some print_progress else None) w tr
     = print_multiple_files pm h ps pn opts None w tr"
  by (rule print_multiple_files_cong) (rule print_progress_agree)

lemma confirm_printer_code:
  "fst (confirm_printer args pm h stdin tr) = Inl c \<Longrightarrow> c = 0 \<or> c = 1"
  by (auto simp: confirm_printer_def Let_def split: prod.splits if_splits list.splits)

lemma confirm_printer_none:
  "\<not> truthy (arg_printer args) \<Longrightarrow> confirm_printer args pm h stdin tr = (Inr stdin, tr)"
  by (simp add: confirm_printer_def)

lemma print_stage_code: "fst (print_stage args h outs stdin w tr) = 0 \<or> fst (print_stage args h outs stdin w tr) = 1"
  using confirm_printer_code [of args "PrinterManager h" h stdin tr]
  by (auto simp: print_stage_def Let_def split: prod.splits sum.splits)

lemma print_stage_off:
  "\<not> arg_print args \<Longrightarrow> print_stage args h outs stdin w tr = (0, None, stdin, w, tr)"
  by (simp add: print_stage_def)

lemma print_stage_run:
  assumes "arg_print args"
    and "confirm_printer args (PrinterManager h) h stdin tr = (Inr stdin1, tr1)"
  obtains results where
    "print_multiple_files (PrinterManager h) h outs (arg_printer args)
       (Some (parse_print_options args)) None w tr1
       = (Inr results, w,
          snd (file_outcomes (PrinterManager h) h w (arg_printer args)
                 (Some (parse_print_options args)) outs tr1))"
    and "print_stage args h outs stdin w tr
       = (0, Some results, stdin1, w,
          snd (file_outcomes (PrinterManager h) h w (arg_printer args)
                 (Some (parse_print_options args)) outs tr1))"
proof -
  obtain results where r: "print_multiple_files (PrinterManager h) h outs (arg_printer args)
       (Some (parse_print_options args)) None w tr1
       = (Inr results, w,
          snd (file_outcomes (PrinterManager h) h w (arg_printer args)
                 (Some (parse_print_options args)) outs tr1))"
    by (rule print_multiple_files_frame [OF cb_frame_None])
  with assms have "print_stage args h outs stdin w tr
       = (0, Some results, stdin1, w,
          snd (file_outcomes (PrinterManager h) h w (arg_printer args)
                 (Some (parse_print_options args)) outs tr1))"
    by (simp add: print_stage_def Let_def)
  with r show ?thesis by (rule that)
qed

lemma split_stage_usage:
  "split_stage args sz stdin w = Some (Exit 2, stdin', w')
     \<longleftrightarrow> \<not> arg_list_printers args \<and> \<not> truthy (arg_input_file args) \<and> stdin' = stdin \<and> w' = w"
proof -
  have "c \<noteq> 2" if "run_split args fm sp stdin w = Some (Exit c, stdin', w')" for fm sp c
    using run_split_exit [OF that] by auto
  then show ?thesis
    by (auto simp: split_stage_unfold Let_def truthy_def
        split: prod.splits bool.splits option.splits if_splits)
qed

section \<open>Without \<open>--verbose\<close>\<close>

text \<open>
  \<open>--verbose\<close> adds the information block and the progress lines. Neither
  can fail where \<open>main\<close> runs them, and neither changes anything: every
  stage runs as it does without the flag, whatever the sizes of the files.
\<close>

lemma confirm_overwrite_verbose [simp]:
  "confirm_overwrite (args\<lparr>arg_verbose := v\<rparr>) = confirm_overwrite args"
  by (simp add: confirm_overwrite_def fun_eq_iff)

lemma run_split_verbose [simp]:
  "run_split (args\<lparr>arg_verbose := v\<rparr>) = run_split args"
  by (simp add: run_split_def fun_eq_iff Let_def
      cong: option.case_cong prod.case_cong bool.case_cong sum.case_cong if_cong)

lemma split_stage_verbose:
  "split_stage (args\<lparr>arg_verbose := v\<rparr>) sz stdin w = split_stage args sz' stdin w"
  by (simp add: split_stage_unfold Let_def
      cong: option.case_cong prod.case_cong bool.case_cong if_cong)

lemma print_stage_verbose [simp]:
  "print_stage (args\<lparr>arg_verbose := v\<rparr>) = print_stage args"
  by (simp add: print_stage_def fun_eq_iff Let_def parse_print_options_def confirm_printer_def
      cong: option.case_cong prod.case_cong bool.case_cong sum.case_cong if_cong)

section \<open>Printing what was written\<close>

lemma confirm_overwrite_print_args [simp]:
  "confirm_overwrite (args\<lparr>arg_print := b\<rparr>) = confirm_overwrite args"
  "confirm_overwrite (args\<lparr>arg_printer := pn\<rparr>) = confirm_overwrite args"
  "confirm_overwrite (args\<lparr>arg_print_options := po\<rparr>) = confirm_overwrite args"
  by (simp_all add: confirm_overwrite_def fun_eq_iff)

lemma run_split_print_args [simp]:
  "run_split (args\<lparr>arg_print := b\<rparr>) = run_split args"
  "run_split (args\<lparr>arg_printer := pn\<rparr>) = run_split args"
  "run_split (args\<lparr>arg_print_options := po\<rparr>) = run_split args"
  by (simp_all add: run_split_def fun_eq_iff Let_def
      cong: option.case_cong prod.case_cong bool.case_cong sum.case_cong if_cong)

lemma split_stage_print_args [simp]:
  "split_stage (args\<lparr>arg_print := b\<rparr>) = split_stage args"
  "split_stage (args\<lparr>arg_printer := pn\<rparr>) = split_stage args"
  "split_stage (args\<lparr>arg_print_options := po\<rparr>) = split_stage args"
  by (simp_all add: split_stage_unfold fun_eq_iff Let_def
      cong: option.case_cong prod.case_cong bool.case_cong if_cong)

lemma split_stage_outputs:
  assumes "split_stage args sz stdin w = Some (Proceed outs, stdin', w')"
  shows "distinct (map path_str outs)" and "list_all (printable w') outs"
proof -
  from assms obtain inp sp rd where "loaded sp rd" "0 < arg_pages args"
    "run_split args (FileManager inp (arg_output args)) sp stdin w = Some (Proceed outs, stdin', w')"
    by (rule split_stage_run)
  from run_split_outputs [OF this(3,1,2) fm_wf_FileManager]
  have d: "distinct outs" and s: "list_all (\<lambda>q. wf_path q \<and> suffix q = ''.pdf'') outs"
    and e: "list_all (path_exists w') outs" .
  from s have "inj_on path_str (set outs)"
    by (auto simp: inj_on_def list_all_iff path_str_inj)
  with d show "distinct (map path_str outs)" by (simp add: distinct_map)
  from s e show "list_all (printable w') outs"
    by (auto simp: list_all_iff printable_def)
qed

lemma unix_PrinterManager: "unix (PrinterManager h) \<longleftrightarrow> platform_system h \<in> {''Darwin'', ''Linux''}"
  by (auto simp: unix_def PrinterManager_def)

lemma print_stage_unix:
  assumes "arg_print args" and "unix (PrinterManager h)"
    and "confirm_printer args (PrinterManager h) h stdin tr = (Inr stdin1, tr1)"
  shows "fst (print_stage args h outs stdin w tr) = 0"
    and "fst (snd (snd (print_stage args h outs stdin w tr))) = stdin1"
    and "snd (snd (snd (snd (print_stage args h outs stdin w tr)))) =
           tr1 @ map (\<lambda>p. Subprocess (lpr_command p (arg_printer args) (Some (parse_print_options args))))
                   (filter (printable w) outs)"
    and "fsys (fst (snd (snd (snd (print_stage args h outs stdin w tr))))) = fsys w"
proof -
  from assms(1,3) obtain results where
    eq: "print_stage args h outs stdin w tr
       = (0, Some results, stdin1, w,
          snd (file_outcomes (PrinterManager h) h w (arg_printer args)
                 (Some (parse_print_options args)) outs tr1))"
    by (rule print_stage_run)
  show "fst (print_stage args h outs stdin w tr) = 0"
    "fst (snd (snd (print_stage args h outs stdin w tr))) = stdin1"
    "fsys (fst (snd (snd (snd (print_stage args h outs stdin w tr))))) = fsys w"
    by (simp_all add: eq)
  show "snd (snd (snd (snd (print_stage args h outs stdin w tr)))) =
           tr1 @ map (\<lambda>p. Subprocess (lpr_command p (arg_printer args) (Some (parse_print_options args))))
                   (filter (printable w) outs)"
    using file_outcomes_unix(1) [OF assms(2), of h w "arg_printer args"
        "Some (parse_print_options args)" outs tr1]
    by (simp add: eq)
qed

lemma filter_all: "list_all P xs \<Longrightarrow> filter P xs = xs"
  by (induction xs) simp_all

lemma main_prints_parts:
  assumes "split_stage args sz stdin w = Some (Proceed outs, stdin1, w1)"
    and "arg_print args" and "unix (PrinterManager h)"
    and "confirm_printer args (PrinterManager h) h stdin1 tr = (Inr stdin2, tr1)"
  shows "\<exists>w'. main args h sz stdin w tr =
           Some (0, stdin2, w',
                 tr1 @ map (\<lambda>p. Subprocess (lpr_command p (arg_printer args)
                                   (Some (parse_print_options args)))) outs)
         \<and> fsys w' = fsys w1"
proof -
  have nl: "\<not> arg_list_printers args"
    using assms(1) by (auto simp: split_stage_unfold)
  note ps = print_stage_unix [OF assms(2,3,4), of outs w1]
  obtain c r s w' t where p: "print_stage args h outs stdin1 w1 tr = (c, r, s, w', t)"
    by (metis prod_cases5)
  with ps filter_all [OF split_stage_outputs(2) [OF assms(1)]]
  show ?thesis using nl assms(1) by (simp add: main_def)
qed

lemma successful_prints_le: "successful_prints results \<le> length results"
  by (simp add: successful_prints_def)

lemma successful_prints_flags:
  "successful_prints results = length (filter id (map (\<lambda>r. fst (snd r)) results))"
  by (simp add: successful_prints_def filter_map comp_def case_prod_unfold)

section \<open>Listing the printers: the calls made\<close>

lemma print_available_printers_trace:
  assumes "unix (PrinterManager h)"
  shows "snd (print_available_printers h tr) =
           (if fst (list_printers (PrinterManager h) h tr) = []
            then tr @ [Subprocess [''lpstat'', ''-p'']]
            else tr @ [Subprocess [''lpstat'', ''-p''], Subprocess [''lpstat'', ''-d'']])"
proof -
  have l: "snd (list_printers (PrinterManager h) h tr) = tr @ [Subprocess [''lpstat'', ''-p'']]"
    by (simp add: list_printers_unix [OF assms])
  have d: "snd (get_default_printer (PrinterManager h) h t) = t @ [Subprocess [''lpstat'', ''-d'']]" for t
    using assms
    by (auto simp: get_default_printer_def unix_def get_unix_default_printer_def subprocess_run_def
        case_prod_beta split: proc_result.splits)
  show ?thesis
    by (simp add: print_available_printers_def case_prod_beta Let_def l d)
qed

section \<open>Properties\<close>

text \<open>
  The example run of \<open>Cli_Main\<close> with \<open>--print\<close> and two options, on the
  Linux host of \<open>Printer_Manager\<close> and on a host without \<open>lpr\<close>.
\<close>

definition ex_print_args :: args where
  "ex_print_args = ex_args\<lparr>arg_print := True,
                            arg_print_options := Some ''sides=two-sided-long-edge, copies=2''\<rparr>"

definition ex_offline :: host where
  "ex_offline = ex_host\<lparr>run_program := \<lambda>tr cmd. Failed FileNotFoundError\<rparr>"

lemma ex_print_split:
  "split_stage ex_print_args sz [] ex_world = Some (Proceed ex_parts_out, [], ex_after)"
  by (simp add: ex_print_args_def ex_main)

lemma ex_no_printer: "\<not> truthy (arg_printer ex_print_args)" "arg_print ex_print_args"
  by (simp_all add: truthy_def ex_print_args_def ex_args_def)

lemma ex_offline_unix: "unix (PrinterManager ex_offline)"
  by (simp add: unix_PrinterManager ex_offline_def ex_host_def)

text \<open>
  C12. \<open>main\<close> always comes to an end: for every command line, console
  input, name space, size function and host it returns an exit status. In
  particular the renaming loop ends on every name the tool generates.
\<close>

theorem main_returns: "\<exists>r. main args h sz stdin w tr = Some r"
  using split_stage_returns [of args sz stdin w]
  by (auto simp: main_def split: prod.splits stage.splits)

text \<open>
  C21. The exit status of \<open>main\<close> is 0, 1 or 2, and it is 2 exactly when
  no input file is given and the printers are not to be listed (the error
  that \<open>argparse\<close> reports).
\<close>

theorem main_exit_status:
  assumes "main args h sz stdin w tr = Some (code, rest)"
  shows "code \<in> {0, 1, 2}
         \<and> (code = 2 \<longleftrightarrow> \<not> arg_list_printers args \<and> \<not> truthy (arg_input_file args))"
proof (cases "arg_list_printers args")
  case True
  with assms show ?thesis by (simp add: main_def)
next
  case False
  from split_stage_returns [of args sz stdin w] obtain st stdin1 w1
    where s: "split_stage args sz stdin w = Some (st, stdin1, w1)" by (metis prod_cases3)
  show ?thesis
  proof (cases st)
    case (Exit c)
    with s assms False have "c = code" by (simp add: main_def)
    with s Exit split_stage_usage [of args sz stdin w stdin1 w1]
      split_stage_usage [of args sz stdin w stdin w] False
      split_stage_exit_status [of args sz stdin w c stdin1 w1]
    show ?thesis by auto
  next
    case (Proceed outs)
    with s have "split_stage args sz stdin w \<noteq> Some (Exit 2, stdin, w)" by simp
    then have "truthy (arg_input_file args)" using False by (simp add: split_stage_usage)
    moreover have "code = 0 \<or> code = 1"
      using s Proceed assms False print_stage_code [of args h outs stdin1 w1 tr]
      by (auto simp: main_def split: prod.splits)
    ultimately show ?thesis by auto
  qed
qed

theorem main_exit_status_witness:
  "main (ex_args\<lparr>arg_input_file := None\<rparr>) ex_host ex_sizes [] ex_world []
     = Some (2, [], ex_world, [])
   \<and> \<not> arg_list_printers (ex_args\<lparr>arg_input_file := None\<rparr>)
   \<and> \<not> truthy (arg_input_file (ex_args\<lparr>arg_input_file := None\<rparr>))"
proof -
  have m: "main (ex_args\<lparr>arg_input_file := None\<rparr>) ex_host ex_sizes [] ex_world []
             = Some (2, [], ex_world, [])"
    by (simp add: main_def split_stage_unfold ex_args_def)
  from main_exit_status [OF m] m show ?thesis by simp
qed

text \<open>
  C25. The text \<open>key=value,key=value,...\<close> of a non-empty list of options,
  whose keys and values hold neither a comma nor \<open>=\<close> and whose keys differ
  after \<open>strip\<close>, is parsed by \<open>main\<close> into that list, in its order, with
  every key and value stripped.
\<close>

theorem parse_print_options_roundtrip:
  assumes "kvs \<noteq> []" and "list_all (\<lambda>kv. option_text (fst kv) \<and> option_text (snd kv)) kvs"
    and "distinct (map (fst \<circ> stripped) kvs)"
    and "arg_print_options args = Some (render_options kvs)"
  shows "parse_print_options args = map stripped kvs"
  using parse_options_loop_render [OF assms(2,3), of "[]"] render_options_nonempty [OF assms(1)]
  by (simp add: parse_print_options_def truthy_def assms(4) split_render_options [OF assms(1,2)])

theorem parse_print_options_roundtrip_witness:
  "parse_print_options ex_print_args = [(''sides'', ''two-sided-long-edge''), (''copies'', ''2'')]"
  using parse_print_options_roundtrip [of "[(''sides'', ''two-sided-long-edge''), ('' copies'', ''2'')]"
      ex_print_args]
  by (simp add: option_text_def stripped_def render_options_def render_option_def
      ex_print_args_def ex_args_def py_strip_def is_space_def)

text \<open>
  C32. The exit status does not tell whether anything was printed: when
  \<open>main\<close> gets past the split with \<open>--print\<close> on macOS or Linux, no printer
  is named and no program of the host exits with 0, then every file has an
  entry, none of them is successful, and \<open>main\<close> still returns 0.
\<close>

theorem main_exit_zero_nothing_printed:
  assumes "split_stage args sz stdin w = Some (Proceed outs, stdin1, w1)"
    and "arg_print args" and "unix (PrinterManager h)" and "\<not> truthy (arg_printer args)"
    and "\<forall>tr cmd. \<not> exits_ok (run_program h tr cmd)"
  shows "\<exists>results rest. print_stage args h outs stdin1 w1 tr = (0, Some results, rest)
           \<and> length results = length outs \<and> successful_prints results = 0
           \<and> (\<exists>w' tr'. main args h sz stdin w tr = Some (0, stdin1, w', tr'))"
proof -
  let ?opts = "Some (parse_print_options args)"
  from assms(2) confirm_printer_none [OF assms(4)] obtain results where
    run: "print_multiple_files (PrinterManager h) h outs (arg_printer args) ?opts None w1 tr
       = (Inr results, w1, snd (file_outcomes (PrinterManager h) h w1 (arg_printer args) ?opts outs tr))"
    and eq: "print_stage args h outs stdin1 w1 tr
       = (0, Some results, stdin1, w1,
          snd (file_outcomes (PrinterManager h) h w1 (arg_printer args) ?opts outs tr))"
    by (rule print_stage_run)
  note d = split_stage_outputs(1) [OF assms(1)]
  have fl: "lpr_outcomes h w1 pn opts ps t = replicate (length ps) False" for pn opts ps t
    using assms(5) by (induction ps arbitrary: t) simp_all
  from print_multiple_files_run(3) [OF cb_frame_None d, of "PrinterManager h" h "arg_printer args"
      ?opts w1 tr] run
    file_outcomes_unix(2) [OF assms(3), of h w1 "arg_printer args" ?opts outs tr]
  have flags: "map (\<lambda>r. fst (snd r)) results = replicate (length outs) False"
    by (simp add: fl map_zip_snd)
  then have "length results = length outs" by (metis length_map length_replicate)
  moreover from flags have "successful_prints results = 0"
    by (simp add: successful_prints_flags)
  moreover from main_prints_parts [OF assms(1-3) confirm_printer_none [OF assms(4)], of tr]
  have "\<exists>w' tr'. main args h sz stdin w tr = Some (0, stdin1, w', tr')" by blast
  ultimately show ?thesis using eq by simp
qed

theorem main_exit_zero_nothing_printed_witness:
  "\<exists>results rest. print_stage ex_print_args ex_offline ex_parts_out [] ex_after [] = (0, Some results, rest)
           \<and> length results = length ex_parts_out \<and> successful_prints results = 0
           \<and> (\<exists>w' tr'. main ex_print_args ex_offline ex_sizes [] ex_world [] = Some (0, [], w', tr'))"
  using main_exit_zero_nothing_printed [OF ex_print_split ex_no_printer(2) ex_offline_unix
      ex_no_printer(1), where tr = "[]" and sz = ex_sizes]
  by (simp add: ex_offline_def exits_ok_def)

text \<open>
  C33. A printer that is named but not listed is still used: on macOS and
  Linux, when \<open>--printer\<close> names a printer that \<open>list_printers\<close> does not
  return and the question whether to continue with the default printer is
  answered with yes, every \<open>lpr\<close> command that follows the call of \<open>lpstat\<close>
  carries \<open>-P\<close> with the name that was not found.
\<close>

theorem print_stage_missing_printer:
  assumes "arg_print args" and "unix (PrinterManager h)"
    and "arg_printer args = Some n" and "n \<noteq> []"
    and "n \<notin> set (fst (list_printers (PrinterManager h) h tr))"
    and "confirmed response"
  shows "snd (snd (snd (snd (print_stage args h outs (response # rest) w tr)))) =
           tr @ Subprocess [''lpstat'', ''-p'']
              # map (\<lambda>p. Subprocess (''lpr'' # ''-P'' # n
                         # drop 3 (lpr_command p (Some n) (Some (parse_print_options args)))))
                  (filter (printable w) outs)"
proof -
  have "snd (list_printers (PrinterManager h) h tr) = tr @ [Subprocess [''lpstat'', ''-p'']]"
    by (simp add: list_printers_unix [OF assms(2)])
  with assms(3-6)
  have "confirm_printer args (PrinterManager h) h (response # rest) tr
          = (Inr rest, tr @ [Subprocess [''lpstat'', ''-p'']])"
    by (simp add: confirm_printer_def truthy_def case_prod_beta Let_def)
  from print_stage_unix(3) [OF assms(1,2) this, of outs w] assms(3,4)
  show ?thesis by (simp add: lpr_command_def truthy_def)
qed

theorem print_stage_missing_printer_witness:
  "snd (snd (snd (snd (print_stage (ex_print_args\<lparr>arg_printer := Some ''Canon''\<rparr>) ex_host ex_outs
                         [''y''] ex_printed [])))) =
     [Subprocess [''lpstat'', ''-p''],
      Subprocess [''lpr'', ''-P'', ''Canon'', ''-o'', ''sides=two-sided-long-edge'', ''-o'', ''copies=2'', ''a.pdf''],
      Subprocess [''lpr'', ''-P'', ''Canon'', ''-o'', ''sides=two-sided-long-edge'', ''-o'', ''copies=2'', ''b.pdf''],
      Subprocess [''lpr'', ''-P'', ''Canon'', ''-o'', ''sides=two-sided-long-edge'', ''-o'', ''copies=2'', ''c.pdf'']]"
proof -
  have po: "parse_print_options (ex_print_args\<lparr>arg_printer := Some ''Canon''\<rparr>)
      = [(''sides'', ''two-sided-long-edge''), (''copies'', ''2'')]"
    by (simp add: ex_print_args_def ex_args_def parse_print_options_def truthy_def unpack_pair_def
        py_strip_def is_space_def)
  have "fst (list_printers (PrinterManager ex_host) ex_host []) = [''HP_Printer'', ''Office'']"
    using list_printers_unix [OF ex_unix, of ex_host "[]"] lpstat_printers_report [OF ex_entries]
    by (simp add: ex_host_def)
  with print_stage_missing_printer [OF _ ex_unix _ _ _ confirmed_examples(2),
      of "ex_print_args\<lparr>arg_printer := Some ''Canon''\<rparr>" "''Canon''" "[]" ex_outs "[]" ex_printed]
  show ?thesis
    by (simp add: po ex_no_printer ex_outs_def ex_printed_def print_eval)
qed

end
