(* ===== verification/Spec2Isabelle.thy ===== *)
theory Spec2Isabelle
  imports Cli_Print
begin

text \<open>
  \<^bold>\<open>The program.\<close> c-stpl is a command-line tool that cuts a PDF document
  into files of at most \<open>--pages\<close> pages and can send them to a printer. It
  has four source files under \<open>src/\<close>:

    \<^item> \<open>pdf_splitter.py\<close>, class \<open>PDFSplitter\<close>: loads the document, computes the
      page ranges of the parts and writes one file per range;
    \<^item> \<open>file_manager.py\<close>, class \<open>FileManager\<close>: checks the input, makes the
      output directory, proposes the names \<open><stem>_part_<NNN>.pdf\<close> and replaces
      a name that is taken by \<open><name>_<counter>.pdf\<close>;
    \<^item> \<open>printer_manager.py\<close>, class \<open>PrinterManager\<close>: lists printers and hands
      files to the print command of the operating system;
    \<^item> \<open>main.py\<close>: parses the command line and calls the three classes in order:
      check the input, load, check \<open>--pages\<close>, (preview), make the directory,
      propose and resolve the names, split, (print), summary.

  \<^bold>\<open>The theories.\<close> Each theory opens with a note on what it holds.

    \<^item> \<open>Stpl_Prelude\<close>: the collections \<open>py_defs\<close>, \<open>stpl_defs\<close>, \<open>stpl_inv\<close>, the
      exceptions as a datatype and results as a sum (\<open>Inl\<close> the exception),
      \<open>traverse\<close> for a loop that stops at the first exception, list slices,
      ceiling division. It imports \<open>Complex_Main\<close> for the rational numbers
      that stand for floats.
    \<^item> \<open>Py_Builtins\<close>, \<open>Py_Pathlib\<close>: the Python library the sources call, written
      from its documentation: \<open>range\<close> with a step, indexing with negative
      indices, \<open>str\<close> of an integer, the format \<open>03d\<close>, \<open>strip\<close> and \<open>lower\<close>;
      the division \<open>/\<close> of integers as far as the sources use it: what it
      raises (\<open>truediv_error\<close>) and the rounded quotient by \<open>2 ^ 20\<close>
      (\<open>round53\<close>, \<open>megabytes\<close>), proved to be rounding to nearest
      (\<open>round53_closest\<close>) with a relative error of at most \<open>2 ^ -53\<close> and a
      finite result (\<open>megabytes_finite\<close>);
      \<open>pathlib\<close> paths as a list of components with \<open>parent\<close>, \<open>name\<close>, \<open>stem\<close>,
      \<open>suffix\<close>, \<open>/\<close> and \<open>str\<close>. Their lemmas are the facts the components need:
      digits can be read back, rendering is injective, a parsed path prints
      and parses to itself.
    \<^item> \<open>File_System\<close>: the record \<open>world\<close> (a finite map from paths to
      directories, PDF files and other files, and the set of paths the system
      refuses to create or change) with \<open>exists\<close>, \<open>is_file\<close>, \<open>open(.., 'wb')\<close>,
      \<open>unlink\<close>, \<open>mkdir(parents=True, exist_ok=True)\<close>, \<open>stat().st_size\<close> (a
      field of 64 bits, \<open>64 word\<close>, read with \<open>unat\<close>) and the reader of pypdf.
      The invariant \<open>fs_wf\<close> (every entry lies in a directory) is kept by every
      operation.
    \<^item> \<open>Partition_Spec\<close>: what a split promises, independent of the code:
      \<open>is_partition_plan\<close> (contiguous ranges from page 1 to the last page, all
      of the given size but possibly the last, their number the rounded-up
      quotient) and \<open>chunks\<close> (a list cut into blocks).
    \<^item> \<open>Pdf_Splitter\<close>: the record \<open>splitter\<close> (\<open>input_file\<close>, \<open>reader\<close>,
      \<open>total_pages\<close>) and one definition per method of \<open>PDFSplitter\<close>, with the
      same names; \<open>_get_page_ranges\<close> is \<open>get_page_ranges\<close>, the loop of
      \<open>split_pdf\<close> is \<open>split_loop\<close>. Its theorems: the ranges are a partition plan
      and refine \<open>chunks\<close>; accepted parameters give at least two parts; the
      summary of \<open>calculate_split_info\<close> agrees with its ranges; the states
      reachable by \<open>load_pdf\<close> (the inductive relation \<open>splitter_reach\<close>) satisfy
      \<open>splitter_inv\<close>; a successful load gives the state \<open>loaded\<close>; the
      dictionary of \<open>get_pdf_info\<close> (an association list of \<open>info_value\<close>s) is
      given in full for a loaded document; a load that fails on the pages
      keeps the page count of the document loaded before. The progress
      callback is modelled here: a function that may change the name space and
      may raise; \<open>cb_frame\<close> says that it does neither, \<open>cb_agree\<close> that two
      callbacks agree on the calls a loop makes.
    \<^item> \<open>Split_Run\<close>: what \<open>split_pdf\<close> and \<open>extract_page_range\<close> do to the files:
      the result of a complete run (\<open>overlay\<close> of \<open>part_files\<close>), pages preserved,
      the first failure ends the run and leaves the earlier parts, success
      exactly when every part has a writable path, nothing but the output
      paths is touched, a cap that is not positive writes nothing, an
      exception of the callback is caught and makes the call return \<open>False\<close>.
    \<^item> \<open>File_Manager\<close>: the record \<open>file_manager\<close> and one definition per
      method of \<open>FileManager\<close>. Its theorems: generated
      names are as many as needed, different and inside the output directory;
      the renaming loop ends and returns the first free name; resolved names
      do not exist and stay different; the part number can be read back from
      a name; two proposed names can be resolved to one; the directory is
      made or the call reports failure; clean-up removes what it can; the size
      in megabytes is the nearest double, exact below \<open>2 ^ 53\<close> bytes.
    \<^item> \<open>Split_Pipeline\<close>: the lemmas on \<open>split_pdf\<close> run on resolved names.
    \<^item> \<open>Cli_Main\<close>: \<open>main\<close> from the parsed arguments (record \<open>args\<close>) to the
      end of the split, \<open>split_stage\<close>, with \<open>run_split\<close> for the part after the
      checks, \<open>show_pdf_info\<close> for the information block of \<open>--verbose\<close> and
      the call of \<open>preview_split\<close>, both proved never to fail there
      (\<open>split_stage_unfold\<close>), and \<open>print_progress\<close> with the exceptions of its
      division, proved not to occur in the loops (\<open>print_progress_agree\<close>). Its
      lemmas: it always returns; its exit status is 0, 1 or 2; it changes
      nothing before the checks have passed; the files it hands on exist,
      differ and end in \<open>.pdf\<close>.
    \<^item> \<open>Printer_Manager\<close>: the record \<open>printer_manager\<close> and one definition per
      method of \<open>PrinterManager\<close>; \<open>_print_mac\<close> is \<open>print_mac\<close> and so on, the
      loop of \<open>print_multiple_files\<close> is \<open>print_loop\<close>. The operating system is
      the record \<open>host\<close>: the platform name, whether the \<open>win32\<close> modules can be
      imported, and what each program and \<open>win32\<close> function answers given the
      calls made so far. The state of the print system is the list of calls
      made (\<open>trace\<close>); every method takes it and returns it extended. Its
      theorems: \<open>print_file\<close> refuses a missing file and a file that is no
      PDF without any call; the answer of \<open>lpstat -p\<close> is read back as the list
      of names, and one line without a name loses them all.
    \<^item> \<open>Print_Run\<close>: what \<open>print_multiple_files\<close> does, against the sequence of
      \<open>print_file\<close> results \<open>file_outcomes\<close> and, on macOS and Linux, against
      the list of \<open>lpr\<close> commands: one entry and at most one command per file,
      in order, whatever failed before; the result is a dictionary keyed by
      the printed paths; an exception of the callback leaves the method.
    \<^item> \<open>Cli_Print\<close>: the rest of \<open>main.py\<close>: \<open>parse_print_options\<close>,
      \<open>confirm_printer\<close>, \<open>print_stage\<close>, \<open>print_available_printers\<close> and \<open>main\<close>
      as \<open>split_stage\<close> followed by \<open>print_stage\<close>. Its theorems: \<open>main\<close> always
      returns, with status 0, 1 or 2; the option text is parsed back; the
      status is 0 also when nothing was printed; a printer that was not found
      is used all the same; every stage runs with \<open>--verbose\<close> as without.
    \<^item> this theory: the properties across components. The names match the
      ranges; the two range functions agree; a split onto resolved names
      preserves the pages and overwrites nothing; the same two facts for
      every run of \<open>main\<close> that gets past the split; what \<open>main\<close> prints is
      what it has written; and \<open>--verbose\<close> and the sizes of the files change
      nothing of a run but its console output.

  \<^bold>\<open>Conventions.\<close> Python integers are \<open>int\<close>; \<open>//\<close> is \<open>div\<close>, which rounds down
  as Python does. A method that assigns attributes returns the new record; a
  method that touches files takes the world and returns it. An exception that
  the source catches is the branch of its \<open>except\<close> clause; one that it does not
  catch is an \<open>Inl\<close> result, and in \<open>main\<close> the exit status 1 that the guard at
  the end of \<open>main.py\<close> (\<open>except Exception\<close>, lines 249 to 260) turns it
  into; \<open>main\<close> models the body of the function from line 63 on, after
  \<open>argparse\<close> has filled the record \<open>args\<close>, together with this guard. A page is a natural number that stands
  for its content; a written file holds exactly the pages given to the writer.
  Characters are code points below 256. The size of a file is a function
  \<open>size_fn\<close> of its path and content that the methods asking for a size
  receive; its values are words of 64 bits, as the field \<open>st_size\<close> is. A
  float is the rational number it stands for; the one division of the
  sources that yields a value, by \<open>1024 * 1024\<close>, is rounded to 53
  significant bits, ties to the even mantissa, as the division of two Python
  integers is. A progress callback returns the exception it raises, if any,
  with the name space it leaves. A message that the source formats
  with an exception is its fixed text paired with the exception. A dictionary
  whose order matters is an association list with \<open>AList.update\<close>.

  \<^bold>\<open>Loops, bounds and fuel.\<close> No definition uses fuel. The only numeric
  bounds are those of the machine: 64 bits for a file size, which keeps the
  division by \<open>2 ^ 20\<close> far from the overflow of a double
  (\<open>megabytes_unat\<close>), and the 53 bits and the largest exponent of a double. The loops over ranges, names and files are structural recursions
  over lists. The only loop of the sources without a bound, the \<open>while\<close> of
  \<open>handle_filename_conflicts\<close>, is the partial function \<open>rename_loop\<close> (its value
  is \<open>None\<close> if it does not end); that it ends is proved for every parsed path
  from the finiteness of the name space and the injectivity of the decimal
  rendering of the counter, and \<open>main\<close> is proved to return on every input
  and host. \<open>words\<close> (\<open>str.split()\<close>) recurses on a shorter string and has its
  termination proof. The witnesses run the definitions on a document of five
  pages, on a Linux host with two printers and on a host without \<open>lpr\<close>.

  \<^bold>\<open>Not modelled.\<close> Text printed to the console, except the lines of
  \<open>preview_split\<close>, and the text of an exception inside a message: the
  \<open>print\<close> calls of the sources, among them the warning of
  \<open>validate_input\<close> for a suffix other than \<open>.pdf\<close> and the lines of
  \<open>main\<close> under \<open>--verbose\<close>, have no counterpart, since printing changes
  nothing that the modelled code reads. \<open>argparse\<close> (lines 24 to 61 of
  \<open>main.py\<close>): the record \<open>args\<close> is what it returns, and the exit with status
  2 of \<open>parser.error\<close> is a branch of \<open>split_stage\<close>. Paths are those of
  POSIX; the paths of Windows (drives, backslashes) are not modelled. A
  callback that raises leaves the name space it has made; what it did to the
  print system is not modelled. In the file system:
  symbolic links, the current directory, other processes changing files
  during a run, and a write that fails half way (a file is written completely
  or not at all). In the print system: what a printer does with a job; the
  model ends at the call of the program or \<open>win32\<close> function and its answer.
\<close>

section \<open>Splitting onto generated names\<close>

text \<open>
  C4. The split of the command-line tool loses nothing: when a readable
  document is loaded, \<open>pages_per_split\<close> is positive, the progress callback
  only reports (it neither raises nor changes a file) and the output
  directory exists and can be written to, then \<open>split_pdf\<close>, run on the
  names that \<open>generate_output_filenames\<close> proposed and
  \<open>handle_filename_conflicts\<close> resolved, succeeds, and the pages of the
  written files, read in the order of the names, are the pages of the
  document, whatever files were in the directory before.
\<close>

theorem pipeline_preserves_pages:
  assumes "loaded self rd" and "0 < pps" and "cb_frame cb"
    and "fm_wf fm" and "writable_dir w (output_dir fm)"
    and "generate_output_filenames fm (total_pages self) pps = Inr ps"
    and "handle_filename_conflicts fm w ps = Some outs"
  shows "fst (split_pdf self pps outs cb w) \<and>
         concat (map (file_pages (snd (split_pdf self pps outs cb w))) outs) = pages rd"
  using pipeline_run [OF assms] assms(2) by (auto simp: concat_chunks)

text \<open>
  C10. Under the same conditions (a loaded readable document, a positive
  \<open>pages_per_split\<close>, a callback that only reports, a writable output
  directory, names proposed and resolved by the file manager) no entry that
  existed before the split is changed by it: every part goes to a name that
  was free.
\<close>

theorem pipeline_never_overwrites:
  assumes "loaded self rd" and "0 < pps" and "cb_frame cb"
    and "fm_wf fm" and "writable_dir w (output_dir fm)"
    and "generate_output_filenames fm (total_pages self) pps = Inr ps"
    and "handle_filename_conflicts fm w ps = Some outs"
    and "path_exists w q"
  shows "lookup_node (snd (split_pdf self pps outs cb w)) q = lookup_node w q"
proof -
  from pipeline_outputs(4) [OF assms(4,2,5,6,7)] assms(8) have "q \<notin> set outs"
    by (auto simp: list_all_iff)
  then have "q \<notin> fst ` set (part_files pps (pages rd) outs)"
    by (auto simp: part_files_def dest: set_zip_leftD)
  with pipeline_run(1) [OF assms(1-7)] show ?thesis by (auto simp: overlay_other)
qed


text \<open>
  C26. For a positive \<open>pages_per_split\<close> the file manager proposes exactly
  as many names as the splitter computes page ranges, for every page count, so
  the loop of \<open>split_pdf\<close> finds an output path for each range.
\<close>

theorem names_match_ranges:
  assumes "0 < pps"
  shows "\<exists>ps rs. generate_output_filenames fm (total_pages self) pps = Inr ps
           \<and> get_page_ranges self pps = Inr rs \<and> length ps = length rs"
  using assms by (simp add: generate_output_filenames_eq get_page_ranges_pos ceil_range_len)

theorem names_match_ranges_witness:
  "\<exists>ps rs. generate_output_filenames ex_fm (total_pages ex_splitter) 2 = Inr ps
           \<and> get_page_ranges ex_splitter 2 = Inr rs \<and> length ps = length rs"
  using names_match_ranges [of 2 ex_fm ex_splitter] by simp

text \<open>
  \<open>FileManager.get_split_ranges\<close> and \<open>PDFSplitter._get_page_ranges\<close>
  are the same function of the page count and \<open>pages_per_split\<close>, on every
  input, the failing ones included.
\<close>

theorem get_split_ranges_agrees:
  "get_split_ranges fm (total_pages self) pps = get_page_ranges self pps"
  by (simp add: get_split_ranges_def get_page_ranges_def)

definition ex_resolved :: "path list" where
  "ex_resolved = [PurePath False [''out'', ''doc_part_001_2.pdf''],
                  PurePath False [''out'', ''doc_part_002.pdf''],
                  PurePath False [''out'', ''doc_part_003.pdf'']]"

definition ex_proposed :: "path list" where
  "ex_proposed = [PurePath False [''out'', ''doc_part_001.pdf''],
                  PurePath False [''out'', ''doc_part_002.pdf''],
                  PurePath False [''out'', ''doc_part_003.pdf'']]"

lemma ex_generated: "generate_output_filenames ex_fm (total_pages ex_splitter) 2 = Inr ex_proposed"
  by (simp add: ex_fm_eq ex_splitter_def ex_proposed_def generate_output_filenames_def
      py_range1_def part_name_def format_03d_def str_nat_small digit_char_def join_str_def
      joinpath_def Path_def Let_def upt_conv_Cons numeral_2_eq_2)

lemma ex_handled: "handle_filename_conflicts ex_fm ex_fm_world ex_proposed = Some ex_resolved"
  by (simp add: ex_proposed_def ex_resolved_def ex_fm_world_def rename_loop_taken path_eval)

lemma ex_writable: "writable_dir ex_fm_world (output_dir ex_fm)"
  by (simp add: writable_dir_def ex_fm_eq ex_fm_world_def is_dir_def lookup_node_def)

theorem pipeline_preserves_pages_witness:
  "fst (split_pdf ex_splitter 2 ex_resolved None ex_fm_world) \<and>
   concat (map (file_pages (snd (split_pdf ex_splitter 2 ex_resolved None ex_fm_world))) ex_resolved)
     = pages ex_doc"
  using pipeline_preserves_pages [OF ex_loaded _ _ ex_fm_wf ex_writable ex_generated ex_handled, of None]
  by (simp add: cb_frame_def)

theorem pipeline_never_overwrites_witness:
  "lookup_node (snd (split_pdf ex_splitter 2 ex_resolved None ex_fm_world)) ex_taken
     = lookup_node ex_fm_world ex_taken"
  using pipeline_never_overwrites [OF ex_loaded _ _ ex_fm_wf ex_writable ex_generated ex_handled,
      of None ex_taken]
  by (simp add: cb_frame_def ex_taken_def ex_fm_world_def path_exists_def lookup_node_def)


section \<open>The command-line run\<close>

text \<open>
  C2. When \<open>main\<close> gets past the split, the files it has written hold,
  read in order, exactly the pages of the input document: no page is lost,
  doubled or moved, for every command line and whatever the output directory
  held before.
\<close>

theorem main_split_preserves_pages:
  assumes "split_stage args sz stdin w = Some (Proceed outs, stdin', w')"
  shows "\<exists>inp rd. arg_input_file args = Some inp \<and> pdf_reader w (Path inp) = Inr rd
           \<and> concat (map (file_pages w') outs) = pages rd"
proof -
  from assms obtain inp sp rd where "arg_input_file args = Some inp"
    "pdf_reader w (Path inp) = Inr rd" "loaded sp rd" "0 < arg_pages args"
    "run_split args (FileManager inp (arg_output args)) sp stdin w = Some (Proceed outs, stdin', w')"
    by (rule split_stage_run)
  with run_split_pages(1) [of args _ sp stdin w outs stdin' w' rd] show ?thesis by simp
qed

theorem main_split_preserves_pages_witness:
  "\<exists>inp rd. arg_input_file ex_args = Some inp \<and> pdf_reader ex_world (Path inp) = Inr rd
         \<and> concat (map (file_pages ex_after) ex_parts_out) = pages rd"
  using main_split_preserves_pages [OF ex_main] .

text \<open>
  C8. When \<open>main\<close> gets past the split, every entry that existed before
  the run is unchanged: the input document and every file in the output
  directory. This holds with and without \<open>--force\<close> and whatever was
  answered to the question about overwriting: a taken name is always replaced
  by a free one.
\<close>

theorem main_never_overwrites:
  assumes "split_stage args sz stdin w = Some (Proceed outs, stdin', w')" and "path_exists w q"
  shows "lookup_node w' q = lookup_node w q"
proof -
  from assms(1) obtain inp sp rd where "loaded sp rd" "0 < arg_pages args"
    "run_split args (FileManager inp (arg_output args)) sp stdin w = Some (Proceed outs, stdin', w')"
    by (rule split_stage_run)
  with run_split_pages(2) [of args _ sp stdin w outs stdin' w' rd] assms(2) show ?thesis by simp
qed

theorem main_never_overwrites_witness:
  "lookup_node ex_after (PurePath False [''doc.pdf'']) = lookup_node ex_world (PurePath False [''doc.pdf''])"
  using main_never_overwrites [OF ex_main, of "PurePath False [''doc.pdf'']"]
  by (simp add: path_exists_def lookup_node_def ex_world_def)

section \<open>Printing what the split has written\<close>

text \<open>
  C3. With \<open>--print\<close> on macOS or Linux, when \<open>main\<close> gets past the split
  and past the question about the printer, it returns 0 and has run, after
  the calls made before, one \<open>lpr\<close> command for every file the split has
  written, in the order of the parts and with the options of the command
  line; these files, read in that order, hold exactly the pages of the input
  document. No file is skipped by the checks of \<open>print_file\<close>, and printing
  changes no file.
\<close>

theorem main_prints_written_parts:
  assumes "split_stage args sz stdin w = Some (Proceed outs, stdin1, w1)"
    and "arg_print args" and "unix (PrinterManager h)"
    and "confirm_printer args (PrinterManager h) h stdin1 tr = (Inr stdin2, tr1)"
  shows "\<exists>inp rd w'. arg_input_file args = Some inp \<and> pdf_reader w (Path inp) = Inr rd
           \<and> main args h sz stdin w tr =
                 Some (0, stdin2, w',
                       tr1 @ map (\<lambda>p. Subprocess (lpr_command p (arg_printer args)
                                         (Some (parse_print_options args)))) outs)
           \<and> concat (map (file_pages w') outs) = pages rd"
proof -
  from assms(1) obtain inp sp rd where inp: "arg_input_file args = Some inp"
    "pdf_reader w (Path inp) = Inr rd" and "loaded sp rd" "0 < arg_pages args"
    "run_split args (FileManager inp (arg_output args)) sp stdin w = Some (Proceed outs, stdin1, w1)"
    by (rule split_stage_run)
  with run_split_pages(1) [of args _ sp stdin w outs stdin1 w1 rd]
  have pg: "concat (map (file_pages w1) outs) = pages rd" by simp
  from main_prints_parts [OF assms] obtain w' where
    m: "main args h sz stdin w tr =
          Some (0, stdin2, w',
                tr1 @ map (\<lambda>p. Subprocess (lpr_command p (arg_printer args)
                                  (Some (parse_print_options args)))) outs)"
    and f: "fsys w' = fsys w1" by blast
  from f have "file_pages w' = file_pages w1"
    by (simp add: file_pages_def pdf_reader_def lookup_node_def fun_eq_iff)
  with inp m pg show ?thesis by simp
qed

theorem main_prints_written_parts_witness:
  "\<exists>inp rd w'. arg_input_file ex_print_args = Some inp \<and> pdf_reader ex_world (Path inp) = Inr rd
     \<and> main ex_print_args ex_host ex_sizes [] ex_world [] =
         Some (0, [], w',
               [Subprocess [''lpr'', ''-o'', ''sides=two-sided-long-edge'', ''-o'', ''copies=2'',
                            ''out/doc_part_001.pdf''],
                Subprocess [''lpr'', ''-o'', ''sides=two-sided-long-edge'', ''-o'', ''copies=2'',
                            ''out/doc_part_002.pdf''],
                Subprocess [''lpr'', ''-o'', ''sides=two-sided-long-edge'', ''-o'', ''copies=2'',
                            ''out/doc_part_003.pdf'']])
     \<and> concat (map (file_pages w') ex_parts_out) = pages rd"
proof -
  have po: "parse_print_options ex_print_args = [(''sides'', ''two-sided-long-edge''), (''copies'', ''2'')]"
    by (simp add: ex_print_args_def ex_args_def parse_print_options_def truthy_def unpack_pair_def
        py_strip_def is_space_def)
  from main_prints_written_parts [OF ex_print_split ex_no_printer(2) ex_unix
      confirm_printer_none [OF ex_no_printer(1)], where tr = "[]" and sz = ex_sizes]
  show ?thesis
    using ex_no_printer(1) by (simp add: po ex_parts_out_def lpr_command_def path_str_def)
qed

section \<open>The verbose flag\<close>

text \<open>
  C38. \<open>--verbose\<close> only adds console output: the exit status of \<open>main\<close>,
  the console input it reads, the name space it leaves and the commands it
  runs are the same with and without the flag, and they do not depend on the
  sizes of the files. In particular the look-ups of the information block
  and the division of \<open>print_progress\<close> raise nothing in a run of \<open>main\<close>.
\<close>

theorem main_verbose_harmless:
  "main (args\<lparr>arg_verbose := v\<rparr>) h sz stdin w tr = main args h sz' stdin w tr"
  by (simp add: main_def split_stage_verbose [where sz' = sz']
      split: option.splits prod.splits stage.splits)

end
